(* ===== verification/Prelude.thy ===== *)
theory Prelude
  imports Main "HOL-Library.Word" "HOL-Library.Sublist" "HOL-Library.AList"
begin

text \<open>
  Shared vocabulary of the development: the parts of the Rust standard library that the
  sources use (byte strings, string searching and splitting, decimal numbers, saturating
  integers, results), and the generic facts about them that the component theories rely on.

  A Rust \<^verbatim>\<open>str\<close> is modelled by its UTF-8 bytes, a \<^typ>\<open>char list\<close>; all the
  operations below are byte operations in the sources too.
\<close>

section \<open>Collections of the development\<close>

named_theorems str_simps \<open>facts about the string operations of the standard library\<close>
named_theorems sat_simps \<open>unfoldings of saturating arithmetic\<close>
named_theorems inv_intros \<open>preservation of component invariants\<close>

type_synonym bytes = string
type_synonym u64 = "64 word"
type_synonym ('e, 'a) result = "'e + 'a"

abbreviation Err :: "'e \<Rightarrow> ('e, 'a) result" where
  "Err \<equiv> Inl"

abbreviation Ok :: "'a \<Rightarrow> ('e, 'a) result" where
  "Ok \<equiv> Inr"

section \<open>Results\<close>

fun is_ok :: "('e, 'a) result \<Rightarrow> bool" where
  "is_ok (Inl _) = False"
| "is_ok (Inr _) = True"

fun bind_res :: "('e, 'a) result \<Rightarrow> ('a \<Rightarrow> ('e, 'b) result) \<Rightarrow> ('e, 'b) result" where
  "bind_res (Inl e) f = Inl e"
| "bind_res (Inr x) f = f x"

fun ok_or :: "'e \<Rightarrow> 'a option \<Rightarrow> ('e, 'a) result" where
  "ok_or e None = Inl e"
| "ok_or e (Some x) = Inr x"

text \<open>\<^verbatim>\<open>for x in xs { ...?; }\<close>: the first error stops the loop.\<close>

fun map_res :: "('a \<Rightarrow> ('e, 'b) result) \<Rightarrow> 'a list \<Rightarrow> ('e, 'b list) result" where
  "map_res f [] = Inr []"
| "map_res f (x # xs) =
     (case f x of Inl e \<Rightarrow> Inl e
      | Inr y \<Rightarrow> (case map_res f xs of Inl e \<Rightarrow> Inl e | Inr ys \<Rightarrow> Inr (y # ys)))"

section \<open>Strings\<close>

fun starts_with :: "'a list \<Rightarrow> 'a list \<Rightarrow> bool" where
  "starts_with s [] = True"
| "starts_with [] (p # ps) = False"
| "starts_with (c # s) (p # ps) = (c = p \<and> starts_with s ps)"

definition ends_with :: "'a list \<Rightarrow> 'a list \<Rightarrow> bool" where
  "ends_with s t \<longleftrightarrow> length t \<le> length s \<and> drop (length s - length t) s = t"

definition strip_prefix :: "'a list \<Rightarrow> 'a list \<Rightarrow> 'a list option" where
  "strip_prefix s p = (if starts_with s p then Some (drop (length p) s) else None)"

definition strip_suffix :: "'a list \<Rightarrow> 'a list \<Rightarrow> 'a list option" where
  "strip_suffix s t = (if ends_with s t then Some (take (length s - length t) s) else None)"

text \<open>\<^verbatim>\<open>s.find(p)\<close>: the least offset at which \<open>p\<close> occurs.\<close>

fun find_sub :: "'a list \<Rightarrow> 'a list \<Rightarrow> nat option" where
  "find_sub [] p = (if p = [] then Some 0 else None)"
| "find_sub (c # s) p =
     (if starts_with (c # s) p then Some 0 else map_option Suc (find_sub s p))"

definition contains_sub :: "'a list \<Rightarrow> 'a list \<Rightarrow> bool" where
  "contains_sub s p \<longleftrightarrow> find_sub s p \<noteq> None"

text \<open>\<^verbatim>\<open>s.split(c)\<close>: always at least one part.\<close>

fun split_on :: "'a \<Rightarrow> 'a list \<Rightarrow> 'a list list" where
  "split_on c [] = [[]]"
| "split_on c (x # xs) =
     (if x = c then [] # split_on c xs
      else (case split_on c xs of [] \<Rightarrow> [[x]] | p # ps \<Rightarrow> (x # p) # ps))"

definition split_once :: "'a list \<Rightarrow> 'a list \<Rightarrow> ('a list \<times> 'a list) option" where
  "split_once s p = (case find_sub s p of None \<Rightarrow> None
     | Some i \<Rightarrow> Some (take i s, drop (i + length p) s))"

fun rsplit_once_char :: "'a \<Rightarrow> 'a list \<Rightarrow> ('a list \<times> 'a list) option" where
  "rsplit_once_char c [] = None"
| "rsplit_once_char c (x # xs) =
     (case rsplit_once_char c xs of
        Some (a, b) \<Rightarrow> Some (x # a, b)
      | None \<Rightarrow> if x = c then Some ([], xs) else None)"

fun join_with :: "'a list \<Rightarrow> 'a list list \<Rightarrow> 'a list" where
  "join_with sep [] = []"
| "join_with sep [s] = s"
| "join_with sep (s # t # ts) = s @ sep @ join_with sep (t # ts)"

text \<open>The encodings of the characters with the Unicode property White\_Space.\<close>

definition unicode_ws :: "string list" where
  "unicode_ws =
     [[CHR 0x09], [CHR 0x0A], [CHR 0x0B], [CHR 0x0C], [CHR 0x0D], [CHR 0x20],
      [CHR 0xC2, CHR 0x85], [CHR 0xC2, CHR 0xA0], [CHR 0xE1, CHR 0x9A, CHR 0x80],
      [CHR 0xE2, CHR 0x80, CHR 0x80], [CHR 0xE2, CHR 0x80, CHR 0x81],
      [CHR 0xE2, CHR 0x80, CHR 0x82], [CHR 0xE2, CHR 0x80, CHR 0x83],
      [CHR 0xE2, CHR 0x80, CHR 0x84], [CHR 0xE2, CHR 0x80, CHR 0x85],
      [CHR 0xE2, CHR 0x80, CHR 0x86], [CHR 0xE2, CHR 0x80, CHR 0x87],
      [CHR 0xE2, CHR 0x80, CHR 0x88], [CHR 0xE2, CHR 0x80, CHR 0x89],
      [CHR 0xE2, CHR 0x80, CHR 0x8A], [CHR 0xE2, CHR 0x80, CHR 0xA8],
      [CHR 0xE2, CHR 0x80, CHR 0xA9], [CHR 0xE2, CHR 0x80, CHR 0xAF],
      [CHR 0xE2, CHR 0x81, CHR 0x9F], [CHR 0xE3, CHR 0x80, CHR 0x80]]"

fun trim_left_by :: "'a list list \<Rightarrow> nat \<Rightarrow> 'a list \<Rightarrow> 'a list" where
  "trim_left_by ws 0 s = s"
| "trim_left_by ws (Suc n) s =
     (case List.find (\<lambda>w. starts_with s w) ws of
        None \<Rightarrow> s | Some w \<Rightarrow> trim_left_by ws n (drop (length w) s))"

text \<open>A whitespace encoding is never empty, so \<open>length s\<close> rounds are enough.\<close>

definition trim_start :: "string \<Rightarrow> string" where
  "trim_start s = trim_left_by unicode_ws (length s) s"

definition trim_end :: "string \<Rightarrow> string" where
  "trim_end s = rev (trim_left_by (map rev unicode_ws) (length s) (rev s))"

definition trim :: "string \<Rightarrow> string" where
  "trim s = trim_end (trim_start s)"

definition is_blank :: "string \<Rightarrow> bool" where
  "is_blank s \<longleftrightarrow> trim s = []"

definition ascii_lower :: "char \<Rightarrow> char" where
  "ascii_lower c = (let n = (of_char c :: nat) in
     if 65 \<le> n \<and> n \<le> 90 then char_of (n + 32) else c)"

definition to_ascii_lowercase :: "string \<Rightarrow> string" where
  "to_ascii_lowercase s = map ascii_lower s"

definition eq_ignore_ascii_case :: "string \<Rightarrow> string \<Rightarrow> bool" where
  "eq_ignore_ascii_case a b \<longleftrightarrow> to_ascii_lowercase a = to_ascii_lowercase b"

definition newline :: char where
  "newline = CHR 0x0A"

definition carriage_return :: char where
  "carriage_return = CHR 0x0D"

text \<open>\<^verbatim>\<open>str::lines\<close>: split at newlines, drop an empty last line and a trailing CR.\<close>

definition chomp_cr :: "string \<Rightarrow> string" where
  "chomp_cr l = (if l \<noteq> [] \<and> last l = carriage_return then butlast l else l)"

definition str_lines :: "string \<Rightarrow> string list" where
  "str_lines s = (let ps = split_on newline s in
     map chomp_cr (if last ps = [] then butlast ps else ps))"

section \<open>Decimal numbers\<close>

fun digits_of :: "nat \<Rightarrow> nat list" where
  "digits_of n = (if n < 10 then [n] else digits_of (n div 10) @ [n mod 10])"

declare digits_of.simps [simp del]

definition dec_of_nat :: "nat \<Rightarrow> string" where
  "dec_of_nat n = map (\<lambda>d. ''0123456789'' ! d) (digits_of n)"

definition digit_val :: "char \<Rightarrow> nat option" where
  "digit_val c = (let n = (of_char c :: nat) in
     if 48 \<le> n \<and> n \<le> 57 then Some (n - 48) else None)"

fun parse_digits :: "nat \<Rightarrow> string \<Rightarrow> nat option" where
  "parse_digits acc [] = Some acc"
| "parse_digits acc (c # cs) =
     (case digit_val c of None \<Rightarrow> None | Some d \<Rightarrow> parse_digits (acc * 10 + d) cs)"

text \<open>
  \<^verbatim>\<open>s.parse::<uN>()\<close>: an optional plus sign, then at least one digit, and no overflow
  of the \<open>w\<close>-bit type.
\<close>

definition parse_uint :: "nat \<Rightarrow> string \<Rightarrow> nat option" where
  "parse_uint w s =
     (let ds = (case s of c # cs \<Rightarrow> if c = CHR ''+'' then cs else s | [] \<Rightarrow> []) in
      if ds = [] then None
      else (case parse_digits 0 ds of
              None \<Rightarrow> None
            | Some n \<Rightarrow> if n < 2 ^ w then Some n else None))"

section \<open>Hexadecimal\<close>

definition hex_byte :: "char \<Rightarrow> string" where
  "hex_byte c = (let n = (of_char c :: nat) in
     [''0123456789abcdef'' ! (n div 16), ''0123456789abcdef'' ! (n mod 16)])"

text \<open>\<^verbatim>\<open>format!("{b:02x}")\<close> of every byte.\<close>

definition hex_encode :: "bytes \<Rightarrow> string" where
  "hex_encode bs = concat (map hex_byte bs)"

section \<open>Debug formatting\<close>

text \<open>
  \<^verbatim>\<open>format!("{s:?}")\<close> of a string: quotes, backslashes and ASCII control characters are
  escaped. Characters outside ASCII are kept (the standard library escapes the unprintable ones).
\<close>

definition debug_char :: "char \<Rightarrow> string" where
  "debug_char ch = (let n = (of_char ch :: nat) in
     if ch = CHR 0x22 \<or> ch = CHR 0x5C then [CHR 0x5C, ch]
     else if n = 0 then [CHR 0x5C, CHR ''0'']
     else if n = 9 then [CHR 0x5C, CHR ''t'']
     else if n = 10 then [CHR 0x5C, CHR ''n'']
     else if n = 13 then [CHR 0x5C, CHR ''r'']
     else if n < 32 \<or> n = 127 then
       [CHR 0x5C, CHR ''u'', CHR ''{''] @ (if n < 16 then [''0123456789abcdef'' ! n] else hex_byte ch) @ [CHR ''}'']
     else [ch])"

definition debug_str :: "string \<Rightarrow> string" where
  "debug_str s = CHR 0x22 # concat (map debug_char s) @ [CHR 0x22]"

section \<open>Saturating integers\<close>

definition sat_add :: "nat \<Rightarrow> nat \<Rightarrow> nat \<Rightarrow> nat" where
  "sat_add w a b = min (a + b) (2 ^ w - 1)"

definition i64_min :: int where
  "i64_min = - (2 ^ 63)"

definition i64_max :: int where
  "i64_max = 2 ^ 63 - 1"

definition clamp_i64 :: "int \<Rightarrow> int" where
  "clamp_i64 x = max i64_min (min i64_max x)"

definition sat_add_i64 :: "int \<Rightarrow> int \<Rightarrow> int" where
  "sat_add_i64 a b = clamp_i64 (a + b)"

definition sat_sub_i64 :: "int \<Rightarrow> int \<Rightarrow> int" where
  "sat_sub_i64 a b = clamp_i64 (a - b)"

definition sat_mul_i64 :: "int \<Rightarrow> int \<Rightarrow> int" where
  "sat_mul_i64 a b = clamp_i64 (a * b)"

lemmas sat_i64_defs [sat_simps] =
  sat_add_i64_def sat_sub_i64_def sat_mul_i64_def clamp_i64_def i64_min_def i64_max_def
lemmas sat_add_unfold [sat_simps] = sat_add_def

section \<open>Tables\<close>

text \<open>Hash maps are association lists with distinct keys; \<open>P\<close> holds of every entry.\<close>

definition entries_ok :: "('k \<Rightarrow> 'v \<Rightarrow> bool) \<Rightarrow> ('k \<times> 'v) list \<Rightarrow> bool" where
  "entries_ok P xs \<longleftrightarrow> distinct (map fst xs) \<and> list_all (\<lambda>kv. P (fst kv) (snd kv)) xs"

lemma set_update_subset: "set (AList.update k v xs) \<subseteq> insert (k, v) (set xs)"
  by (induction xs) auto

lemma entries_ok_update: "entries_ok P xs \<Longrightarrow> P a v \<Longrightarrow> entries_ok P (AList.update a v xs)"
  using set_update_subset [of a v xs] distinct_update [of xs a v]
  by (auto simp: entries_ok_def list_all_iff)

lemma entries_ok_get: "entries_ok P xs \<Longrightarrow> map_of xs a = Some v \<Longrightarrow> P a v"
  by (auto simp: entries_ok_def list_all_iff dest!: map_of_SomeD)

lemma map_of_fold_update:
  "map_of (fold (\<lambda>x. AList.update (f x) (g x)) es tab) =
     map_of tab ++ map_of (rev (map (\<lambda>x. (f x, g x)) es))"
  by (induction es arbitrary: tab) (auto simp: update_conv' map_add_def fun_eq_iff split: option.splits)

lemma map_of_rev_distinct: "distinct (map fst es) \<Longrightarrow> map_of (rev es) = map_of es"
  by (intro map_of_eqI) (auto simp: rev_map [symmetric] map_of_eq_Some_iff)

section \<open>Facts about results\<close>

lemma bind_res_Inr_iff [simp]:
  "bind_res r f = Inr y \<longleftrightarrow> (\<exists>x. r = Inr x \<and> f x = Inr y)"
  by (cases r) auto

lemma map_res_Inr_length: "map_res f xs = Inr ys \<Longrightarrow> length ys = length xs"
  by (induction xs arbitrary: ys) (auto split: sum.splits)

lemma map_res_Inr_nth:
  "map_res f xs = Inr ys \<Longrightarrow> i < length xs \<Longrightarrow> f (xs ! i) = Inr (ys ! i)"
  by (induction xs arbitrary: ys i) (auto split: sum.splits simp: nth_Cons split: nat.splits)

lemma map_res_all_ok: "(\<And>x. x \<in> set xs \<Longrightarrow> f x = Inr (g x)) \<Longrightarrow> map_res f xs = Inr (map g xs)"
  by (induction xs) auto

lemma map_res_Inl: "map_res f xs = Inl e \<Longrightarrow> \<exists>x \<in> set xs. f x = Inl e"
  by (induction xs) (auto split: sum.splits)

section \<open>Facts about strings\<close>

lemma starts_with_iff_prefix [str_simps]: "starts_with s p \<longleftrightarrow> prefix p s"
  by (induction s p rule: starts_with.induct) auto

lemma starts_with_append [simp]: "starts_with (p @ s) p"
  by (simp add: str_simps)

lemma ends_with_iff_suffix [str_simps]: "ends_with s t \<longleftrightarrow> suffix t s"
proof
  assume "ends_with s t"
  then have "s = take (length s - length t) s @ t"
    using append_take_drop_id [of "length s - length t" s] by (simp add: ends_with_def)
  then show "suffix t s" by (metis suffixI)
next
  assume "suffix t s"
  then show "ends_with s t" by (auto simp: suffix_def ends_with_def)
qed

lemma strip_prefix_eq_Some [str_simps]: "strip_prefix s p = Some r \<longleftrightarrow> s = p @ r"
  by (auto simp: strip_prefix_def str_simps prefix_def)

lemma strip_prefix_append [simp]: "strip_prefix (p @ s) p = Some s"
  by (simp add: strip_prefix_eq_Some)

lemma find_sub_Some:
  "find_sub s p = Some i \<Longrightarrow> i + length p \<le> length s \<and> take (length p) (drop i s) = p"
proof (induction s arbitrary: i)
  case Nil
  then show ?case by (auto split: if_splits)
next
  case (Cons c s)
  show ?case
  proof (cases "starts_with (c # s) p")
    case True
    with Cons.prems have "i = 0" by simp
    moreover from True obtain r where r: "c # s = p @ r" by (auto simp: str_simps prefix_def)
    ultimately show ?thesis unfolding r by simp
  next
    case False
    with Cons show ?thesis by auto
  qed
qed

lemma find_sub_decomp:
  assumes "find_sub s p = Some i"
  shows "s = take i s @ p @ drop (i + length p) s"
  using find_sub_Some [OF assms]
  by (metis add.commute append_take_drop_id drop_drop)

lemma find_sub_append_bound:
  "\<exists>i. find_sub (a @ p @ b) p = Some i \<and> i \<le> length a"
proof (induction a)
  case Nil
  show ?case
  proof (cases "p @ b")
    case (Cons x xs)
    then have "starts_with (x # xs) p" by (metis starts_with_append)
    with Cons show ?thesis by simp
  qed simp
next
  case (Cons c a)
  then show ?case by auto
qed

lemma find_sub_None_iff: "find_sub s p = None \<longleftrightarrow> (\<forall>a b. s \<noteq> a @ p @ b)"
  by (metis find_sub_append_bound find_sub_decomp not_None_eq option.distinct(1))

lemma contains_sub_iff [str_simps]: "contains_sub s p \<longleftrightarrow> (\<exists>a b. s = a @ p @ b)"
  using find_sub_None_iff [of s p] by (auto simp: contains_sub_def)

lemma split_on_not_Nil [simp]: "split_on c s \<noteq> []"
  by (induction s) (auto split: list.splits)

lemma split_on_no_sep: "c \<notin> set s \<Longrightarrow> split_on c s = [s]"
  by (induction s) auto

lemma split_on_append_sep:
  "c \<notin> set a \<Longrightarrow> split_on c (a @ c # s) = a # split_on c s"
  by (induction a) auto

lemma split_on_singleton_iff: "length (split_on c s) = 1 \<longleftrightarrow> c \<notin> set s"
  by (induction s) (auto split: list.splits simp: length_Suc_conv)

lemma join_with_split_on: "join_with [c] (split_on c s) = s"
proof (induction s)
  case (Cons x xs)
  then show ?case by (cases "split_on c xs"; cases "tl (split_on c xs)") auto
qed simp

lemma split_on_parts: "p \<in> set (split_on c s) \<Longrightarrow> c \<notin> set p"
  by (induction s arbitrary: p) (auto split: list.splits if_splits)

lemma split_once_Some:
  "split_once s p = Some (a, b) \<Longrightarrow> s = a @ p @ b"
  by (auto simp: split_once_def split: option.splits dest: find_sub_decomp)

lemma trim_left_by_keep:
  "(\<And>w. w \<in> set ws \<Longrightarrow> \<not> starts_with s w) \<Longrightarrow> trim_left_by ws n s = s"
proof (cases n)
  case (Suc m)
  assume "\<And>w. w \<in> set ws \<Longrightarrow> \<not> starts_with s w"
  then have "List.find (\<lambda>w. starts_with s w) ws = None" by (auto simp: find_None_iff)
  with Suc show ?thesis by simp
qed simp

lemma find_sub_char: "c \<notin> set a \<Longrightarrow> find_sub (a @ c # b) [c] = Some (length a)"
  by (induction a) auto

lemma split_once_char [simp]: "c \<notin> set a \<Longrightarrow> split_once (a @ c # b) [c] = Some (a, b)"
  by (simp add: split_once_def find_sub_char)

lemma split_once_char_None [simp]: "c \<notin> set s \<Longrightarrow> split_once s [c] = None"
  by (induction s) (auto simp: split_once_def split: option.splits)

lemma rsplit_once_char_None_iff: "rsplit_once_char c s = None \<longleftrightarrow> c \<notin> set s"
  by (induction s) (auto split: option.splits)

lemma rsplit_once_char_append [simp]:
  "c \<notin> set b \<Longrightarrow> rsplit_once_char c (a @ c # b) = Some (a, b)"
  using rsplit_once_char_None_iff [of c b] by (induction a) auto

lemma rsplit_once_char_Some: "rsplit_once_char c s = Some (a, b) \<Longrightarrow> s = a @ c # b \<and> c \<notin> set b"
  by (induction s arbitrary: a b)
    (auto split: option.splits if_splits simp: rsplit_once_char_None_iff)

section \<open>Blank text\<close>

text \<open>Blank text is a run of whitespace characters; its lines are blank too.\<close>

definition ws_run :: "string \<Rightarrow> bool" where
  "ws_run s \<longleftrightarrow> (\<exists>ws. set ws \<subseteq> set unicode_ws \<and> s = concat ws)"

lemma ws_run_Nil [simp]: "ws_run []"
  unfolding ws_run_def by (rule exI [of _ "[]"]) simp

lemma ws_run_Cons: "w \<in> set unicode_ws \<Longrightarrow> ws_run s \<Longrightarrow> ws_run (w @ s)"
  unfolding ws_run_def by (metis concat.simps(2) insert_subset list.set(2))

lemma unicode_ws_not_Nil: "w \<in> set unicode_ws \<Longrightarrow> w \<noteq> []"
  by (auto simp: unicode_ws_def)

lemma unicode_ws_prefix_code:
  "list_all (\<lambda>w. list_all (\<lambda>w'. prefix w w' \<longrightarrow> w = w') unicode_ws) unicode_ws"
  by code_simp

lemma unicode_ws_prefix_free:
  "w \<in> set unicode_ws \<Longrightarrow> w' \<in> set unicode_ws \<Longrightarrow> prefix w w' \<Longrightarrow> w = w'"
  using unicode_ws_prefix_code by (auto simp: list_all_iff)

lemma unicode_ws_newline: "w \<in> set unicode_ws \<Longrightarrow> w = [newline] \<or> newline \<notin> set w"
  by (auto simp: unicode_ws_def newline_def)

lemma unicode_ws_cr: "w \<in> set unicode_ws \<Longrightarrow> last w = carriage_return \<Longrightarrow> w = [carriage_return]"
  by (auto simp: unicode_ws_def carriage_return_def)

lemma trim_left_by_decomp: "\<exists>us. set us \<subseteq> set ws \<and> s = concat us @ trim_left_by ws n s"
proof (induction ws n s rule: trim_left_by.induct)
  case (2 ws n s)
  show ?case
  proof (cases "List.find (\<lambda>w. starts_with s w) ws")
    case None
    then show ?thesis by (auto intro: exI [of _ "[]"])
  next
    case (Some w)
    then have w: "w \<in> set ws" "prefix w s" by (auto simp: find_Some_iff str_simps)
    from 2 [OF Some] obtain us where us: "set us \<subseteq> set ws"
        "drop (length w) s = concat us @ trim_left_by ws n (drop (length w) s)" by blast
    have "s = w @ drop (length w) s" using w(2) by (auto simp: prefix_def)
    with us w Some show ?thesis by (auto intro!: exI [of _ "w # us"])
  qed
qed (auto intro: exI [of _ "[]"])

lemma is_blank_ws_run: "is_blank s \<Longrightarrow> ws_run s"
proof -
  assume "is_blank s"
  then have nil: "trim_end (trim_start s) = []" by (simp add: is_blank_def trim_def)
  obtain us where us: "set us \<subseteq> set unicode_ws" "s = concat us @ trim_start s"
    using trim_left_by_decomp [of unicode_ws s "length s"] by (auto simp: trim_start_def)
  obtain vs where vs: "set vs \<subseteq> set (map rev unicode_ws)"
      "rev (trim_start s) = concat vs @ rev (trim_end (trim_start s))"
    using trim_left_by_decomp [of "map rev unicode_ws" "rev (trim_start s)" "length (trim_start s)"]
    unfolding trim_end_def rev_rev_ident by blast
  then have "rev (trim_start s) = concat vs" using nil by simp
  then have "trim_start s = rev (concat vs)" by (metis rev_rev_ident)
  then have vs2: "trim_start s = concat (map rev (rev vs))" by (simp add: rev_concat rev_map)
  have "set (us @ map rev (rev vs)) \<subseteq> set unicode_ws" using us(1) vs(1) by auto
  moreover have "s = concat (us @ map rev (rev vs))" using us(2) vs2 by simp
  ultimately show "ws_run s" unfolding ws_run_def by blast
qed

lemma ws_run_is_blank: "ws_run s \<Longrightarrow> is_blank s"
proof -
  have "trim_left_by unicode_ws n (concat ws) = []"
    if "set ws \<subseteq> set unicode_ws" "length ws \<le> n" for ws n
    using that
  proof (induction ws arbitrary: n)
    case Nil
    have "\<not> starts_with [] w" if "w \<in> set unicode_ws" for w :: string
      using unicode_ws_not_Nil [OF that] by (cases w) auto
    then show ?case by (simp add: trim_left_by_keep)
  next
    case (Cons w ws)
    then obtain m where n: "n = Suc m" "length ws \<le> m" by (cases n) auto
    have "List.find (\<lambda>v. starts_with (w @ concat ws) v) unicode_ws \<noteq> None"
      using Cons.prems by (auto simp: find_None_iff)
    then obtain v where find: "List.find (\<lambda>v. starts_with (w @ concat ws) v) unicode_ws = Some v" by blast
    then have "v \<in> set unicode_ws" "prefix v (w @ concat ws)" by (auto simp: find_Some_iff str_simps)
    then have "v = w"
      using unicode_ws_prefix_free Cons.prems(1)
      by (metis insert_subset list.set(2) prefix_same_cases prefixI)
    with find n Cons show ?case by simp
  qed
  moreover assume "ws_run s"
  then obtain ws where ws: "set ws \<subseteq> set unicode_ws" "s = concat ws" by (auto simp: ws_run_def)
  moreover have "length ws \<le> length (concat ws)"
    using ws(1)
  proof (induction ws)
    case (Cons w ws)
    then have "w \<noteq> []" using unicode_ws_not_Nil by simp
    with Cons show ?case by (cases w) auto
  qed simp
  ultimately have "trim_start s = []" by (simp add: trim_start_def)
  then show ?thesis by (simp add: is_blank_def trim_def trim_end_def)
qed

lemma ws_run_lines:
  "ws_run s \<Longrightarrow> l \<in> set (split_on newline s) \<Longrightarrow> ws_run l"
proof -
  have "\<forall>l \<in> set (split_on newline (concat ws)). ws_run l" if "set ws \<subseteq> set unicode_ws" for ws
    using that
  proof (induction ws)
    case (Cons w ws)
    obtain p ps where parts: "split_on newline (concat ws) = p # ps"
      using split_on_not_Nil by (meson list.exhaust)
    with Cons have run: "ws_run p" "\<forall>l \<in> set ps. ws_run l" by auto
    have w: "w \<in> set unicode_ws" using Cons.prems by simp
    show ?case
    proof (cases "w = [newline]")
      case True
      with parts run show ?thesis by auto
    next
      case False
      with unicode_ws_newline [OF w] have "newline \<notin> set w" by simp
      then have "split_on newline (w @ concat ws) = (w @ p) # ps"
        using parts by (induction w) auto
      with run ws_run_Cons [OF w run(1)] show ?thesis by simp
    qed
  qed simp
  then show "ws_run s \<Longrightarrow> l \<in> set (split_on newline s) \<Longrightarrow> ws_run l" by (auto simp: ws_run_def)
qed

lemma ws_run_chomp: "ws_run l \<Longrightarrow> ws_run (chomp_cr l)"
proof (cases "l \<noteq> [] \<and> last l = carriage_return")
  case True
  assume "ws_run l"
  then obtain ws where ws: "set ws \<subseteq> set unicode_ws" "l = concat ws" by (auto simp: ws_run_def)
  with True obtain us w where us: "ws = us @ [w]" by (cases ws rule: rev_cases) auto
  with ws have "w \<in> set unicode_ws" by simp
  moreover from this have "last w = carriage_return"
    using True ws us unicode_ws_not_Nil by auto
  ultimately have "w = [carriage_return]" by (rule unicode_ws_cr)
  with True ws us show ?thesis
    by (auto simp: chomp_cr_def ws_run_def butlast_append intro!: exI [of _ us])
qed (auto simp: chomp_cr_def)

lemma blank_lines:
  assumes "is_blank s" and "l \<in> set (str_lines s)"
  shows "is_blank l"
proof -
  obtain p where "p \<in> set (split_on newline s)" "l = chomp_cr p"
    using assms(2) by (auto simp: str_lines_def Let_def split: if_splits dest: in_set_butlastD)
  then show ?thesis
    using is_blank_ws_run [OF assms(1)] ws_run_lines ws_run_chomp ws_run_is_blank by blast
qed

text \<open>Text that starts with a visible ASCII character is never blank.\<close>

definition graphic :: "char \<Rightarrow> bool" where
  "graphic ch \<longleftrightarrow> (let n = (of_char ch :: nat) in 33 \<le> n \<and> n \<le> 126)"

lemma unicode_ws_not_graphic: "w \<in> set unicode_ws \<Longrightarrow> \<not> graphic (hd w)"
  by (auto simp: unicode_ws_def graphic_def)

lemma graphic_not_blank:
  assumes "s \<noteq> []" "graphic (hd s)"
  shows "\<not> is_blank (s @ t)"
proof
  assume "is_blank (s @ t)"
  then obtain ws where ws: "set ws \<subseteq> set unicode_ws" "s @ t = concat ws"
    using is_blank_ws_run by (auto simp: ws_run_def)
  with assms(1) obtain w ws' where w: "ws = w # ws'" by (cases ws) auto
  then have "w \<in> set unicode_ws" using ws(1) by simp
  moreover have "hd s = hd w"
    using ws(2) w unicode_ws_not_Nil [OF \<open>w \<in> set unicode_ws\<close>] assms(1) by (metis concat.simps(2) hd_append2)
  ultimately show False using unicode_ws_not_graphic assms(2) by simp
qed

section \<open>Facts about decimal numbers\<close>

lemma digits_of_less: "d \<in> set (digits_of n) \<Longrightarrow> d < 10"
  by (induction n rule: digits_of.induct) (subst (asm) (2) digits_of.simps, auto split: if_splits)

lemma digits_of_not_Nil [simp]: "digits_of n \<noteq> []"
  by (subst digits_of.simps) auto

lemma less_10_cases:
  "(d :: nat) < 10 \<Longrightarrow> d = 0 \<or> d = 1 \<or> d = 2 \<or> d = 3 \<or> d = 4 \<or> d = 5 \<or> d = 6 \<or> d = 7 \<or> d = 8 \<or> d = 9"
  by arith

lemma digit_val_digit [simp]: "d < 10 \<Longrightarrow> digit_val (''0123456789'' ! d) = Some d"
  by (drule less_10_cases) (auto simp: digit_val_def)

lemma digit_val_Some: "digit_val c = Some d \<Longrightarrow> 48 \<le> (of_char c :: nat) \<and> (of_char c :: nat) \<le> 57"
  by (auto simp: digit_val_def Let_def split: if_splits)

lemma parse_digits_append:
  "parse_digits acc (xs @ ys) = Option.bind (parse_digits acc xs) (\<lambda>a. parse_digits a ys)"
  by (induction xs arbitrary: acc) (auto split: option.splits)

lemma parse_digits_dec [simp]: "parse_digits 0 (dec_of_nat n) = Some n"
proof (induction n rule: digits_of.induct)
  case (1 n)
  show ?case
  proof (cases "n < 10")
    case True
    then show ?thesis by (simp add: dec_of_nat_def digits_of.simps [of n])
  next
    case False
    then have "dec_of_nat n = dec_of_nat (n div 10) @ [''0123456789'' ! (n mod 10)]"
      by (simp add: dec_of_nat_def digits_of.simps [of n])
    with 1 False show ?thesis by (simp add: parse_digits_append)
  qed
qed

lemma dec_of_nat_not_Nil [simp]: "dec_of_nat n \<noteq> []"
  by (simp add: dec_of_nat_def)

lemma dec_of_nat_chars: "c \<in> set (dec_of_nat n) \<Longrightarrow> 48 \<le> (of_char c :: nat) \<and> (of_char c :: nat) \<le> 57"
  by (auto simp: dec_of_nat_def dest!: digits_of_less digit_val_digit digit_val_Some)

lemma dec_of_nat_not_plus: "c \<in> set (dec_of_nat n) \<Longrightarrow> c \<noteq> CHR ''+''"
  by (drule dec_of_nat_chars) auto

lemma parse_uint_dec [simp]: "n < 2 ^ w \<Longrightarrow> parse_uint w (dec_of_nat n) = Some n"
  using dec_of_nat_not_plus [of "hd (dec_of_nat n)" n] parse_digits_dec [of n]
  by (cases "dec_of_nat n") (simp_all add: parse_uint_def del: parse_digits_dec)

lemma dec_of_nat_inj: "dec_of_nat m = dec_of_nat n \<longleftrightarrow> m = n"
  by (metis option.inject parse_digits_dec)

end
