(* ===== verification/Matcher.thy ===== *)
theory Matcher
  imports Prelude
begin

text \<open>
  The rule matchers of \<^verbatim>\<open>crates/policy/src/matcher.rs\<close>: the four kinds of axis predicate,
  their rule-file syntax (\<open>matcher_parse\<close>, \<open>matcher_source\<close>), the greedy glob
  matcher and its equivalence with a backtracking reference semantics.
\<close>

section \<open>Model\<close>

datatype matcher =
    Any
  | Exact string
  | Prefix string
  | Glob string

datatype matcher_error = MatcherError string

definition star :: char where
  "star = CHR ''*''"

text \<open>\<^verbatim>\<open>Matcher::parse\<close>; the error case exists in the type only.\<close>

definition matcher_parse :: "string \<Rightarrow> (matcher_error, matcher) result" where
  "matcher_parse raw =
     (case strip_prefix raw ''glob:'' of Some pat \<Rightarrow> Ok (Glob pat) | None \<Rightarrow>
      (case strip_prefix raw ''prefix:'' of Some lit \<Rightarrow> Ok (Prefix lit) | None \<Rightarrow>
       (case strip_prefix raw ''exact:'' of Some lit \<Rightarrow> Ok (Exact lit) | None \<Rightarrow>
        if star \<in> set raw then Ok (Glob raw) else Ok (Exact raw))))"

text \<open>
  The loop of \<open>glob_match\<close> over the middle parts: \<open>pos\<close> is the byte offset up to which
  the text is consumed; \<open>None\<close> is the early \<^verbatim>\<open>return false\<close>.
\<close>

fun glob_middles :: "string \<Rightarrow> nat \<Rightarrow> string list \<Rightarrow> nat option" where
  "glob_middles subj pos [] = Some pos"
| "glob_middles subj pos (middle # ms) =
     (if middle = [] then glob_middles subj pos ms
      else (case find_sub (drop pos subj) middle of
              Some found \<Rightarrow> glob_middles subj (pos + (found + length middle)) ms
            | None \<Rightarrow> None))"

definition glob_match :: "string \<Rightarrow> string \<Rightarrow> bool" where
  "glob_match pattern subj =
     (let parts = split_on star pattern in
      if length parts = 1 then pattern = subj
      else if \<not> starts_with subj (hd parts) then False
      else (case glob_middles subj (length (hd parts)) (butlast (tl parts)) of
              None \<Rightarrow> False
            | Some pos \<Rightarrow>
                (let tl_part = last parts in
                 if tl_part = [] then True
                 else length subj - pos \<ge> length tl_part \<and> ends_with subj tl_part)))"

fun matcher_matches :: "matcher \<Rightarrow> string \<Rightarrow> bool" where
  "matcher_matches Any candidate = True"
| "matcher_matches (Exact v) candidate = (v = candidate)"
| "matcher_matches (Prefix p) candidate = starts_with candidate p"
| "matcher_matches (Glob g) candidate = glob_match g candidate"

definition backtick :: char where
  "backtick = CHR 0x60"

fun matcher_describe :: "matcher \<Rightarrow> string" where
  "matcher_describe Any = ''any value''"
| "matcher_describe (Exact v) = ''exactly '' @ [backtick] @ v @ [backtick]"
| "matcher_describe (Prefix p) = ''starting with '' @ [backtick] @ p @ [backtick]"
| "matcher_describe (Glob g) = ''matching '' @ [backtick] @ g @ [backtick]"

fun matcher_source :: "matcher \<Rightarrow> string option" where
  "matcher_source Any = None"
| "matcher_source (Exact v) = (if star \<in> set v then Some (''exact:'' @ v) else Some v)"
| "matcher_source (Prefix p) = Some (''prefix:'' @ p)"
| "matcher_source (Glob g) = (if star \<in> set g then Some g else Some (''glob:'' @ g))"

section \<open>Reference semantics\<close>

text \<open>
  What a glob means, with no commitment to a strategy: a star stands for some run of
  characters, every other character for itself.
\<close>

fun glob_spec :: "string \<Rightarrow> string \<Rightarrow> bool" where
  "glob_spec [] t = (t = [])"
| "glob_spec (c # p) t =
     (if c = star then glob_spec p t \<or> (case t of [] \<Rightarrow> False | _ # ts \<Rightarrow> glob_spec (c # p) ts)
      else (case t of [] \<Rightarrow> False | d # ts \<Rightarrow> c = d \<and> glob_spec p ts))"

text \<open>The same over the parts between the stars.\<close>

fun parts_spec :: "string list \<Rightarrow> string \<Rightarrow> bool" where
  "parts_spec [] t = False"
| "parts_spec [p] t = (t = p)"
| "parts_spec (p # q # qs) t = (\<exists>g r. t = p @ g @ r \<and> parts_spec (q # qs) r)"

definition later_spec :: "string list \<Rightarrow> string \<Rightarrow> bool" where
  "later_spec ps t \<longleftrightarrow> (\<exists>g r. t = g @ r \<and> parts_spec ps r)"

text \<open>Values that the rule-file syntax reads as a tag of another kind.\<close>

definition has_tag :: "string \<Rightarrow> bool" where
  "has_tag v \<longleftrightarrow> starts_with v ''glob:'' \<or> starts_with v ''prefix:'' \<or> starts_with v ''exact:''"

fun tag_collision :: "matcher \<Rightarrow> bool" where
  "tag_collision (Exact v) = (star \<notin> set v \<and> has_tag v)"
| "tag_collision (Glob g) = (star \<in> set g \<and> has_tag g)"
| "tag_collision _ = False"

section \<open>The greedy matcher is the reference semantics\<close>

lemmas glob_spec_Cons = glob_spec.simps(2)

declare glob_spec.simps(2) [simp del]

lemma glob_spec_char [simp]:
  "c \<noteq> star \<Longrightarrow> glob_spec (c # p) t \<longleftrightarrow> (\<exists>ts. t = c # ts \<and> glob_spec p ts)"
  by (auto simp: glob_spec_Cons split: list.splits)

lemma glob_spec_star: "glob_spec (star # p) t \<longleftrightarrow> (\<exists>g r. t = g @ r \<and> glob_spec p r)"
proof (induction t)
  case (Cons x t)
  show ?case
  proof
    assume "glob_spec (star # p) (x # t)"
    then consider "glob_spec p (x # t)" | "glob_spec (star # p) t"
      by (subst (asm) glob_spec_Cons) auto
    then show "\<exists>g r. x # t = g @ r \<and> glob_spec p r"
      using Cons.IH by (metis append_Cons append_Nil)
  next
    assume "\<exists>g r. x # t = g @ r \<and> glob_spec p r"
    then obtain g r where *: "x # t = g @ r" "glob_spec p r" by blast
    show "glob_spec (star # p) (x # t)"
    proof (cases g)
      case Nil
      with * show ?thesis by (subst glob_spec_Cons) simp
    next
      case (Cons y g')
      with * have "glob_spec (star # p) t" using Cons.IH by auto
      then show ?thesis by (subst glob_spec_Cons) simp
    qed
  qed
qed (subst glob_spec_Cons, simp)

lemma parts_spec_Cons_char:
  "parts_spec ((c # p) # ps) t \<longleftrightarrow> (\<exists>ts. t = c # ts \<and> parts_spec (p # ps) ts)"
  by (cases ps) auto

lemma parts_spec_Nil_head:
  "ps \<noteq> [] \<Longrightarrow> parts_spec ([] # ps) t \<longleftrightarrow> later_spec ps t"
  by (cases ps) (auto simp: later_spec_def)

lemma glob_spec_parts: "glob_spec p t \<longleftrightarrow> parts_spec (split_on star p) t"
proof (induction p arbitrary: t)
  case (Cons c p)
  show ?case
  proof (cases "c = star")
    case True
    then show ?thesis
      using Cons.IH by (simp add: glob_spec_star parts_spec_Nil_head later_spec_def)
  next
    case False
    obtain q qs where q: "split_on star p = q # qs"
      using split_on_not_Nil by (meson list.exhaust)
    with False Cons.IH show ?thesis
      by (auto simp: parts_spec_Cons_char split: list.splits)
  qed
qed simp

lemma later_spec_mono: "later_spec ps r \<Longrightarrow> later_spec ps (x @ r)"
  unfolding later_spec_def by (metis append.assoc)

lemma later_spec_single: "later_spec [p] t \<longleftrightarrow> suffix p t"
  by (auto simp: later_spec_def suffix_def)

lemma later_spec_Nil_part: "ps \<noteq> [] \<Longrightarrow> later_spec ([] # ps) t \<longleftrightarrow> later_spec ps t"
  by (auto simp: later_spec_def parts_spec_Nil_head) (metis append.assoc)

text \<open>Taking the leftmost occurrence of a middle part loses no match.\<close>

lemma later_spec_leftmost:
  assumes "ps \<noteq> []"
  shows "later_spec (m # ps) s \<longleftrightarrow>
    (case find_sub s m of None \<Rightarrow> False | Some i \<Rightarrow> later_spec ps (drop (i + length m) s))"
proof (cases "find_sub s m")
  case None
  then have "\<not> later_spec (m # ps) s"
    using assms by (cases ps) (auto simp: later_spec_def find_sub_None_iff)
  with None show ?thesis by simp
next
  case (Some i)
  have "later_spec ps (drop (i + length m) s)" if "later_spec (m # ps) s"
  proof -
    from that assms obtain g r where s: "s = g @ m @ r" and "later_spec ps r"
      by (cases ps) (auto simp: later_spec_def)
    moreover have "i \<le> length g"
      using Some find_sub_append_bound [of g m r] s by auto
    then have "drop (i + length m) s = drop (i + length m) (g @ m) @ r"
      unfolding s by simp
    ultimately show ?thesis by (simp only: later_spec_mono)
  qed
  moreover have "later_spec (m # ps) s" if "later_spec ps (drop (i + length m) s)"
    using find_sub_decomp [OF Some] that assms
    by (cases ps) (auto simp: later_spec_def, metis append.assoc)
  ultimately show ?thesis using Some by auto
qed

lemma glob_middles_bound:
  "glob_middles subj pos ms = Some pos' \<Longrightarrow> pos \<le> length subj \<Longrightarrow> pos' \<le> length subj"
proof (induction subj pos ms rule: glob_middles.induct)
  case (2 subj pos m ms)
  show ?case
  proof (cases "m = []")
    case True
    with 2 show ?thesis by simp
  next
    case False
    with 2(3) obtain i where i: "find_sub (drop pos subj) m = Some i"
      by (auto split: option.splits)
    with find_sub_Some [OF this] 2(4) have "pos + (i + length m) \<le> length subj" by auto
    with 2 False i show ?thesis by simp
  qed
qed simp

lemma glob_middles_correct:
  assumes "pos \<le> length subj"
  shows "(case glob_middles subj pos ms of None \<Rightarrow> False | Some pos' \<Rightarrow> suffix tl_part (drop pos' subj))
    \<longleftrightarrow> later_spec (ms @ [tl_part]) (drop pos subj)"
  using assms
proof (induction subj pos ms rule: glob_middles.induct)
  case (1 subj pos)
  show ?case by (simp add: later_spec_single)
next
  case (2 subj pos m ms)
  show ?case
  proof (cases "m = []")
    case True
    with 2 show ?thesis by (simp add: later_spec_Nil_part)
  next
    case False
    show ?thesis
    proof (cases "find_sub (drop pos subj) m")
      case None
      with False show ?thesis by (simp add: later_spec_leftmost)
    next
      case (Some i)
      with find_sub_Some [OF this] 2(3) have "pos + (i + length m) \<le> length subj" by auto
      with 2(2) [OF False Some] False Some show ?thesis
        by (simp add: later_spec_leftmost add.commute)
    qed
  qed
qed

lemma suffix_drop_iff:
  assumes "pos \<le> length subj"
  shows "suffix t (drop pos subj) \<longleftrightarrow> length subj - pos \<ge> length t \<and> suffix t subj"
proof
  assume *: "suffix t (drop pos subj)"
  then have "suffix t subj" using suffix_drop suffix_order.trans by blast
  with suffix_length_le [OF *] show "length subj - pos \<ge> length t \<and> suffix t subj" by simp
next
  assume *: "length subj - pos \<ge> length t \<and> suffix t subj"
  then show "suffix t (drop pos subj)"
    using suffix_length_suffix [of t subj "drop pos subj"] suffix_drop [of pos subj] by simp
qed

lemma glob_match_eq_spec: "glob_match pattern subj \<longleftrightarrow> glob_spec pattern subj"
proof (cases "length (split_on star pattern) = 1")
  case True
  then have "star \<notin> set pattern" by (metis split_on_singleton_iff)
  with True show ?thesis
    by (auto simp: glob_match_def glob_spec_parts split_on_no_sep)
next
  case False
  obtain h ps where parts: "split_on star pattern = h # ps"
    using split_on_not_Nil by (meson list.exhaust)
  with False have "ps \<noteq> []" by auto
  then obtain ms tl_part where ps: "ps = ms @ [tl_part]" by (metis rev_exhaust)
  show ?thesis
  proof (cases "starts_with subj h")
    case False
    then have "\<not> parts_spec (h # ps) subj"
      using \<open>ps \<noteq> []\<close> by (cases ps) (auto simp: str_simps)
    with False parts \<open>ps \<noteq> []\<close> show ?thesis by (simp add: glob_match_def glob_spec_parts)
  next
    case True
    then obtain r where subj: "subj = h @ r" by (auto simp: str_simps prefix_def)
    then have len: "length h \<le> length subj" by simp
    have "parts_spec (h # ps) subj \<longleftrightarrow> later_spec ps (drop (length h) subj)"
      using \<open>ps \<noteq> []\<close> subj by (cases ps) (auto simp: later_spec_def)
    also have "\<dots> \<longleftrightarrow> (case glob_middles subj (length h) ms of None \<Rightarrow> False
        | Some pos \<Rightarrow> suffix tl_part (drop pos subj))"
      using glob_middles_correct [where pos = "length h" and subj = subj and ms = ms] subj ps by simp
    also have "\<dots> \<longleftrightarrow> (case glob_middles subj (length h) ms of None \<Rightarrow> False
        | Some pos \<Rightarrow> if tl_part = [] then True
            else length subj - pos \<ge> length tl_part \<and> ends_with subj tl_part)"
      using glob_middles_bound [of subj "length h" ms] len
      by (auto split: option.split simp: suffix_drop_iff str_simps)
    finally show ?thesis
      using True parts ps False
      by (simp add: glob_match_def glob_spec_parts Let_def split: option.splits)
  qed
qed

text \<open>
  (C12) The greedy left-to-right glob matcher of the code decides exactly the declarative
  meaning of a glob (a star stands for any run of bytes, every other byte for itself), for
  every pattern and every text: taking the leftmost occurrence of each middle part never
  loses a match and the final length test never admits an overlapping tail.
\<close>

theorem glob_match_correct: "glob_match pattern subj \<longleftrightarrow> glob_spec pattern subj"
  by (rule glob_match_eq_spec)

section \<open>The rule-file syntax\<close>

lemma tag_cases:
  "strip_prefix v t = None \<longleftrightarrow> \<not> starts_with v t"
  by (simp add: strip_prefix_def)

lemma matcher_parse_untagged:
  "\<not> has_tag v \<Longrightarrow> matcher_parse v = Ok (if star \<in> set v then Glob v else Exact v)"
  by (auto simp: matcher_parse_def has_tag_def strip_prefix_def)

lemma matcher_parse_total: "\<exists>m. matcher_parse raw = Ok m \<and> m \<noteq> Any"
  by (auto simp: matcher_parse_def split: option.splits)

lemma matcher_parse_tagged [simp]:
  "matcher_parse (''glob:'' @ v) = Ok (Glob v)"
  "matcher_parse (''prefix:'' @ v) = Ok (Prefix v)"
  "matcher_parse (''exact:'' @ v) = Ok (Exact v)"
  by (simp_all add: matcher_parse_def strip_prefix_def)

lemma matcher_parse_shrinks:
  assumes "has_tag v"
  shows "matcher_parse v \<noteq> Ok (Exact v) \<and> matcher_parse v \<noteq> Ok (Glob v)"
proof -
  have *: "strip_prefix v t = Some v \<longleftrightarrow> t = []" for t :: string
    by (auto simp: str_simps)
  show ?thesis
    using assms * [of "''glob:''"] * [of "''exact:''"]
    by (auto simp: matcher_parse_def has_tag_def tag_cases split: option.splits)
qed

lemma matcher_source_reads_back:
  assumes "matcher_source m = Some s"
  shows "matcher_parse s = Ok m \<longleftrightarrow> \<not> tag_collision m"
proof (cases m)
  case (Exact v)
  with assms show ?thesis
    using matcher_parse_shrinks [of v] matcher_parse_untagged [of v] matcher_parse_tagged(3) [of v]
    by (auto split: if_splits)
next
  case (Glob g)
  with assms show ?thesis
    using matcher_parse_shrinks [of g] matcher_parse_untagged [of g] matcher_parse_tagged(1) [of g]
    by (auto split: if_splits)
next
  case (Prefix p)
  with assms show ?thesis using matcher_parse_tagged(2) [of p] by auto
qed (use assms in simp)

text \<open>
  Writing a matcher to the rule file and reading it back yields the same matcher
  exactly when its text does not collide with one of the syntax tags. The comment on
  \<^verbatim>\<open>source\<close> claims the round trip for every matcher but \<^verbatim>\<open>Any\<close>; the condition on the
  right-hand side is the part of that claim that the code does not keep.
\<close>

theorem matcher_source_parse:
  assumes "matcher_source m = Some s"
  shows "matcher_parse s = Ok m \<longleftrightarrow> \<not> tag_collision m"
  using assms by (rule matcher_source_reads_back)

theorem matcher_source_parse_witness:
  "matcher_parse ''exact:a*b'' = Ok (Exact ''a*b'') \<longleftrightarrow> \<not> tag_collision (Exact ''a*b'')"
  using matcher_source_parse [of "Exact ''a*b''" "''exact:a*b''"] by (simp add: star_def)

text \<open>
  A rule whose axis is the exact literal \<^verbatim>\<open>prefix:\<close> (reachable by reading the rule-file
  value \<^verbatim>\<open>exact:prefix:\<close>) matches one string only, and after one save and load it
  matches every string: the write-back widens access.
\<close>

theorem save_load_widens:
  "matcher_parse ''exact:prefix:'' = Ok (Exact ''prefix:'') \<and>
   (\<exists>s m'. matcher_source (Exact ''prefix:'') = Some s \<and> matcher_parse s = Ok m' \<and>
     (\<forall>c. matcher_matches m' c) \<and> \<not> matcher_matches (Exact ''prefix:'') ''root'')"
proof -
  have "matcher_parse ''prefix:'' = Ok (Prefix [])" by (simp add: matcher_parse_def strip_prefix_def)
  moreover have "matcher_matches (Prefix []) c" for c by simp
  moreover have "matcher_parse ''exact:prefix:'' = Ok (Exact ''prefix:'')"
    by (simp add: matcher_parse_def strip_prefix_def)
  moreover have "matcher_source (Exact ''prefix:'') = Some ''prefix:''" by (simp add: star_def)
  moreover have "\<not> matcher_matches (Exact ''prefix:'') ''root''" by simp
  ultimately show ?thesis by blast
qed

section \<open>The display form\<close>

lemma glob_spec_min_length: "glob_spec p t \<Longrightarrow> length (filter (\<lambda>c. c \<noteq> star) p) \<le> length t"
proof (induction p arbitrary: t)
  case (Cons c p)
  then show ?case
    by (cases "c = star") (fastforce simp: glob_spec_star)+
qed simp

lemma glob_spec_self: "glob_spec p p"
proof (induction p)
  case (Cons c p)
  then have "\<exists>g r. c # p = g @ r \<and> glob_spec p r" by (metis append_Cons append_Nil)
  with Cons show ?case by (cases "c = star") (auto simp: glob_spec_star)
qed simp

lemma glob_spec_stars_empty: "glob_spec p (filter (\<lambda>c. c \<noteq> star) p)"
proof (induction p)
  case (Cons c p)
  then show ?case
    by (cases "c = star") (auto simp: glob_spec_star intro: exI [of _ "[]"])
qed simp

lemma glob_spec_last:
  "glob_spec (p @ [c]) t \<Longrightarrow> c \<noteq> star \<Longrightarrow> t \<noteq> [] \<and> last t = c"
proof (induction p arbitrary: t)
  case (Cons d p)
  show ?case
  proof (cases "d = star")
    case True
    with Cons.prems obtain g r where "t = g @ r" "glob_spec (p @ [c]) r"
      using glob_spec_star by auto
    with Cons show ?thesis by auto
  next
    case False
    with Cons show ?thesis by (auto split: list.splits)
  qed
qed (auto split: list.splits)

lemma describe_parses:
  "matcher_parse (matcher_describe m) =
     Ok (if star \<in> set (matcher_describe m) then Glob (matcher_describe m)
         else Exact (matcher_describe m))"
  by (rule matcher_parse_untagged) (cases m; simp add: has_tag_def)

text \<open>
  The display form of a matcher is never a rule: reading it back gives a predicate that
  differs from the described one on some candidate, for every matcher.
\<close>

theorem describe_display_only:
  "\<exists>m' c. matcher_parse (matcher_describe m) = Ok m' \<and>
     matcher_matches m' c \<noteq> matcher_matches m c"
proof -
  obtain d m' where d: "matcher_describe m = d" and m': "m' = (if star \<in> set d then Glob d else Exact d)"
    by simp
  have m'_iff: "matcher_matches m' c \<longleftrightarrow> (if star \<in> set d then glob_spec d c else d = c)" for c
    by (simp add: m' glob_match_eq_spec)
  have nostar: "backtick \<noteq> star" by (simp add: backtick_def star_def)
  have "\<exists>c. matcher_matches m' c \<noteq> matcher_matches m c"
  proof (cases m)
    case Any
    with d have "\<not> matcher_matches m' []" unfolding m'_iff by (auto simp: star_def)
    with Any show ?thesis by auto
  next
    case (Exact v)
    with d have "length v < length d" by auto
    then have "\<not> matcher_matches m d" using Exact by auto
    moreover have "matcher_matches m' d" unfolding m'_iff by (simp add: glob_spec_self)
    ultimately show ?thesis by blast
  next
    case (Prefix p)
    with d have d': "d = (''starting with '' @ [backtick] @ p) @ [backtick]" by simp
    have "\<not> glob_spec d (p @ ''x'')"
      unfolding d' using glob_spec_last nostar by (fastforce simp: backtick_def)
    moreover have "last d \<noteq> CHR ''x''" unfolding d' by (simp add: backtick_def)
    then have "d \<noteq> p @ ''x''" by (metis last_snoc)
    ultimately have "\<not> matcher_matches m' (p @ ''x'')" unfolding m'_iff by simp
    moreover have "matcher_matches m (p @ ''x'')" using Prefix by simp
    ultimately show ?thesis by blast
  next
    case (Glob g)
    let ?c = "filter (\<lambda>c. c \<noteq> star) g"
    have *: "length ?c < length (filter (\<lambda>c. c \<noteq> star) d)" using Glob d nostar by auto
    have "\<not> glob_spec d ?c" using * glob_spec_min_length [of d ?c] by linarith
    moreover have "d \<noteq> ?c" using * length_filter_le [of "\<lambda>c. c \<noteq> star" d] by auto
    ultimately have "\<not> matcher_matches m' ?c" unfolding m'_iff by simp
    moreover have "matcher_matches m ?c"
      using Glob by (simp add: glob_match_eq_spec glob_spec_stars_empty)
    ultimately show ?thesis by blast
  qed
  moreover have "matcher_parse (matcher_describe m) = Ok m'"
    unfolding d m' using describe_parses [of m] d by simp
  ultimately show ?thesis by blast
qed

end
