(* ===== verification/Json.thy ===== *)
theory Json
  imports Prelude "HOL-Library.Countable" "HOL-Library.Char_ord" "HOL-Library.List_Lexorder"
begin

text \<open>
  JSON values as the sources handle them (\<^verbatim>\<open>serde_json::Value\<close>), the accessors they use,
  and the record of third-party primitives that the components take as a parameter:
  canonical serialisation, JSON reading, SHA-256, base64url and Ed25519. Their documented
  behaviour is stated as named predicates; \<open>sample_crypto\<close> is a concrete instance that
  satisfies all of them.
\<close>

section \<open>Values\<close>

text \<open>
  A number is an integer (\<^verbatim>\<open>u64\<close> or \<^verbatim>\<open>i64\<close> in serde) or the bits of a float. An object
  is an association list; \<open>obj_insert\<close> and \<open>obj_remove\<close> keep its keys distinct, and
  \<open>json_sort\<close> puts the members of every object in key order, which is the only order a
  \<^verbatim>\<open>serde_json\<close> map has.
\<close>

datatype json =
    JNull
  | JBool bool
  | JInt int
  | JFloat "64 word"
  | JStr string
  | JArr "json list"
  | JObj "(string \<times> json) list"

fun as_object :: "json \<Rightarrow> (string \<times> json) list option" where
  "as_object (JObj kvs) = Some kvs"
| "as_object _ = None"

fun as_str :: "json \<Rightarrow> string option" where
  "as_str (JStr s) = Some s"
| "as_str _ = None"

fun as_u64 :: "json \<Rightarrow> nat option" where
  "as_u64 (JInt i) = (if 0 \<le> i \<and> i < 2 ^ 64 then Some (nat i) else None)"
| "as_u64 _ = None"

fun as_bool :: "json \<Rightarrow> bool option" where
  "as_bool (JBool b) = Some b"
| "as_bool _ = None"

fun as_array :: "json \<Rightarrow> json list option" where
  "as_array (JArr vs) = Some vs"
| "as_array _ = None"

text \<open>\<^verbatim>\<open>value.get(key)\<close>: \<open>None\<close> on a value that is not an object.\<close>

fun json_get :: "json \<Rightarrow> string \<Rightarrow> json option" where
  "json_get (JObj kvs) k = map_of kvs k"
| "json_get _ k = None"

definition get_str :: "json \<Rightarrow> string \<Rightarrow> string option" where
  "get_str v k = Option.bind (json_get v k) as_str"

definition get_u64 :: "json \<Rightarrow> string \<Rightarrow> nat option" where
  "get_u64 v k = Option.bind (json_get v k) as_u64"

definition obj_remove :: "string \<Rightarrow> (string \<times> json) list \<Rightarrow> (string \<times> json) list" where
  "obj_remove k kvs = filter (\<lambda>kv. fst kv \<noteq> k) kvs"

fun obj_insert :: "string \<Rightarrow> json \<Rightarrow> (string \<times> json) list \<Rightarrow> (string \<times> json) list" where
  "obj_insert k v [] = [(k, v)]"
| "obj_insert k v (kv # kvs) = (if fst kv = k then (k, v) # kvs else kv # obj_insert k v kvs)"

section \<open>Third-party primitives\<close>

record crypto =
  jcs :: "json \<Rightarrow> (string, bytes) result"
  json_read :: "string \<Rightarrow> json option"
  sha256 :: "bytes \<Rightarrow> bytes"
  b64u_encode :: "bytes \<Rightarrow> string"
  b64u_decode :: "string \<Rightarrow> bytes option"
  ed_sign :: "bytes \<Rightarrow> bytes \<Rightarrow> bytes"
  ed_public :: "bytes \<Rightarrow> bytes"
  ed_point :: "bytes \<Rightarrow> bool"
  ed_verify :: "bytes \<Rightarrow> bytes \<Rightarrow> bytes \<Rightarrow> bool"

text \<open>
  What the sources rely on. On values without floats, whose integers are in the range that
  JSON readers must keep exact, canonical JSON succeeds, ignores the order of members, and
  gives one line that starts with a visible character and that the JSON reader turns back
  into the value.
\<close>

fun json_exact :: "json \<Rightarrow> bool" where
  "json_exact (JInt i) = (\<bar>i\<bar> < 2 ^ 53)"
| "json_exact (JFloat _) = False"
| "json_exact (JArr vs) = list_all json_exact vs"
| "json_exact (JObj kvs) = (distinct (map fst kvs) \<and> list_all (\<lambda>(k, v). json_exact v) kvs)"
| "json_exact _ = True"

fun json_sort :: "json \<Rightarrow> json" where
  "json_sort (JArr vs) = JArr (map json_sort vs)"
| "json_sort (JObj kvs) = JObj (sort_key fst (map (\<lambda>(k, v). (k, json_sort v)) kvs))"
| "json_sort v = v"

definition jcs_reads_back :: "crypto \<Rightarrow> bool" where
  "jcs_reads_back c \<longleftrightarrow> (\<forall>v. json_exact v \<longrightarrow> jcs c (json_sort v) = jcs c v \<and>
     (\<exists>s. jcs c v = Ok s \<and> json_read c s = Some (json_sort v) \<and>
        newline \<notin> set s \<and> carriage_return \<notin> set s \<and> s \<noteq> [] \<and> graphic (hd s)))"

text \<open>
  On every value, also one with floats: objects that are read have distinct keys, and the
  canonical text of an object determines its string members.
\<close>

definition jcs_members :: "crypto \<Rightarrow> bool" where
  "jcs_members c \<longleftrightarrow>
     (\<forall>s kvs. json_read c s = Some (JObj kvs) \<longrightarrow> distinct (map fst kvs)) \<and>
     (\<forall>a b s k x. distinct (map fst a) \<and> distinct (map fst b) \<and> jcs c (JObj a) = Ok s \<and>
        jcs c (JObj b) = Ok s \<and> map_of a k = Some (JStr x) \<longrightarrow> map_of b k = Some (JStr x))"

text \<open>A JSON reader rejects trailing characters after a complete document.\<close>

definition json_single :: "crypto \<Rightarrow> bool" where
  "json_single c \<longleftrightarrow> (\<forall>a b v w. json_read c a = Some v \<and> json_read c b = Some w \<and>
     as_object v \<noteq> None \<and> as_object w \<noteq> None \<longrightarrow> json_read c (a @ b) = None)"

definition sha256_length :: "crypto \<Rightarrow> bool" where
  "sha256_length c \<longleftrightarrow> (\<forall>x. length (sha256 c x) = 32)"

definition b64u_reads_back :: "crypto \<Rightarrow> bool" where
  "b64u_reads_back c \<longleftrightarrow> (\<forall>x. b64u_decode c (b64u_encode c x) = Some x)"

text \<open>Base64url text holds no white space, so trimming it changes nothing.\<close>

definition b64u_trimmed :: "crypto \<Rightarrow> bool" where
  "b64u_trimmed c \<longleftrightarrow> (\<forall>x. trim (b64u_encode c x) = b64u_encode c x)"

definition ed_correct :: "crypto \<Rightarrow> bool" where
  "ed_correct c \<longleftrightarrow> (\<forall>sk m. length (ed_sign c sk m) = 64 \<and>
     ed_verify c (ed_public c sk) m (ed_sign c sk m))"

section \<open>Facts about objects\<close>

lemma map_of_obj_remove [simp]:
  "map_of (obj_remove k kvs) k' = (if k' = k then None else map_of kvs k')"
  by (induction kvs) (auto simp: obj_remove_def)

lemma map_of_obj_insert [simp]:
  "map_of (obj_insert k v kvs) k' = (if k' = k then Some v else map_of kvs k')"
  by (induction kvs) auto

lemma keys_obj_insert [simp]: "fst ` set (obj_insert k v kvs) = insert k (fst ` set kvs)"
  by (induction kvs) auto

lemma distinct_obj_insert: "distinct (map fst kvs) \<Longrightarrow> distinct (map fst (obj_insert k v kvs))"
proof (induction kvs)
  case (Cons kv kvs)
  then show ?case
    using keys_obj_insert [of k v kvs] by (auto simp: image_iff)
qed simp

lemma obj_remove_insert [simp]: "obj_remove k (obj_insert k v kvs) = obj_remove k kvs"
  by (induction kvs) (auto simp: obj_remove_def)

lemma obj_remove_insert_other:
  "k' \<noteq> k \<Longrightarrow> obj_remove k (obj_insert k' v kvs) = obj_insert k' v (obj_remove k kvs)"
  by (induction kvs) (auto simp: obj_remove_def)

lemma obj_remove_absent: "k \<notin> fst ` set kvs \<Longrightarrow> obj_remove k kvs = kvs"
  by (induction kvs) (auto simp: obj_remove_def)

lemma obj_insert_absent: "k \<notin> fst ` set kvs \<Longrightarrow> obj_insert k v kvs = kvs @ [(k, v)]"
  by (induction kvs) auto

lemma distinct_obj_remove: "distinct (map fst kvs) \<Longrightarrow> distinct (map fst (obj_remove k kvs))"
  by (simp add: obj_remove_def distinct_map_filter)

lemma exact_obj_remove: "json_exact (JObj kvs) \<Longrightarrow> json_exact (JObj (obj_remove k kvs))"
  using distinct_obj_remove [of kvs k] by (auto simp: list_all_iff obj_remove_def)

lemma set_obj_insert: "set (obj_insert k v kvs) \<subseteq> insert (k, v) (set kvs)"
  by (induction kvs) auto

lemma exact_obj_insert:
  "json_exact v \<Longrightarrow> json_exact (JObj kvs) \<Longrightarrow> json_exact (JObj (obj_insert k v kvs))"
  using set_obj_insert [of k v kvs] by (auto simp: distinct_obj_insert list_all_iff)

section \<open>Order of members\<close>

lemma map_of_insort: "map_of (insort_key fst kv kvs) = (map_of kvs)(fst kv \<mapsto> snd kv)"
  by (induction kvs) (auto simp: fun_eq_iff)

lemma map_of_sort: "map_of (sort_key fst kvs) = map_of kvs"
  by (induction kvs) (auto simp: map_of_insort)

lemma json_get_sort: "json_get (json_sort v) k = map_option json_sort (json_get v k)"
  by (cases v) (auto simp: map_of_sort map_of_map)

lemma as_str_sort [simp]: "as_str (json_sort v) = as_str v"
  by (cases v) auto

lemma as_u64_sort [simp]: "as_u64 (json_sort v) = as_u64 v"
  by (cases v) auto

lemma get_sort [simp]:
  "get_str (json_sort v) k = get_str v k" "get_u64 (json_sort v) k = get_u64 v k"
  by (simp_all add: get_str_def get_u64_def json_get_sort bind_map_option comp_def)

lemma insort_map: "(\<And>x. fst (f x) = fst x) \<Longrightarrow> map f (insort_key fst x xs) = insort_key fst (f x) (map f xs)"
  by (induction xs) auto

lemma sort_map: "(\<And>x. fst (f x) = fst x) \<Longrightarrow> map f (sort_key fst xs) = sort_key fst (map f xs)"
  by (induction xs) (auto simp: insort_map)

lemma json_sort_idem [simp]: "json_sort (json_sort v) = json_sort v"
proof (induction v rule: json_sort.induct)
  case (2 kvs)
  let ?f = "\<lambda>(k, v). (k, json_sort v)"
  have idem: "map ?f (map ?f kvs) = map ?f kvs"
    using 2 by auto
  have "map ?f (sort_key fst (map ?f kvs)) = sort_key fst (map ?f (map ?f kvs))"
    by (rule sort_map) auto
  also note idem
  finally have "map ?f (sort_key fst (map ?f kvs)) = sort_key fst (map ?f kvs)" .
  then show ?case by (simp del: map_map add: sort_key_id_if_sorted)
qed auto

lemma sort_obj_remove:
  assumes "json_sort (JObj kvs) = JObj kvs'"
  shows "json_sort (JObj (obj_remove k kvs')) = json_sort (JObj (obj_remove k kvs))"
proof -
  let ?f = "\<lambda>(k, v). (k, json_sort v)"
  have rm: "obj_remove k (map ?f xs) = map ?f (obj_remove k xs)" for xs
    by (induction xs) (auto simp: obj_remove_def)
  have kvs': "kvs' = sort_key fst (map ?f kvs)" using assms by simp
  have "map ?f (obj_remove k kvs') = map ?f (sort_key fst (obj_remove k (map ?f kvs)))"
    by (simp add: kvs' obj_remove_def filter_sort)
  also have "\<dots> = sort_key fst (map ?f (map ?f (obj_remove k kvs)))"
    unfolding rm by (rule sort_map) auto
  also have "\<dots> = sort_key fst (map ?f (obj_remove k kvs))"
    by (simp add: comp_def case_prod_unfold)
  finally show ?thesis by (simp add: sort_key_id_if_sorted)
qed

lemma exact_sort: "json_exact v \<Longrightarrow> json_exact (json_sort v)"
proof (induction v rule: json_sort.induct)
  case (2 kvs)
  let ?f = "\<lambda>(k, v). (k, json_sort v)"
  have "map fst (map ?f kvs) = map fst kvs" by auto
  then have "distinct (map fst (map ?f kvs))" using 2(2) by (simp del: map_map)
  then have "distinct (map fst (sort_key fst (map ?f kvs)))"
    by (metis (no_types, lifting) distinct_map distinct_sort set_sort)
  with 2 show ?case by (auto simp: list_all_iff)
qed (auto simp: list_all_iff)

lemma jcs_reads_backD:
  assumes "jcs_reads_back c" "json_exact v"
  obtains s where "jcs c v = Ok s" "json_read c s = Some (json_sort v)" "newline \<notin> set s"
    "carriage_return \<notin> set s" "s \<noteq> []" "graphic (hd s)"
  using assms unfolding jcs_reads_back_def by blast

lemma jcs_eq_iff:
  assumes "jcs_reads_back c" "json_exact v" "json_exact w"
  shows "jcs c v = jcs c w \<longleftrightarrow> json_sort v = json_sort w"
proof
  assume "jcs c v = jcs c w"
  with assms show "json_sort v = json_sort w"
    unfolding jcs_reads_back_def by (metis option.inject sum.inject(2))
next
  assume "json_sort v = json_sort w"
  with assms show "jcs c v = jcs c w" unfolding jcs_reads_back_def by metis
qed

section \<open>A concrete instance\<close>

text \<open>
  Values are numbered; a value is written as that many letters and a stop, and
  so (without the stop) is the text of a byte string, and hash and signature are
  padded prefixes. It meets every predicate above, so theorems that assume them are not vacuous.
\<close>

instance json :: countable
  by countable_datatype

definition sample_value :: "json \<Rightarrow> json option" where
  "sample_value v = (case as_object v of
     Some kvs \<Rightarrow> if distinct (map fst kvs) then Some v else None | None \<Rightarrow> Some v)"

lemma sample_value_exact: "json_exact v \<Longrightarrow> sample_value v = Some v"
  by (cases v) (auto simp: sample_value_def)

definition sample_crypto :: crypto where
  "sample_crypto = \<lparr>
     jcs = (\<lambda>v. Ok (replicate (to_nat (json_sort v)) CHR ''x'' @ ''y'')),
     json_read = (\<lambda>s. if s \<noteq> [] \<and> last s = CHR ''y'' \<and> list_all (\<lambda>ch. ch = CHR ''x'') (butlast s)
       then sample_value (from_nat (length s - 1)) else None),
     sha256 = (\<lambda>x. take 32 (x @ replicate 32 CHR ''0'')),
     b64u_encode = (\<lambda>x. replicate (to_nat x) CHR ''x''),
     b64u_decode = (\<lambda>s. Some (from_nat (length s))),
     ed_sign = (\<lambda>sk m. take 64 (sk @ m @ replicate 64 CHR ''0'')),
     ed_public = (\<lambda>sk. sk),
     ed_point = (\<lambda>pk. True),
     ed_verify = (\<lambda>pk m s. s = take 64 (pk @ m @ replicate 64 CHR ''0''))\<rparr>"

lemma unicode_ws_ends:
  "w \<in> set unicode_ws \<Longrightarrow> w \<noteq> [] \<and> hd w \<notin> {CHR ''x'', CHR ''y''} \<and> last w \<notin> {CHR ''x'', CHR ''y''}"
  by (auto simp: unicode_ws_def)

lemma trim_letters:
  assumes "set s \<subseteq> {CHR ''x'', CHR ''y''}"
  shows "trim s = s"
proof -
  have "\<not> starts_with s w" if "w \<in> set unicode_ws" for w
    using unicode_ws_ends [OF that] assms by (cases w; cases s) auto
  then have "trim_left_by unicode_ws (length s) s = s" by (rule trim_left_by_keep)
  moreover have "\<not> starts_with (rev s) (rev w)" if "w \<in> set unicode_ws" for w
    using unicode_ws_ends [OF that] assms by (cases w rule: rev_cases; cases s rule: rev_cases) auto
  then have "trim_left_by (map rev unicode_ws) (length s) (rev s) = rev s"
    by (intro trim_left_by_keep) auto
  ultimately show ?thesis by (simp add: trim_def trim_start_def trim_end_def)
qed

lemma trim_replicate_x: "trim (replicate n CHR ''x'') = replicate n CHR ''x''"
  by (rule trim_letters) auto

lemma sample_jcs_reads_back: "jcs_reads_back sample_crypto"
  by (auto simp: jcs_reads_back_def sample_crypto_def newline_def graphic_def hd_append
    carriage_return_def list_all_iff sample_value_exact exact_sort)

lemma sample_crypto_ok:
  "jcs_reads_back sample_crypto" "sha256_length sample_crypto"
  "b64u_reads_back sample_crypto" "ed_correct sample_crypto" "b64u_trimmed sample_crypto"
  by (rule sample_jcs_reads_back)
    (auto simp: sha256_length_def b64u_reads_back_def ed_correct_def b64u_trimmed_def
      sample_crypto_def trim_replicate_x)

lemma sample_jcs_members: "jcs_members sample_crypto"
proof -
  have "map_of b k = Some (JStr x)"
    if same: "json_sort (JObj a) = json_sort (JObj b)" and k: "map_of a k = Some (JStr x)" for a b k x
  proof -
    have "get_str (JObj a) k = get_str (JObj b) k" using same by (metis get_sort(1))
    with k have "Option.bind (map_of b k) as_str = Some x" by (simp add: get_str_def)
    then show ?thesis by (auto simp: bind_eq_Some_conv elim: as_str.elims)
  qed
  moreover have "json_sort v = json_sort w"
    if "jcs sample_crypto v = Ok s" "jcs sample_crypto w = Ok s" for v w s
  proof -
    have "to_nat (json_sort v) = to_nat (json_sort w)"
      using that by (auto simp: sample_crypto_def dest: arg_cong [of _ _ length])
    then show ?thesis by simp
  qed
  moreover have "distinct (map fst kvs)" if "json_read sample_crypto s = Some (JObj kvs)" for s kvs
    using that by (auto simp: sample_crypto_def sample_value_def split: if_splits option.splits)
  ultimately show ?thesis unfolding jcs_members_def by blast
qed

lemma sample_json_single: "json_single sample_crypto"
  unfolding json_single_def
proof (intro allI impI)
  fix a b v w
  assume "json_read sample_crypto a = Some v \<and> json_read sample_crypto b = Some w \<and>
    as_object v \<noteq> None \<and> as_object w \<noteq> None"
  then have ab: "a \<noteq> []" "last a = CHR ''y''" "b \<noteq> []"
    by (auto simp: sample_crypto_def split: if_splits)
  then have "CHR ''y'' \<in> set (butlast (a @ b))"
    using last_in_set [OF ab(1)] by (simp add: butlast_append)
  then have "\<not> list_all (\<lambda>ch. ch = CHR ''x'') (butlast (a @ b))" by (auto simp: list_all_iff)
  then show "json_read sample_crypto (a @ b) = None"
    unfolding sample_crypto_def by (simp only: crypto.select_convs if_False simp_thms)
qed

definition sample_seed :: bytes where
  "sample_seed = replicate 32 CHR ''k''"

end
