(* ===== verification/Protocol.thy ===== *)
theory Protocol
  imports Json
begin

text \<open>
  The wire contract of \<^verbatim>\<open>crates/protocol\<close>: error codes and stages (\<^verbatim>\<open>lib.rs\<close>), the signed
  envelope and the canonical form its signature covers (\<^verbatim>\<open>envelope.rs\<close>), and the
  operation bodies with the PostgreSQL target parser (\<^verbatim>\<open>ops.rs\<close>).
\<close>

section \<open>Error codes\<close>

datatype error_code =
    UnknownAgent
  | BadSignature
  | Replay
  | Denied
  | ConfirmTimeout
  | CredUnresolved
  | Mechanism
  | SessionOwner
  | SessionExpired
  | Version

datatype stage =
    StIdentity
  | StPolicy
  | StConfirmation
  | StVault
  | StInjection
  | StSession
  | StEnvelope

fun error_code_str :: "error_code \<Rightarrow> string" where
  "error_code_str UnknownAgent = ''E_UNKNOWN_AGENT''"
| "error_code_str BadSignature = ''E_BAD_SIGNATURE''"
| "error_code_str Replay = ''E_REPLAY''"
| "error_code_str Denied = ''E_DENIED''"
| "error_code_str ConfirmTimeout = ''E_CONFIRM_TIMEOUT''"
| "error_code_str CredUnresolved = ''E_CRED_UNRESOLVED''"
| "error_code_str Mechanism = ''E_MECHANISM''"
| "error_code_str SessionOwner = ''E_SESSION_OWNER''"
| "error_code_str SessionExpired = ''E_SESSION_EXPIRED''"
| "error_code_str Version = ''E_VERSION''"

fun error_code_stage :: "error_code \<Rightarrow> stage" where
  "error_code_stage UnknownAgent = StIdentity"
| "error_code_stage BadSignature = StIdentity"
| "error_code_stage Replay = StIdentity"
| "error_code_stage Denied = StPolicy"
| "error_code_stage ConfirmTimeout = StConfirmation"
| "error_code_stage CredUnresolved = StVault"
| "error_code_stage Mechanism = StInjection"
| "error_code_stage SessionOwner = StSession"
| "error_code_stage SessionExpired = StSession"
| "error_code_stage Version = StEnvelope"

fun stage_str :: "stage \<Rightarrow> string" where
  "stage_str StIdentity = ''Identity''"
| "stage_str StPolicy = ''Policy''"
| "stage_str StConfirmation = ''Confirmation''"
| "stage_str StVault = ''Vault''"
| "stage_str StInjection = ''Injection''"
| "stage_str StSession = ''Session''"
| "stage_str StEnvelope = ''Envelope''"

datatype unknown_error_code = UnknownErrorCode string

definition error_code_from_str :: "string \<Rightarrow> (unknown_error_code, error_code) result" where
  "error_code_from_str s =
     (if s = ''E_UNKNOWN_AGENT'' then Ok UnknownAgent
      else if s = ''E_BAD_SIGNATURE'' then Ok BadSignature
      else if s = ''E_REPLAY'' then Ok Replay
      else if s = ''E_DENIED'' then Ok Denied
      else if s = ''E_CONFIRM_TIMEOUT'' then Ok ConfirmTimeout
      else if s = ''E_CRED_UNRESOLVED'' then Ok CredUnresolved
      else if s = ''E_MECHANISM'' then Ok Mechanism
      else if s = ''E_SESSION_OWNER'' then Ok SessionOwner
      else if s = ''E_SESSION_EXPIRED'' then Ok SessionExpired
      else if s = ''E_VERSION'' then Ok Version
      else Err (UnknownErrorCode s))"

section \<open>The envelope\<close>

datatype envelope_kind = Intent | SessionCommand | SessionClose

fun envelope_kind_str :: "envelope_kind \<Rightarrow> string" where
  "envelope_kind_str Intent = ''intent''"
| "envelope_kind_str SessionCommand = ''session.command''"
| "envelope_kind_str SessionClose = ''session.close''"

definition envelope_kind_deserialize :: "string \<Rightarrow> envelope_kind option" where
  "envelope_kind_deserialize s =
     (if s = ''intent'' then Some Intent
      else if s = ''session.command'' then Some SessionCommand
      else if s = ''session.close'' then Some SessionClose
      else None)"

record target =
  t_uri :: string
  t_label :: string

record constraints =
  c_max_response_bytes :: "u64 option"
  c_session_ttl_s :: "u64 option"

record envelope =
  e_chaperone :: string
  e_msg_id :: string
  e_kind :: envelope_kind
  e_agent_id :: string
  e_issued_at :: string
  e_nonce :: string
  e_target :: target
  e_mechanism :: string
  e_cred_ref :: string
  e_operation :: json
  e_constraints :: "constraints option"
  e_sig :: string

datatype canonical_error = NotAnObject | Serialize string

fun remove_fields :: "string list \<Rightarrow> (string \<times> json) list \<Rightarrow> (string \<times> json) list" where
  "remove_fields [] kvs = kvs"
| "remove_fields (name # names) kvs = remove_fields names (obj_remove name kvs)"

definition canonical_form_excluding ::
    "crypto \<Rightarrow> json \<Rightarrow> string list \<Rightarrow> (canonical_error, bytes) result" where
  "canonical_form_excluding c object exclude =
     (case as_object object of
        None \<Rightarrow> Err NotAnObject
      | Some kvs \<Rightarrow>
          (case jcs c (JObj (remove_fields exclude kvs)) of
             Inl e \<Rightarrow> Err (Serialize e)
           | Inr buf \<Rightarrow> Ok buf))"

definition canonical_form :: "crypto \<Rightarrow> json \<Rightarrow> (canonical_error, bytes) result" where
  "canonical_form c envelope = canonical_form_excluding c envelope [''sig'']"

definition decode_signature :: "crypto \<Rightarrow> string \<Rightarrow> bytes option" where
  "decode_signature c encoded = b64u_decode c encoded"

definition encode_signature :: "crypto \<Rightarrow> bytes \<Rightarrow> string" where
  "encode_signature c raw = b64u_encode c raw"

section \<open>Operation bodies\<close>

record db_operation =
  db_engine :: string
  db_database :: "string option"
  db_statement :: "string option"
  db_params :: "string list option"
  db_username :: "string option"

text \<open>
  \<^verbatim>\<open>str::chars\<close>: a new character starts at every byte that is not a UTF-8
  continuation byte.
\<close>

definition is_continuation :: "char \<Rightarrow> bool" where
  "is_continuation ch \<longleftrightarrow> 128 \<le> (of_char ch :: nat) \<and> (of_char ch :: nat) < 192"

fun utf8_chars :: "string \<Rightarrow> string list" where
  "utf8_chars [] = []"
| "utf8_chars (ch # s) =
     (case utf8_chars s of
        [] \<Rightarrow> [[ch]]
      | g # gs \<Rightarrow> if is_continuation (hd g) then (ch # g) # gs else [ch] # g # gs)"

definition first_line :: "string \<Rightarrow> string" where
  "first_line sql =
     (let line = (case str_lines sql of [] \<Rightarrow> [] | l # _ \<Rightarrow> l);
          out = concat (take 60 (utf8_chars line)) in
      if length (utf8_chars line) > 60 then out @ [CHR 0xE2, CHR 0x80, CHR 0xA6] else out)"

definition db_summary :: "db_operation \<Rightarrow> string" where
  "db_summary op =
     (case (db_statement op, db_database op) of
        (Some sql, Some db) \<Rightarrow> ''query '' @ db @ '': '' @ first_line sql
      | (Some sql, None) \<Rightarrow> ''query: '' @ first_line sql
      | (None, Some db) \<Rightarrow> ''open session on '' @ db
      | (None, None) \<Rightarrow> ''open database session'')"

record pg_endpoint =
  pg_user :: string
  pg_host :: string
  pg_port :: nat
  pg_database :: string

definition is_ascii_digit :: "char \<Rightarrow> bool" where
  "is_ascii_digit c \<longleftrightarrow> digit_val c \<noteq> None"

definition parse_pg_uri :: "string \<Rightarrow> (string, pg_endpoint) result" where
  "parse_pg_uri uri =
     (case strip_prefix uri ''postgres://'' of
        None \<Rightarrow> Err ''target.uri must start with postgres://''
      | Some rest \<Rightarrow>
          (let (authority, path_db) =
                 (case split_once rest ''/'' of Some (a, p) \<Rightarrow> (a, p) | None \<Rightarrow> (rest, []));
               (userinfo, hostport) =
                 (case split_once authority ''@'' of
                    Some (u, h) \<Rightarrow> (Some u, h) | None \<Rightarrow> (None, authority));
               user =
                 (case userinfo of None \<Rightarrow> []
                  | Some u \<Rightarrow> (case split_once u '':'' of Some (name, _) \<Rightarrow> name | None \<Rightarrow> u));
               (host, port_str) =
                 (case rsplit_once_char CHR '':'' hostport of
                    Some (h, p) \<Rightarrow>
                      if p \<noteq> [] \<and> list_all is_ascii_digit p then (h, Some p) else (hostport, None)
                  | None \<Rightarrow> (hostport, None)) in
           if host = [] then Err ''target.uri has empty host''
           else (case (case port_str of None \<Rightarrow> Ok 5432
                       | Some p \<Rightarrow> ok_or ''port out of range'' (parse_uint 16 p)) of
                   Inl e \<Rightarrow> Err e
                 | Inr port \<Rightarrow>
                     Ok \<lparr>pg_user = user, pg_host = host, pg_port = port,
                         pg_database = takeWhile (\<lambda>c. c \<noteq> CHR ''?'' \<and> c \<noteq> CHR ''#'') path_db\<rparr>)))"

record http_operation =
  h_method :: string
  h_headers :: "(string \<times> string) list"
  h_body_b64 :: "string option"
  h_username :: "string option"

definition has_agent_authorization :: "http_operation \<Rightarrow> bool" where
  "has_agent_authorization op \<longleftrightarrow>
     list_ex (\<lambda>k. eq_ignore_ascii_case k ''authorization'') (map fst (h_headers op))"

definition http_summary :: "http_operation \<Rightarrow> string" where
  "http_summary op = (case h_body_b64 op of
     Some _ \<Rightarrow> h_method op @ '' with body'' | None \<Rightarrow> h_method op)"

section \<open>Wire strings\<close>

lemma error_code_from_str_Ok: "error_code_from_str s = Ok code \<longleftrightarrow> s = error_code_str code"
  by (cases code) (auto simp: error_code_from_str_def)

lemma error_code_from_str_str [simp]: "error_code_from_str (error_code_str code) = Ok code"
  by (simp add: error_code_from_str_Ok)

text \<open>
  The error taxonomy is a bijection between codes and wire strings: reading a string
  succeeds with a code exactly when it is the string that code prints, and every other
  string is rejected unchanged.
\<close>

theorem error_code_wire_bijection:
  "(error_code_from_str s = Ok code \<longleftrightarrow> s = error_code_str code) \<and>
   (error_code_from_str s = Err (UnknownErrorCode s) \<longleftrightarrow> s \<notin> range error_code_str)"
proof (cases "error_code_from_str s")
  case (Inl e)
  then have "s \<notin> range error_code_str" by auto
  moreover have "e = UnknownErrorCode s"
    using Inl unfolding error_code_from_str_def by (simp only: sum.inject sum.distinct split: if_splits)
  ultimately show ?thesis using Inl by auto
next
  case (Inr c)
  then have "s = error_code_str c" by (simp add: error_code_from_str_Ok)
  then have "s \<in> range error_code_str" by simp
  with Inr error_code_from_str_Ok [of s code] show ?thesis by simp
qed

lemma envelope_kind_wire: "envelope_kind_deserialize s = Some k \<longleftrightarrow> s = envelope_kind_str k"
  by (cases k) (auto simp: envelope_kind_deserialize_def)

section \<open>The canonical form\<close>

lemma canonical_form_insert_sig:
  "canonical_form c (JObj (obj_insert ''sig'' v kvs)) = canonical_form c (JObj kvs)"
  by (simp add: canonical_form_def canonical_form_excluding_def)

text \<open>
  A signature covers every field of the raw object but \<^verbatim>\<open>sig\<close>, unknown ones included,
  and nothing else: two objects have the same canonical bytes exactly when their other
  members are the same, in whatever order they were written.
\<close>

theorem canonical_form_covers_all_but_sig:
  assumes "jcs_reads_back c" and "json_exact (JObj kvs)" and "json_exact (JObj kvs')"
  shows "canonical_form c (JObj kvs) = canonical_form c (JObj kvs') \<longleftrightarrow>
    json_sort (JObj (obj_remove ''sig'' kvs)) = json_sort (JObj (obj_remove ''sig'' kvs'))"
proof -
  note exact = exact_obj_remove [OF assms(2), of "''sig''"] exact_obj_remove [OF assms(3), of "''sig''"]
  obtain s s' where "jcs c (JObj (obj_remove ''sig'' kvs)) = Ok s" "jcs c (JObj (obj_remove ''sig'' kvs')) = Ok s'"
    using jcs_reads_backD [OF assms(1)] exact by metis
  then show ?thesis
    using jcs_eq_iff [OF assms(1) exact]
    by (simp add: canonical_form_def canonical_form_excluding_def)
qed

theorem canonical_form_covers_all_but_sig_witness:
  "canonical_form sample_crypto (JObj [(''nonce'', JStr ''n1''), (''sig'', JStr ''a'')]) =
     canonical_form sample_crypto (JObj [(''sig'', JStr ''b''), (''nonce'', JStr ''n1'')]) \<and>
   canonical_form sample_crypto (JObj [(''nonce'', JStr ''n1''), (''sig'', JStr ''a'')]) \<noteq>
     canonical_form sample_crypto (JObj [(''nonce'', JStr ''n2''), (''sig'', JStr ''a'')])"
  by (simp add: canonical_form_covers_all_but_sig [OF sample_crypto_ok(1)] obj_remove_def)

section \<open>PostgreSQL targets\<close>

definition print_pg_uri :: "pg_endpoint \<Rightarrow> string" where
  "print_pg_uri ep = ''postgres://'' @ (pg_user ep @ CHR ''@'' #
     (pg_host ep @ CHR '':'' # dec_of_nat (pg_port ep))) @ CHR ''/'' # pg_database ep"

definition pg_endpoint_ok :: "pg_endpoint \<Rightarrow> bool" where
  "pg_endpoint_ok ep \<longleftrightarrow>
     CHR ''/'' \<notin> set (pg_user ep) \<and> CHR ''@'' \<notin> set (pg_user ep) \<and> CHR '':'' \<notin> set (pg_user ep) \<and>
     pg_host ep \<noteq> [] \<and> CHR ''/'' \<notin> set (pg_host ep) \<and> pg_port ep < 2 ^ 16 \<and>
     CHR ''?'' \<notin> set (pg_database ep) \<and> CHR ''#'' \<notin> set (pg_database ep)"

lemma dec_of_nat_digits: "list_all is_ascii_digit (dec_of_nat n)"
  by (auto simp: list_all_iff is_ascii_digit_def digit_val_def Let_def dest: dec_of_nat_chars)

lemma dec_of_nat_no_sep: "CHR ''/'' \<notin> set (dec_of_nat n)" "CHR '':'' \<notin> set (dec_of_nat n)"
  by (auto dest: dec_of_nat_chars)

text \<open>
  The hand-written PostgreSQL target parser reads back every endpoint it documents: a
  user without separators, any host (IPv6 colons included), a 16-bit port and a database name
  without query or fragment.
\<close>

theorem parse_pg_uri_print:
  assumes "pg_endpoint_ok ep"
  shows "parse_pg_uri (print_pg_uri ep) = Ok ep"
proof -
  let ?hp = "pg_host ep @ CHR '':'' # dec_of_nat (pg_port ep)"
  let ?auth = "pg_user ep @ CHR ''@'' # ?hp"
  have 1: "strip_prefix (print_pg_uri ep) ''postgres://'' = Some (?auth @ CHR ''/'' # pg_database ep)"
    unfolding print_pg_uri_def by (rule strip_prefix_append)
  have 2: "split_once (?auth @ CHR ''/'' # pg_database ep) ''/'' = Some (?auth, pg_database ep)"
    using assms by (intro split_once_char) (auto simp: pg_endpoint_ok_def dec_of_nat_no_sep)
  have 3: "split_once ?auth ''@'' = Some (pg_user ep, ?hp)"
    using assms by (intro split_once_char) (auto simp: pg_endpoint_ok_def)
  have 4: "split_once (pg_user ep) '':'' = None"
    using assms by (intro split_once_char_None) (auto simp: pg_endpoint_ok_def)
  have 5: "rsplit_once_char CHR '':'' ?hp = Some (pg_host ep, dec_of_nat (pg_port ep))"
    by (intro rsplit_once_char_append dec_of_nat_no_sep)
  have 6: "takeWhile (\<lambda>c. c \<noteq> CHR ''?'' \<and> c \<noteq> CHR ''#'') (pg_database ep) = pg_database ep"
    using assms by (auto simp: pg_endpoint_ok_def takeWhile_eq_all_conv)
  have 7: "pg_host ep \<noteq> []" "parse_uint 16 (dec_of_nat (pg_port ep)) = Some (pg_port ep)"
    using assms by (auto simp: pg_endpoint_ok_def)
  show ?thesis
    unfolding parse_pg_uri_def 1 option.case Let_def 2 prod.case 3 4 5 6
    by (simp add: 7 dec_of_nat_digits)
qed

theorem parse_pg_uri_print_witness:
  "parse_pg_uri ''postgres://deploy@db.internal:5433/analytics'' =
     Ok \<lparr>pg_user = ''deploy'', pg_host = ''db.internal'', pg_port = 5433, pg_database = ''analytics''\<rparr>"
proof -
  let ?ep = "\<lparr>pg_user = ''deploy'', pg_host = ''db.internal'', pg_port = 5433,
    pg_database = ''analytics''\<rparr>"
  have "pg_endpoint_ok ?ep" by (simp add: pg_endpoint_ok_def)
  moreover have "print_pg_uri ?ep = ''postgres://deploy@db.internal:5433/analytics''"
    by (simp add: print_pg_uri_def dec_of_nat_def digits_of.simps)
  ultimately show ?thesis using parse_pg_uri_print [of ?ep] by simp
qed

text \<open>
  The comment on the parser says that everything outside the one documented form is an
  error; a host with a non-numeric port is accepted, with the whole text as host name and
  the default port.
\<close>

theorem parse_pg_uri_guesses:
  "parse_pg_uri ''postgres://db:admin/x'' =
     Ok \<lparr>pg_user = [], pg_host = ''db:admin'', pg_port = 5432, pg_database = ''x''\<rparr>"
  by (simp add: parse_pg_uri_def strip_prefix_def split_once_def is_ascii_digit_def digit_val_def)

end
