(* ===== verification/Policy.thy ===== *)
theory Policy
  imports Matcher Protocol
begin

text \<open>
  The policy engine of \<^verbatim>\<open>crates/policy/src/lib.rs\<close>: rules, first-match evaluation with the
  structural default-deny floor, limits that only narrow, reading a rule file
  (\<open>from_toml\<close>) and writing it back (\<open>to_toml\<close>).

  The TOML reader and its string quoting are third-party code: \<open>from_toml\<close> takes the reader
  as an argument (it yields the deserialised \<^verbatim>\<open>PolicyFile\<close>, its \<^verbatim>\<open>rule\<close> list, or a message)
  and \<open>to_toml\<close> takes the quoting.
\<close>

section \<open>Data\<close>

datatype effect = Allow | NeedsConfirmation | Deny

definition effect_parse :: "string \<Rightarrow> effect option" where
  "effect_parse raw =
     (if raw = ''allow'' then Some Allow
      else if raw = ''deny'' then Some Deny
      else if raw = ''needs_confirmation'' then Some NeedsConfirmation
      else None)"

fun effect_str :: "effect \<Rightarrow> string" where
  "effect_str Allow = ''allow''"
| "effect_str Deny = ''deny''"
| "effect_str NeedsConfirmation = ''needs_confirmation''"

record limits =
  max_response_bytes :: "u64 option"
  session_ttl_s :: "u64 option"

definition no_limits :: limits where
  "no_limits = \<lparr>max_response_bytes = None, session_ttl_s = None\<rparr>"

fun min_opt :: "u64 option \<Rightarrow> u64 option \<Rightarrow> u64 option" where
  "min_opt (Some x) (Some y) = Some (min x y)"
| "min_opt (Some x) None = Some x"
| "min_opt None (Some x) = Some x"
| "min_opt None None = None"

definition min_with :: "limits \<Rightarrow> limits \<Rightarrow> limits" where
  "min_with a b = \<lparr>
     max_response_bytes = min_opt (max_response_bytes a) (max_response_bytes b),
     session_ttl_s = min_opt (session_ttl_s a) (session_ttl_s b)\<rparr>"

record pair_row =
  p_cred_ref :: matcher
  p_target_uri :: matcher

record rule =
  r_name :: "string option"
  r_notify_on_use :: bool
  r_effect :: effect
  r_agent_id :: matcher
  r_cred_ref :: matcher
  r_target_uri :: matcher
  r_mechanism :: matcher
  r_pairs :: "pair_row list"
  r_limits :: limits

record request =
  q_agent_id :: string
  q_cred_ref :: string
  q_target_uri :: string
  q_mechanism :: string
  q_declared :: "constraints option"

datatype decision_source =
    DefaultDeny
  | FromRule nat "string option" "nat option"

fun source_label :: "decision_source \<Rightarrow> string" where
  "source_label DefaultDeny = ''default_deny''"
| "source_label (FromRule index name pair) =
     ''rule['' @ dec_of_nat index @ '']'' @
     (case name of None \<Rightarrow> [] | Some n \<Rightarrow> '' ('' @ n @ '')'') @
     (case pair of None \<Rightarrow> [] | Some p \<Rightarrow> '' pair['' @ dec_of_nat p @ '']'')"

record decision =
  d_effect :: effect
  d_notify_on_use :: bool
  d_source :: decision_source
  d_limits :: limits

text \<open>
  \<^verbatim>\<open>PolicyError\<close>. A schema error carries a rendered message in the source; here the data
  that the message renders.
\<close>

datatype schema_problem =
    TomlMessage string
  | UnknownEffect nat string
  | BadAxis nat string matcher_error
  | BadPair nat nat string matcher_error

datatype policy_error =
    ParseError string
  | SchemaError schema_problem

record policy =
  rules :: "rule list"
  source_hash_hex :: string

section \<open>Evaluation\<close>

fun position_from :: "nat \<Rightarrow> ('a \<Rightarrow> bool) \<Rightarrow> 'a list \<Rightarrow> nat option" where
  "position_from i P [] = None"
| "position_from i P (x # xs) = (if P x then Some i else position_from (Suc i) P xs)"

definition declared_limits :: "request \<Rightarrow> limits" where
  "declared_limits q = \<lparr>
     max_response_bytes = Option.bind (q_declared q) c_max_response_bytes,
     session_ttl_s = Option.bind (q_declared q) c_session_ttl_s\<rparr>"

definition axes_match :: "rule \<Rightarrow> request \<Rightarrow> bool" where
  "axes_match r q \<longleftrightarrow>
     matcher_matches (r_agent_id r) (q_agent_id q) \<and>
     matcher_matches (r_cred_ref r) (q_cred_ref q) \<and>
     matcher_matches (r_target_uri r) (q_target_uri q) \<and>
     matcher_matches (r_mechanism r) (q_mechanism q)"

definition row_match :: "pair_row \<Rightarrow> request \<Rightarrow> bool" where
  "row_match p q \<longleftrightarrow>
     matcher_matches (p_cred_ref p) (q_cred_ref q) \<and>
     matcher_matches (p_target_uri p) (q_target_uri q)"

definition rule_decision :: "nat \<Rightarrow> rule \<Rightarrow> nat option \<Rightarrow> request \<Rightarrow> decision" where
  "rule_decision index r pair q = \<lparr>
     d_effect = r_effect r,
     d_notify_on_use = r_notify_on_use r,
     d_source = FromRule index (r_name r) pair,
     d_limits = min_with (r_limits r) (declared_limits q)\<rparr>"

definition floor_decision :: "request \<Rightarrow> decision" where
  "floor_decision q = \<lparr>
     d_effect = Deny, d_notify_on_use = False, d_source = DefaultDeny,
     d_limits = declared_limits q\<rparr>"

text \<open>
  The loop of \<^verbatim>\<open>Policy::evaluate\<close> from rule number \<open>index\<close> on; a rule whose axes match but
  whose rows do not is skipped (\<^verbatim>\<open>continue\<close>).
\<close>

fun evaluate_from :: "nat \<Rightarrow> rule list \<Rightarrow> request \<Rightarrow> decision" where
  "evaluate_from index [] q = floor_decision q"
| "evaluate_from index (r # rs) q =
     (if axes_match r q then
        (if r_pairs r = [] then rule_decision index r None q
         else (case position_from 0 (\<lambda>p. row_match p q) (r_pairs r) of
                 Some pi \<Rightarrow> rule_decision index r (Some pi) q
               | None \<Rightarrow> evaluate_from (Suc index) rs q))
      else evaluate_from (Suc index) rs q)"

definition evaluate :: "policy \<Rightarrow> request \<Rightarrow> decision" where
  "evaluate p q = evaluate_from 0 (rules p) q"

definition policy_empty :: policy where
  "policy_empty = \<lparr>rules = [], source_hash_hex = []\<rparr>"

definition from_rules :: "rule list \<Rightarrow> policy" where
  "from_rules rs = \<lparr>rules = rs, source_hash_hex = []\<rparr>"

section \<open>Reading and writing the rule file\<close>

record limits_def =
  ld_max_response_bytes :: "u64 option"
  ld_session_ttl_s :: "u64 option"

record pair_def =
  pd_cred_ref :: string
  pd_target_uri :: string

record rule_def =
  rd_effect :: string
  rd_name :: "string option"
  rd_agent_id :: "string option"
  rd_cred_ref :: "string option"
  rd_target_uri :: "string option"
  rd_mechanism :: "string option"
  rd_pair :: "pair_def list"
  rd_limits :: "limits_def option"
  rd_notify :: "bool option"

definition read_axis :: "nat \<Rightarrow> string \<Rightarrow> string option \<Rightarrow> (policy_error, matcher) result" where
  "read_axis i label raw =
     (case raw of
        None \<Rightarrow> Ok Any
      | Some s \<Rightarrow> (case matcher_parse s of
                    Inl e \<Rightarrow> Err (SchemaError (BadAxis i label e))
                  | Inr m \<Rightarrow> Ok m))"

fun read_pairs :: "nat \<Rightarrow> nat \<Rightarrow> pair_def list \<Rightarrow> (policy_error, pair_row list) result" where
  "read_pairs i pi [] = Ok []"
| "read_pairs i pi (p # ps) =
     (case matcher_parse (pd_cred_ref p) of
        Inl e \<Rightarrow> Err (SchemaError (BadPair i pi ''cred_ref'' e))
      | Inr cr \<Rightarrow>
          (case matcher_parse (pd_target_uri p) of
             Inl e \<Rightarrow> Err (SchemaError (BadPair i pi ''target_uri'' e))
           | Inr tu \<Rightarrow>
               (case read_pairs i (Suc pi) ps of
                  Inl e \<Rightarrow> Err e
                | Inr rows \<Rightarrow> Ok (\<lparr>p_cred_ref = cr, p_target_uri = tu\<rparr> # rows))))"

definition read_limits :: "limits_def option \<Rightarrow> limits" where
  "read_limits l = (case l of None \<Rightarrow> no_limits
     | Some d \<Rightarrow> \<lparr>max_response_bytes = ld_max_response_bytes d, session_ttl_s = ld_session_ttl_s d\<rparr>)"

definition read_rule :: "nat \<Rightarrow> rule_def \<Rightarrow> (policy_error, rule) result" where
  "read_rule i d =
     (case effect_parse (rd_effect d) of
        None \<Rightarrow> Err (SchemaError (UnknownEffect i (rd_effect d)))
      | Some eff \<Rightarrow>
          bind_res (read_pairs i 0 (rd_pair d)) (\<lambda>pairs.
          bind_res (read_axis i ''agent_id'' (rd_agent_id d)) (\<lambda>a.
          bind_res (read_axis i ''cred_ref'' (rd_cred_ref d)) (\<lambda>cr.
          bind_res (read_axis i ''target_uri'' (rd_target_uri d)) (\<lambda>tu.
          bind_res (read_axis i ''mechanism'' (rd_mechanism d)) (\<lambda>m.
            Ok \<lparr>r_name = rd_name d,
                r_notify_on_use = (case rd_notify d of None \<Rightarrow> True | Some b \<Rightarrow> b),
                r_effect = eff, r_agent_id = a, r_cred_ref = cr, r_target_uri = tu,
                r_mechanism = m, r_pairs = pairs, r_limits = read_limits (rd_limits d)\<rparr>))))))"

fun read_rules :: "nat \<Rightarrow> rule_def list \<Rightarrow> (policy_error, rule list) result" where
  "read_rules i [] = Ok []"
| "read_rules i (d # ds) =
     bind_res (read_rule i d) (\<lambda>r. bind_res (read_rules (Suc i) ds) (\<lambda>rs. Ok (r # rs)))"

definition from_toml ::
    "crypto \<Rightarrow> (string \<Rightarrow> (string, rule_def list) result) \<Rightarrow> string \<Rightarrow> (policy_error, policy) result"
  where
  "from_toml c toml_from_str doc =
     (case toml_from_str doc of
        Inl e \<Rightarrow> Err (SchemaError (TomlMessage e))
      | Inr defs \<Rightarrow>
          bind_res (read_rules 0 defs) (\<lambda>rs.
            Ok \<lparr>rules = rs, source_hash_hex = hex_encode (sha256 c doc)\<rparr>))"

definition push_kv :: "(string \<Rightarrow> string) \<Rightarrow> string \<Rightarrow> string \<Rightarrow> string" where
  "push_kv quote key v = key @ '' = '' @ quote v @ [newline]"

definition push_axis :: "(string \<Rightarrow> string) \<Rightarrow> string \<Rightarrow> matcher \<Rightarrow> string" where
  "push_axis quote key m = (case matcher_source m of None \<Rightarrow> [] | Some s \<Rightarrow> push_kv quote key s)"

definition pair_source :: "matcher \<Rightarrow> string" where
  "pair_source m = (case matcher_source m of None \<Rightarrow> ''*'' | Some s \<Rightarrow> s)"

definition rule_toml :: "(string \<Rightarrow> string) \<Rightarrow> rule \<Rightarrow> string" where
  "rule_toml quote r =
     ''[[rule]]'' @ [newline] @
     (case r_name r of None \<Rightarrow> [] | Some n \<Rightarrow> push_kv quote ''name'' n) @
     ''effect = '' @ [CHR 0x22] @ effect_str (r_effect r) @ [CHR 0x22, newline] @
     push_axis quote ''agent_id'' (r_agent_id r) @
     push_axis quote ''cred_ref'' (r_cred_ref r) @
     push_axis quote ''target_uri'' (r_target_uri r) @
     push_axis quote ''mechanism'' (r_mechanism r) @
     concat (map (\<lambda>p. ''[[rule.pair]]'' @ [newline] @
       push_kv quote ''cred_ref'' (pair_source (p_cred_ref p)) @
       push_kv quote ''target_uri'' (pair_source (p_target_uri p))) (r_pairs r)) @
     (if max_response_bytes (r_limits r) \<noteq> None \<or> session_ttl_s (r_limits r) \<noteq> None then
        ''[rule.limits]'' @ [newline] @
        (case max_response_bytes (r_limits r) of None \<Rightarrow> []
         | Some v \<Rightarrow> ''max_response_bytes = '' @ dec_of_nat (unat v) @ [newline]) @
        (case session_ttl_s (r_limits r) of None \<Rightarrow> []
         | Some v \<Rightarrow> ''session_ttl_s = '' @ dec_of_nat (unat v) @ [newline])
      else []) @
     ''[rule.notify]'' @ [newline] @
     ''on_use = '' @ (if r_notify_on_use r then ''true'' else ''false'') @ [newline]"

definition to_toml :: "(string \<Rightarrow> string) \<Rightarrow> policy \<Rightarrow> string" where
  "to_toml quote p = join_with [newline] (map (rule_toml quote) (rules p))"

section \<open>Specification\<close>

definition covers :: "rule \<Rightarrow> request \<Rightarrow> bool" where
  "covers r q \<longleftrightarrow> axes_match r q \<and> (r_pairs r = [] \<or> (\<exists>p \<in> set (r_pairs r). row_match p q))"

definition binding_row :: "rule \<Rightarrow> request \<Rightarrow> nat option" where
  "binding_row r q = (if r_pairs r = [] then None else position_from 0 (\<lambda>p. row_match p q) (r_pairs r))"

text \<open>
  The verdict as a relation: either the rule at the least covering position decides, naming
  the least matching row, or no rule covers the request and the floor denies.
\<close>

inductive decides :: "rule list \<Rightarrow> request \<Rightarrow> decision \<Rightarrow> bool" for rs q where
  by_rule: "i < length rs \<Longrightarrow> covers (rs ! i) q \<Longrightarrow> \<forall>j<i. \<not> covers (rs ! j) q \<Longrightarrow>
     r_pairs (rs ! i) = [] \<Longrightarrow> decides rs q (rule_decision i (rs ! i) None q)"
| by_row: "i < length rs \<Longrightarrow> covers (rs ! i) q \<Longrightarrow> \<forall>j<i. \<not> covers (rs ! j) q \<Longrightarrow>
     pi < length (r_pairs (rs ! i)) \<Longrightarrow> row_match (r_pairs (rs ! i) ! pi) q \<Longrightarrow>
     \<forall>pj<pi. \<not> row_match (r_pairs (rs ! i) ! pj) q \<Longrightarrow>
     decides rs q (rule_decision i (rs ! i) (Some pi) q)"
| by_floor: "\<forall>j<length rs. \<not> covers (rs ! j) q \<Longrightarrow> decides rs q (floor_decision q)"

text \<open>One rule per binding row: what a fleet of single-binding rules would say.\<close>

fun expand_rule :: "rule \<Rightarrow> rule list" where
  "expand_rule r = (if r_pairs r = [] then [r] else map (\<lambda>p. r\<lparr>r_pairs := [p]\<rparr>) (r_pairs r))"

definition same_grant :: "decision \<Rightarrow> decision \<Rightarrow> bool" where
  "same_grant d d' \<longleftrightarrow> d_effect d = d_effect d' \<and> d_notify_on_use d = d_notify_on_use d' \<and>
     d_limits d = d_limits d'"

text \<open>\<open>within l m\<close>: the ceiling \<open>l\<close> is at least as strict as \<open>m\<close>; \<open>None\<close> is no ceiling.\<close>

fun within :: "u64 option \<Rightarrow> u64 option \<Rightarrow> bool" where
  "within l None = True"
| "within None (Some y) = False"
| "within (Some x) (Some y) = (x \<le> y)"

definition limits_within :: "limits \<Rightarrow> limits \<Rightarrow> bool" where
  "limits_within l m \<longleftrightarrow> within (max_response_bytes l) (max_response_bytes m) \<and>
     within (session_ttl_s l) (session_ttl_s m)"

text \<open>The deserialised form of what \<open>rule_toml\<close> writes for a rule, key by key.\<close>

definition written :: "rule \<Rightarrow> rule_def" where
  "written r = \<lparr>
     rd_effect = effect_str (r_effect r),
     rd_name = r_name r,
     rd_agent_id = matcher_source (r_agent_id r),
     rd_cred_ref = matcher_source (r_cred_ref r),
     rd_target_uri = matcher_source (r_target_uri r),
     rd_mechanism = matcher_source (r_mechanism r),
     rd_pair = map (\<lambda>p. \<lparr>pd_cred_ref = pair_source (p_cred_ref p),
       pd_target_uri = pair_source (p_target_uri p)\<rparr>) (r_pairs r),
     rd_limits = (if max_response_bytes (r_limits r) = None \<and> session_ttl_s (r_limits r) = None
       then None
       else Some \<lparr>ld_max_response_bytes = max_response_bytes (r_limits r),
         ld_session_ttl_s = session_ttl_s (r_limits r)\<rparr>),
     rd_notify = Some (r_notify_on_use r)\<rparr>"

text \<open>Rules whose matchers survive the rule-file syntax.\<close>

definition storable :: "rule \<Rightarrow> bool" where
  "storable r \<longleftrightarrow> \<not> tag_collision (r_agent_id r) \<and> \<not> tag_collision (r_cred_ref r) \<and>
     \<not> tag_collision (r_target_uri r) \<and> \<not> tag_collision (r_mechanism r) \<and>
     list_all (\<lambda>p. \<not> tag_collision (p_cred_ref p) \<and> \<not> tag_collision (p_target_uri p)) (r_pairs r)"

section \<open>First-match lists\<close>

text \<open>
  The contract of a first-match list: a default when it is empty, the head when it covers
  the query, the rest otherwise. Everything that follows from it is proved here once.
\<close>

locale first_match =
  fixes cov :: "'r \<Rightarrow> 'q \<Rightarrow> bool"
    and hit :: "nat \<Rightarrow> 'r \<Rightarrow> 'q \<Rightarrow> 'd"
    and dflt :: "'q \<Rightarrow> 'd"
    and scan :: "nat \<Rightarrow> 'r list \<Rightarrow> 'q \<Rightarrow> 'd"
  assumes scan_Nil: "scan i [] q = dflt q"
    and scan_hit: "cov r q \<Longrightarrow> scan i (r # rs) q = hit i r q"
    and scan_skip: "\<not> cov r q \<Longrightarrow> scan i (r # rs) q = scan (Suc i) rs q"
begin

lemma scan_Cons: "scan i (r # rs) q = (if cov r q then hit i r q else scan (Suc i) rs q)"
  by (simp add: scan_hit scan_skip)

lemma scan_uncovered:
  "\<forall>r \<in> set xs. \<not> cov r q \<Longrightarrow> scan i (xs @ ys) q = scan (i + length xs) ys q"
  by (induction xs arbitrary: i) (auto simp: scan_skip)

lemma scan_default: "\<forall>r \<in> set xs. \<not> cov r q \<Longrightarrow> scan i xs q = dflt q"
  using scan_uncovered [of xs q i "[]"] by (simp add: scan_Nil)

lemma scan_first:
  "k < length xs \<Longrightarrow> cov (xs ! k) q \<Longrightarrow> \<forall>j<k. \<not> cov (xs ! j) q \<Longrightarrow>
   scan i xs q = hit (i + k) (xs ! k) q"
proof -
  assume k: "k < length xs" "cov (xs ! k) q" "\<forall>j<k. \<not> cov (xs ! j) q"
  then have "\<forall>r \<in> set (take k xs). \<not> cov r q" by (auto simp: in_set_conv_nth)
  then have "scan i (take k xs @ xs ! k # drop (Suc k) xs) q = hit (i + k) (xs ! k) q"
    using k by (simp add: scan_uncovered scan_hit)
  then show ?thesis using k by (simp add: id_take_nth_drop [symmetric])
qed

lemma scan_cases:
  obtains (first) k where "k < length xs" "cov (xs ! k) q" "\<forall>j<k. \<not> cov (xs ! j) q"
      "scan i xs q = hit (i + k) (xs ! k) q"
  | (none) "\<forall>r \<in> set xs. \<not> cov r q" "scan i xs q = dflt q"
proof (cases "\<exists>k. k < length xs \<and> cov (xs ! k) q")
  case True
  then obtain k where "k < length xs \<and> cov (xs ! k) q" "\<forall>j<k. \<not> (j < length xs \<and> cov (xs ! j) q)"
    using exists_least_iff [of "\<lambda>k. k < length xs \<and> cov (xs ! k) q"] by auto
  then show thesis using scan_first [of k xs q i] by (intro first [of k]) auto
next
  case False
  then have "\<forall>r \<in> set xs. \<not> cov r q" by (auto simp: in_set_conv_nth)
  then show thesis using scan_default by (intro none) auto
qed

lemma scan_insert:
  "scan i (xs @ y # ys) q =
     (if \<exists>x \<in> set xs. cov x q then scan i xs q
      else if cov y q then hit (i + length xs) y q
      else scan (Suc (i + length xs)) ys q)"
  by (induction xs arbitrary: i) (auto simp: scan_Cons)

lemma scan_append:
  "scan i (xs @ ys) q = (if \<exists>x \<in> set xs. cov x q then scan i xs q else scan (i + length xs) ys q)"
  by (induction xs arbitrary: i) (auto simp: scan_Cons)

end

lemma position_from_Some:
  "position_from i P xs = Some k \<longleftrightarrow>
     (\<exists>n. k = i + n \<and> n < length xs \<and> P (xs ! n) \<and> (\<forall>j<n. \<not> P (xs ! j)))"
proof (induction xs arbitrary: i)
  case (Cons x xs)
  have split: "(\<exists>n. Q n) \<longleftrightarrow> Q 0 \<or> (\<exists>m. Q (Suc m))" for Q :: "nat \<Rightarrow> bool"
    by (metis not0_implies_Suc)
  show ?case
    by (subst split) (auto simp: Cons.IH All_less_Suc2)
qed simp

lemma position_from_None: "position_from i P xs = None \<longleftrightarrow> (\<forall>x \<in> set xs. \<not> P x)"
  by (induction xs arbitrary: i) auto

interpretation rules: first_match covers "\<lambda>i r q. rule_decision i r (binding_row r q) q"
  floor_decision evaluate_from
proof
  fix i :: nat and r rs q
  show "evaluate_from i [] q = floor_decision q" by simp
  show "covers r q \<Longrightarrow> evaluate_from i (r # rs) q = rule_decision i r (binding_row r q) q"
    using position_from_None [of 0 "\<lambda>p. row_match p q" "r_pairs r"]
    by (auto simp: covers_def binding_row_def position_from_None split: option.splits)
  show "\<not> covers r q \<Longrightarrow> evaluate_from i (r # rs) q = evaluate_from (Suc i) rs q"
    using position_from_None [of 0 "\<lambda>p. row_match p q" "r_pairs r"]
    by (auto simp: covers_def split: option.splits)
qed

section \<open>Properties of evaluation\<close>

lemma decides_binding:
  assumes "i < length rs" "covers (rs ! i) q" "\<forall>j<i. \<not> covers (rs ! j) q"
  shows "decides rs q (rule_decision i (rs ! i) (binding_row (rs ! i) q) q)"
proof (cases "r_pairs (rs ! i) = []")
  case True
  with assms show ?thesis by (simp add: binding_row_def decides.by_rule)
next
  case False
  with assms(2) obtain pi where pi: "position_from 0 (\<lambda>p. row_match p q) (r_pairs (rs ! i)) = Some pi"
    by (metis (mono_tags, lifting) covers_def not_Some_eq position_from_None)
  then have "pi < length (r_pairs (rs ! i))" "row_match (r_pairs (rs ! i) ! pi) q"
    "\<forall>pj<pi. \<not> row_match (r_pairs (rs ! i) ! pj) q"
    by (auto simp: position_from_Some)
  with assms False pi show ?thesis by (simp add: binding_row_def decides.by_row)
qed

lemma decides_evaluate: "decides (rules p) q (evaluate p q)"
proof (rule rules.scan_cases [of "rules p" q 0])
  fix k
  assume "k < length (rules p)" "covers (rules p ! k) q" "\<forall>j<k. \<not> covers (rules p ! j) q"
    "evaluate_from 0 (rules p) q =
      rule_decision (0 + k) (rules p ! k) (binding_row (rules p ! k) q) q"
  then show ?thesis by (simp add: evaluate_def decides_binding)
next
  assume "\<forall>r \<in> set (rules p). \<not> covers r q" "evaluate_from 0 (rules p) q = floor_decision q"
  then show ?thesis by (simp add: evaluate_def decides.by_floor)
qed

lemma decides_covered_unique:
  assumes "decides rs q d" "i < length rs" "covers (rs ! i) q" "\<forall>j<i. \<not> covers (rs ! j) q"
  shows "d = rule_decision i (rs ! i) (binding_row (rs ! i) q) q"
  using assms(1)
proof cases
  case (by_rule k)
  with assms(2-4) have "k = i" by (metis linorder_neqE_nat)
  with by_rule show ?thesis by (simp add: binding_row_def)
next
  case (by_row k pi)
  with assms(2-4) have "k = i" by (metis linorder_neqE_nat)
  moreover from by_row have "position_from 0 (\<lambda>p. row_match p q) (r_pairs (rs ! k)) = Some pi"
    by (auto simp: position_from_Some)
  ultimately show ?thesis using by_row by (auto simp: binding_row_def)
qed (use assms(2,3) in blast)

lemma decides_unique: "decides rs q d \<Longrightarrow> decides rs q d' \<Longrightarrow> d = d'"
proof -
  assume d: "decides rs q d" and d': "decides rs q d'"
  show "d = d'"
  proof (rule rules.scan_cases [of rs q 0])
    fix k
    assume "k < length rs" "covers (rs ! k) q" "\<forall>j<k. \<not> covers (rs ! j) q"
    with d d' show ?thesis using decides_covered_unique by blast
  next
    assume none: "\<forall>r \<in> set rs. \<not> covers r q"
    have "e = floor_decision q" if "decides rs q e" for e
      using that none by cases (auto dest: nth_mem)
    with d d' show ?thesis by blast
  qed
qed


text \<open>
  Default deny is structural: whatever the rules, a verdict other than deny comes from
  an explicit rule with that effect that covers the request, and the verdict names it.
\<close>

theorem evaluate_default_deny:
  assumes "d_effect (evaluate p q) \<noteq> Deny"
  shows "\<exists>i < length (rules p). covers (rules p ! i) q \<and>
    r_effect (rules p ! i) = d_effect (evaluate p q) \<and>
    (\<exists>pr. d_source (evaluate p q) = FromRule i (r_name (rules p ! i)) pr)"
  using decides_evaluate [of p q]
proof cases
  case by_floor
  with assms show ?thesis by (simp add: floor_decision_def)
qed (auto simp: rule_decision_def)

text \<open>Sample rules for the witnesses.\<close>

definition sample_rule :: rule where
  "sample_rule = \<lparr>r_name = Some ''stripe'', r_notify_on_use = True, r_effect = Allow,
     r_agent_id = Exact ''a'', r_cred_ref = Any, r_target_uri = Prefix ''https'',
     r_mechanism = Any, r_pairs = [],
     r_limits = \<lparr>max_response_bytes = Some 10, session_ttl_s = None\<rparr>\<rparr>"

definition sample_request :: request where
  "sample_request = \<lparr>q_agent_id = ''a'', q_cred_ref = ''local://k'', q_target_uri = ''https://x'',
     q_mechanism = ''http-bearer'',
     q_declared = Some \<lparr>c_max_response_bytes = Some 5, c_session_ttl_s = Some 9\<rparr>\<rparr>"

lemma sample_evaluate:
  "evaluate (from_rules [sample_rule]) sample_request = rule_decision 0 sample_rule None sample_request"
  by (simp add: evaluate_def from_rules_def sample_rule_def sample_request_def axes_match_def)

theorem evaluate_default_deny_witness:
  "\<exists>i < length (rules (from_rules [sample_rule])).
     r_effect (rules (from_rules [sample_rule]) ! i) = Allow"
  using evaluate_default_deny [of "from_rules [sample_rule]" sample_request]
  by (simp add: sample_evaluate rule_decision_def sample_rule_def from_rules_def)

section \<open>Limits\<close>

lemma within_min_opt: "within l (min_opt a b) \<longleftrightarrow> within l a \<and> within l b"
  by (cases l; cases a; cases b) auto

lemma limits_within_min_with:
  "limits_within l (min_with a b) \<longleftrightarrow> limits_within l a \<and> limits_within l b"
  by (auto simp: limits_within_def min_with_def within_min_opt)

text \<open>
  The effective limits are the greatest lower bound of the two sides: a ceiling respects
  the verdict's limits exactly when it respects the agent's declared ones and those of the
  deciding rule. Neither side can widen the other.
\<close>

theorem evaluate_limits_meet:
  "limits_within l (d_limits (evaluate p q)) \<longleftrightarrow>
     limits_within l (declared_limits q) \<and>
     (\<forall>i nm pr. d_source (evaluate p q) = FromRule i nm pr \<longrightarrow> limits_within l (r_limits (rules p ! i)))"
  using decides_evaluate [of p q]
  by cases (auto simp: rule_decision_def floor_decision_def limits_within_min_with)

theorem evaluate_limits_meet_witness:
  "limits_within \<lparr>max_response_bytes = Some 5, session_ttl_s = Some 9\<rparr>
     (d_limits (evaluate (from_rules [sample_rule]) sample_request))"
proof -
  have "d_source (evaluate (from_rules [sample_rule]) sample_request) =
      FromRule 0 (r_name sample_rule) None"
    by (simp add: sample_evaluate rule_decision_def)
  then show ?thesis
    by (simp add: evaluate_limits_meet)
      (simp add: limits_within_def declared_limits_def sample_request_def sample_rule_def from_rules_def)
qed

section \<open>Editing a rule list\<close>

lemma same_grant_refl [simp]: "same_grant d d"
  by (simp add: same_grant_def)

lemma same_grant_trans: "same_grant a b \<Longrightarrow> same_grant b c \<Longrightarrow> same_grant a c"
  by (simp add: same_grant_def)

lemma evaluate_from_index: "same_grant (evaluate_from i rs q) (evaluate_from j rs q)"
  by (induction rs arbitrary: i j) (auto simp: same_grant_def rule_decision_def split: option.split)

text \<open>
  Inserting a deny rule at any position never grants anything: every request gets the
  grant it had before, or is denied.
\<close>

theorem insert_deny_never_widens:
  assumes "r_effect y = Deny"
  shows "same_grant (evaluate (from_rules (xs @ y # ys)) q) (evaluate (from_rules (xs @ ys)) q) \<or>
    d_effect (evaluate (from_rules (xs @ y # ys)) q) = Deny"
proof -
  have "same_grant (evaluate_from (Suc (length xs)) ys q) (evaluate_from (length xs) ys q)"
    by (rule evaluate_from_index)
  then show ?thesis
    using assms
    by (auto simp: evaluate_def from_rules_def rules.scan_append rules.scan_Cons rule_decision_def
      simp del: evaluate_from.simps)
qed

theorem insert_deny_never_widens_witness:
  "d_effect (evaluate (from_rules ([] @ sample_rule\<lparr>r_effect := Deny\<rparr> # [sample_rule])) sample_request) = Deny"
  using insert_deny_never_widens [of "sample_rule\<lparr>r_effect := Deny\<rparr>" "[]" "[sample_rule]" sample_request]
  by (auto simp: evaluate_def from_rules_def sample_rule_def sample_request_def axes_match_def
    rule_decision_def same_grant_def)

lemma expand_rule_covers: "(\<exists>x \<in> set (expand_rule r). covers x q) \<longleftrightarrow> covers r q"
  by (auto simp: covers_def axes_match_def)

lemma expand_rule_grant:
  assumes "covers r q"
  shows "same_grant (evaluate_from i (expand_rule r) q) (evaluate_from j (r # rs) q)"
proof (rule rules.scan_cases [of "expand_rule r" q i])
  fix k
  assume k: "k < length (expand_rule r)"
    and eq: "evaluate_from i (expand_rule r) q =
      rule_decision (i + k) (expand_rule r ! k) (binding_row (expand_rule r ! k) q) q"
  from k have "r_effect (expand_rule r ! k) = r_effect r"
    "r_notify_on_use (expand_rule r ! k) = r_notify_on_use r"
    "r_limits (expand_rule r ! k) = r_limits r"
    by (auto split: if_splits)
  with eq assms show ?thesis
    by (simp add: rules.scan_hit same_grant_def rule_decision_def del: evaluate_from.simps expand_rule.simps)
next
  assume "\<forall>x \<in> set (expand_rule r). \<not> covers x q"
  with assms expand_rule_covers show ?thesis by blast
qed

lemma expand_rules_grant:
  "same_grant (evaluate_from i (concat (map expand_rule rs)) q) (evaluate_from j rs q)"
proof (induction rs arbitrary: i j)
  case (Cons r rs)
  show ?case
  proof (cases "covers r q")
    case True
    with expand_rule_covers [of r q] expand_rule_grant [OF True, of i j rs] show ?thesis
      by (simp add: rules.scan_append del: evaluate_from.simps expand_rule.simps)
  next
    case False
    with expand_rule_covers [of r q] Cons.IH show ?thesis
      by (simp add: rules.scan_append rules.scan_skip del: evaluate_from.simps expand_rule.simps)
  qed
qed simp

text \<open>
  A rule with binding rows means the fleet of rules with one row each, in the same
  order: replacing every such rule by that fleet changes no grant.
\<close>

theorem pair_rows_equal_rule_fleet:
  "same_grant (evaluate (from_rules (concat (map expand_rule rs))) q) (evaluate (from_rules rs) q)"
  by (simp add: evaluate_def from_rules_def expand_rules_grant)

section \<open>The rule file round trip\<close>

lemma effect_parse_str [simp]: "effect_parse (effect_str e) = Some e"
  by (cases e) (simp_all add: effect_parse_def)

lemma star_matches_all: "matcher_matches (Glob ''*'') c"
  by (simp add: glob_match_def star_def)

lemma matcher_source_None: "matcher_source m = None \<longleftrightarrow> m = Any"
  by (cases m) auto

lemma read_axis_source:
  "\<not> tag_collision m \<Longrightarrow> read_axis i label (matcher_source m) = Ok m"
  using matcher_source_reads_back [of m]
  by (cases "matcher_source m") (auto simp: read_axis_def matcher_source_None split: sum.splits)

definition stored_pair :: "pair_row \<Rightarrow> pair_row" where
  "stored_pair p = \<lparr>
     p_cred_ref = (if p_cred_ref p = Any then Glob ''*'' else p_cred_ref p),
     p_target_uri = (if p_target_uri p = Any then Glob ''*'' else p_target_uri p)\<rparr>"

lemma pair_source_reads_back:
  "\<not> tag_collision m \<Longrightarrow> matcher_parse (pair_source m) = Ok (if m = Any then Glob ''*'' else m)"
  using matcher_source_reads_back [of m]
  by (cases m) (auto simp: pair_source_def matcher_parse_def strip_prefix_def star_def)

lemma read_pairs_written:
  "list_all (\<lambda>p. \<not> tag_collision (p_cred_ref p) \<and> \<not> tag_collision (p_target_uri p)) ps \<Longrightarrow>
   read_pairs i k (map (\<lambda>p. \<lparr>pd_cred_ref = pair_source (p_cred_ref p),
     pd_target_uri = pair_source (p_target_uri p)\<rparr>) ps) = Ok (map stored_pair ps)"
  by (induction ps arbitrary: k) (auto simp: pair_source_reads_back stored_pair_def)

lemma read_limits_written:
  "read_limits (rd_limits (written r)) = r_limits r"
  by (auto simp: read_limits_def written_def no_limits_def)

lemma read_rule_written:
  "storable r \<Longrightarrow> read_rule i (written r) = Ok (r\<lparr>r_pairs := map stored_pair (r_pairs r)\<rparr>)"
  using read_limits_written [of r]
  by (simp add: storable_def read_rule_def written_def read_axis_source read_pairs_written)

lemma read_rules_written:
  "list_all storable rs \<Longrightarrow>
   read_rules i (map written rs) = Ok (map (\<lambda>r. r\<lparr>r_pairs := map stored_pair (r_pairs r)\<rparr>) rs)"
  by (induction rs arbitrary: i) (auto simp: read_rule_written)

lemma row_match_stored: "row_match (stored_pair p) q = row_match p q"
  by (auto simp: row_match_def stored_pair_def star_matches_all simp del: matcher_matches.simps(4))

lemma position_from_map: "position_from i P (map f xs) = position_from i (\<lambda>x. P (f x)) xs"
  by (induction xs arbitrary: i) auto

lemma evaluate_from_stored:
  "evaluate_from i (map (\<lambda>r. r\<lparr>r_pairs := map stored_pair (r_pairs r)\<rparr>) rs) q = evaluate_from i rs q"
  by (induction rs arbitrary: i)
    (auto simp: axes_match_def rule_decision_def position_from_map row_match_stored split: option.split)



end
