(* ===== verification/Enrollment.thy ===== *)
theory Enrollment
  imports Json "HOL-Library.List_Lexorder" "HOL-Library.Char_ord"
begin

text \<open>
  The enrollment store of \<^verbatim>\<open>crates/identity/src/enrollment.rs\<close>: the operator's binding of
  agent identities to public keys and human sponsors, its persistence, and the facts the
  attestation layer relies on. The JSON file format is serde's and a parameter.
\<close>

section \<open>Model\<close>

record enrollment_record =
  er_agent_id :: string
  er_public_key :: string
  er_enrolled_at :: string
  er_sponsor_id :: string
  er_sponsor_name :: string
  er_revoked_at :: "string option"

record stored_agent =
  sa_key :: bytes
  sa_record :: enrollment_record

datatype key_problem = NotBase64 | WrongLength nat | NotAPoint

datatype enrollment_error =
    EnrollmentIo
  | EnrollmentCorrupt
  | BadPublicKey key_problem
  | EnrollmentDuplicate string
  | MissingSponsor string

text \<open>\<^verbatim>\<open>StoreFile\<close>: a version and the records.\<close>

record store_codec =
  store_enc :: "nat \<times> enrollment_record list \<Rightarrow> bytes option"
  store_dec :: "bytes \<Rightarrow> (nat \<times> enrollment_record list) option"

text \<open>The store with the bytes of the file behind it (\<open>None\<close>: no file yet).\<close>

record enrollment_store =
  agents :: "(string \<times> stored_agent) list"
  es_has_path :: bool
  es_file :: "bytes option"

definition enrollment_in_memory :: enrollment_store where
  "enrollment_in_memory = \<lparr>agents = [], es_has_path = False, es_file = None\<rparr>"

definition decode_public_key :: "crypto \<Rightarrow> string \<Rightarrow> (enrollment_error, bytes) result" where
  "decode_public_key c encoded =
     (case b64u_decode c (trim encoded) of
        None \<Rightarrow> Err (BadPublicKey NotBase64)
      | Some raw \<Rightarrow>
          if length raw \<noteq> 32 then Err (BadPublicKey (WrongLength (length raw)))
          else if ed_point c raw then Ok raw else Err (BadPublicKey NotAPoint))"

definition encode_public_key :: "crypto \<Rightarrow> bytes \<Rightarrow> string" where
  "encode_public_key c key = b64u_encode c key"

definition is_ascii_whitespace :: "char \<Rightarrow> bool" where
  "is_ascii_whitespace ch \<longleftrightarrow> ch \<in> {CHR 0x09, CHR 0x0A, CHR 0x0C, CHR 0x0D, CHR 0x20}"

fun load_records ::
    "crypto \<Rightarrow> enrollment_record list \<Rightarrow> (string \<times> stored_agent) list \<Rightarrow>
     (enrollment_error, (string \<times> stored_agent) list) result" where
  "load_records c [] acc = Ok acc"
| "load_records c (r # rs) acc =
     (case decode_public_key c (er_public_key r) of
        Inl e \<Rightarrow> Err e
      | Inr key \<Rightarrow> load_records c rs (AList.update (er_agent_id r) \<lparr>sa_key = key, sa_record = r\<rparr> acc))"

definition enrollment_load ::
    "crypto \<Rightarrow> store_codec \<Rightarrow> bool \<Rightarrow> bytes option \<Rightarrow> (enrollment_error, enrollment_store) result" where
  "enrollment_load c cd readable file =
     (case file of
        None \<Rightarrow> Ok \<lparr>agents = [], es_has_path = True, es_file = None\<rparr>
      | Some bytes \<Rightarrow>
          if \<not> readable then Err EnrollmentIo
          else if list_all is_ascii_whitespace bytes
          then Ok \<lparr>agents = [], es_has_path = True, es_file = Some bytes\<rparr>
          else (case store_dec cd bytes of
                  None \<Rightarrow> Err EnrollmentCorrupt
                | Some (version, recs) \<Rightarrow>
                    if version \<noteq> 1 then Err EnrollmentCorrupt
                    else (case load_records c recs [] of
                            Inl e \<Rightarrow> Err e
                          | Inr ags \<Rightarrow> Ok \<lparr>agents = ags, es_has_path = True, es_file = Some bytes\<rparr>)))"

definition live_agent :: "enrollment_store \<Rightarrow> string \<Rightarrow> stored_agent option" where
  "live_agent st agent_id =
     (case map_of (agents st) agent_id of
        Some stored \<Rightarrow> if er_revoked_at (sa_record stored) = None then Some stored else None
      | None \<Rightarrow> None)"

definition lookup :: "enrollment_store \<Rightarrow> string \<Rightarrow> bytes option" where
  "lookup st agent_id = map_option sa_key (live_agent st agent_id)"

definition sponsor_id_of :: "enrollment_store \<Rightarrow> string \<Rightarrow> string option" where
  "sponsor_id_of st agent_id = map_option (\<lambda>s. er_sponsor_id (sa_record s)) (live_agent st agent_id)"

definition enrollment_list :: "enrollment_store \<Rightarrow> enrollment_record list" where
  "enrollment_list st = sort_key er_agent_id (map (\<lambda>kv. sa_record (snd kv)) (agents st))"

text \<open>
  \<^verbatim>\<open>persist\<close>: a temporary file and a rename; \<open>io\<close> says whether the file operations succeed.
\<close>

definition persist :: "store_codec \<Rightarrow> bool \<Rightarrow> enrollment_store \<Rightarrow> (enrollment_error, unit) result \<times> enrollment_store"
  where
  "persist cd io st =
     (if \<not> es_has_path st then (Ok (), st)
      else (case store_enc cd (1, enrollment_list st) of
              None \<Rightarrow> (Err EnrollmentCorrupt, st)
            | Some bytes \<Rightarrow>
                if io then (Ok (), st\<lparr>es_file := Some bytes\<rparr>) else (Err EnrollmentIo, st)))"

definition enroll ::
    "crypto \<Rightarrow> store_codec \<Rightarrow> bool \<Rightarrow> string \<Rightarrow> string \<Rightarrow> string \<Rightarrow> string \<Rightarrow> string \<Rightarrow> bool \<Rightarrow>
     enrollment_store \<Rightarrow> (enrollment_error, unit) result \<times> enrollment_store" where
  "enroll c cd io agent_id public_key sponsor_id sponsor_name now force_rotate st =
     (if trim sponsor_id = [] then (Err (MissingSponsor ''sponsor_id''), st)
      else if trim sponsor_name = [] then (Err (MissingSponsor ''sponsor_name''), st)
      else (case decode_public_key c public_key of
              Inl e \<Rightarrow> (Err e, st)
            | Inr key \<Rightarrow>
                (let rec = \<lparr>er_agent_id = agent_id, er_public_key = encode_public_key c key,
                            er_enrolled_at = now, er_sponsor_id = trim sponsor_id,
                            er_sponsor_name = trim sponsor_name, er_revoked_at = None\<rparr> in
                 if live_agent st agent_id \<noteq> None \<and> \<not> force_rotate
                 then (Err (EnrollmentDuplicate agent_id), st)
                 else persist cd io (st\<lparr>agents :=
                   AList.update agent_id \<lparr>sa_key = key, sa_record = rec\<rparr> (agents st)\<rparr>))))"

text \<open>\<^verbatim>\<open>get_or_insert_with\<close>: the first revocation time stays.\<close>

definition mark_revoked :: "string \<Rightarrow> stored_agent \<Rightarrow> stored_agent" where
  "mark_revoked now s = (case er_revoked_at (sa_record s) of
     None \<Rightarrow> s\<lparr>sa_record := (sa_record s)\<lparr>er_revoked_at := Some now\<rparr>\<rparr> | Some _ \<Rightarrow> s)"

definition revoke ::
    "store_codec \<Rightarrow> bool \<Rightarrow> string \<Rightarrow> string \<Rightarrow> enrollment_store \<Rightarrow>
     (enrollment_error, bool) result \<times> enrollment_store" where
  "revoke cd io agent_id now st =
     (case map_of (agents st) agent_id of
        None \<Rightarrow> (Ok False, st)
      | Some stored \<Rightarrow>
          (let st' = st\<lparr>agents := AList.update agent_id (mark_revoked now stored) (agents st)\<rparr> in
           (case persist cd io st' of
              (Inl e, st'') \<Rightarrow> (Err e, st'')
            | (Inr _, st'') \<Rightarrow> (Ok True, st''))))"

section \<open>Operator histories\<close>

datatype operator_action =
    DoEnroll string string string string string bool
  | DoRevoke string string

fun operator_step :: "crypto \<Rightarrow> store_codec \<Rightarrow> enrollment_store \<Rightarrow> operator_action \<times> bool \<Rightarrow> enrollment_store"
  where
  "operator_step c cd st (DoEnroll a pk sid sname now f, io) = snd (enroll c cd io a pk sid sname now f st)"
| "operator_step c cd st (DoRevoke a now, io) = snd (revoke cd io a now st)"

fun enrolls :: "string \<Rightarrow> operator_action \<times> bool \<Rightarrow> bool" where
  "enrolls a (DoEnroll b _ _ _ _ _, _) = (a = b)"
| "enrolls a (DoRevoke _ _, _) = False"

definition operator_run ::
    "crypto \<Rightarrow> store_codec \<Rightarrow> enrollment_store \<Rightarrow> (operator_action \<times> bool) list \<Rightarrow> enrollment_store" where
  "operator_run c cd st acts = foldl (operator_step c cd) st acts"

text \<open>
  The well-formedness invariant: one entry per agent, stored under its own identity, with
  the key its record encodes; and, for stores built by enrollment, a named sponsor.
\<close>

definition enrollment_inv :: "crypto \<Rightarrow> enrollment_store \<Rightarrow> bool" where
  "enrollment_inv c st \<longleftrightarrow> entries_ok (\<lambda>a s. er_agent_id (sa_record s) = a \<and>
     decode_public_key c (er_public_key (sa_record s)) = Ok (sa_key s)) (agents st)"

definition sponsored :: "enrollment_store \<Rightarrow> bool" where
  "sponsored st \<longleftrightarrow> entries_ok (\<lambda>a s. er_sponsor_id (sa_record s) \<noteq> [] \<and>
     er_sponsor_name (sa_record s) \<noteq> []) (agents st)"

section \<open>What each operation does\<close>

lemma persist_agents [simp]: "agents (snd (persist cd io st)) = agents st"
  by (simp add: persist_def split: option.split)

lemma revoke_agents:
  "agents (snd (revoke cd io a now st)) =
     (case map_of (agents st) a of None \<Rightarrow> agents st
      | Some s \<Rightarrow> AList.update a (mark_revoked now s) (agents st))"
  by (simp add: revoke_def persist_def Let_def split: option.split)

lemma enroll_agents:
  "agents (snd (enroll c cd io a pk sid sname now f st)) =
     (case decode_public_key c pk of
        Inl e \<Rightarrow> agents st
      | Inr key \<Rightarrow>
          if trim sid = [] \<or> trim sname = [] \<or> (live_agent st a \<noteq> None \<and> \<not> f) then agents st
          else AList.update a \<lparr>sa_key = key, sa_record = \<lparr>er_agent_id = a,
            er_public_key = encode_public_key c key, er_enrolled_at = now, er_sponsor_id = trim sid,
            er_sponsor_name = trim sname, er_revoked_at = None\<rparr>\<rparr> (agents st))"
  by (simp add: enroll_def Let_def split: sum.split)

lemma mark_revoked_simps [simp]:
  "er_revoked_at (sa_record (mark_revoked now s)) \<noteq> None"
  "er_agent_id (sa_record (mark_revoked now s)) = er_agent_id (sa_record s)"
  "er_public_key (sa_record (mark_revoked now s)) = er_public_key (sa_record s)"
  "er_sponsor_id (sa_record (mark_revoked now s)) = er_sponsor_id (sa_record s)"
  "er_sponsor_name (sa_record (mark_revoked now s)) = er_sponsor_name (sa_record s)"
  "sa_key (mark_revoked now s) = sa_key s"
  by (simp_all add: mark_revoked_def split: option.split)

lemma decode_encode_public_key:
  assumes "b64u_reads_back c" "b64u_trimmed c" "decode_public_key c pk = Ok key"
  shows "decode_public_key c (encode_public_key c key) = Ok key"
  using assms
  by (auto simp: decode_public_key_def encode_public_key_def b64u_reads_back_def b64u_trimmed_def
    split: option.splits if_splits)

lemma enrollment_inv_revoke [inv_intros]:
  "enrollment_inv c st \<Longrightarrow> enrollment_inv c (snd (revoke cd io a now st))"
  unfolding enrollment_inv_def revoke_agents
  by (cases "map_of (agents st) a") (auto intro!: entries_ok_update dest: entries_ok_get)

lemma enrollment_inv_enroll [inv_intros]:
  "b64u_reads_back c \<Longrightarrow> b64u_trimmed c \<Longrightarrow> enrollment_inv c st \<Longrightarrow>
   enrollment_inv c (snd (enroll c cd io a pk sid sname now f st))"
  unfolding enrollment_inv_def enroll_agents
  by (auto intro!: entries_ok_update simp: decode_encode_public_key split: sum.split)

lemma sponsored_revoke [inv_intros]: "sponsored st \<Longrightarrow> sponsored (snd (revoke cd io a now st))"
  unfolding sponsored_def revoke_agents
  by (cases "map_of (agents st) a") (auto intro!: entries_ok_update dest: entries_ok_get)

lemma sponsored_enroll [inv_intros]:
  "sponsored st \<Longrightarrow> sponsored (snd (enroll c cd io a pk sid sname now f st))"
  unfolding sponsored_def enroll_agents
  by (auto intro!: entries_ok_update split: sum.split)

lemma operator_run_inv:
  assumes "b64u_reads_back c" "b64u_trimmed c" "enrollment_inv c st" "sponsored st"
  shows "enrollment_inv c (operator_run c cd st acts) \<and> sponsored (operator_run c cd st acts)"
  using assms(3,4) unfolding operator_run_def
proof (induction acts arbitrary: st)
  case (Cons act acts)
  have "enrollment_inv c (operator_step c cd st act) \<and> sponsored (operator_step c cd st act)"
    using Cons.prems assms(1,2) by (cases "(c, cd, st, act)" rule: operator_step.cases) (auto intro: inv_intros)
  then show ?case using Cons.IH by simp
qed simp

lemma sponsored_lookup:
  "sponsored st \<Longrightarrow> lookup st a = Some key \<Longrightarrow> \<exists>s. sponsor_id_of st a = Some s \<and> s \<noteq> []"
  unfolding sponsored_def
  by (auto simp: lookup_def sponsor_id_of_def live_agent_def split: option.splits if_splits
    dest: entries_ok_get)

section \<open>Properties\<close>

text \<open>
  Attribution terminates at a human: in every store an operator can reach from an empty
  one by enrolling, rotating and revoking, with any file failures, the identity invariant
  holds (each entry sits under its own identity with the key its record encodes) and every
  agent that resolves to a key also resolves to a non-empty sponsor.
\<close>

theorem live_agents_have_sponsors:
  assumes "b64u_reads_back c" and "b64u_trimmed c"
    and "st = operator_run c cd enrollment_in_memory acts" and "lookup st a = Some key"
  shows "enrollment_inv c st \<and> (\<exists>s. sponsor_id_of st a = Some s \<and> s \<noteq> [])"
proof -
  have "enrollment_inv c enrollment_in_memory" "sponsored enrollment_in_memory"
    by (simp_all add: enrollment_inv_def sponsored_def entries_ok_def enrollment_in_memory_def)
  then have "enrollment_inv c st \<and> sponsored st"
    unfolding assms(3) by (rule operator_run_inv [OF assms(1,2)])
  with assms(4) sponsored_lookup show ?thesis by blast
qed

lemma revoked_stays:
  assumes "live_agent st a = None" "\<forall>act \<in> set acts. \<not> enrolls a act"
  shows "live_agent (operator_run c cd st acts) a = None"
  using assms unfolding operator_run_def
proof (induction acts arbitrary: st)
  case (Cons act acts)
  have "live_agent (operator_step c cd st act) a = None"
  proof (cases "(c, cd, st, act)" rule: operator_step.cases)
    case (1 c' cd' st' b pk sid sname now f io)
    with Cons.prems have "a \<noteq> b" by auto
    with 1 Cons.prems show ?thesis
      by (auto simp: live_agent_def enroll_agents update_conv' split: sum.split)
  next
    case (2 c' cd' st' b now io)
    with Cons.prems show ?thesis
      by (auto simp: live_agent_def revoke_agents update_conv' split: option.splits)
  qed
  with Cons show ?case by simp
qed simp

lemma revoke_kills: "live_agent (snd (revoke cd io a now st)) a = None"
  by (auto simp: live_agent_def revoke_agents update_conv' split: option.splits)

text \<open>
  Revocation is immediate and stays: once an agent is revoked (even when writing the
  file fails), it resolves to no key and no sponsor after every later operator history that
  does not enroll that agent again.
\<close>

theorem revocation_is_effective:
  assumes "\<forall>act \<in> set acts. \<not> enrolls a act"
  shows "lookup (operator_run c cd (snd (revoke cd io a now st)) acts) a = None \<and>
    sponsor_id_of (operator_run c cd (snd (revoke cd io a now st)) acts) a = None"
  using revoked_stays [OF revoke_kills assms] by (simp add: lookup_def sponsor_id_of_def)

text \<open>
  Enrolling binds exactly the given key: it fails without a sponsor, without a valid
  32-byte key, or over a live enrollment unless rotation is forced, and then resolves every
  agent as before; otherwise the agent resolves to the new key and all others as before.
\<close>

theorem enroll_effect:
  "lookup (snd (enroll c cd io a pk sid sname now f st)) b =
     (case decode_public_key c pk of
        Inl e \<Rightarrow> lookup st b
      | Inr key \<Rightarrow>
          if trim sid = [] \<or> trim sname = [] \<or> (lookup st a \<noteq> None \<and> \<not> f) then lookup st b
          else if b = a then Some key else lookup st b)"
  by (auto simp: lookup_def live_agent_def enroll_agents update_conv' split: sum.split option.split)

section \<open>Persistence\<close>

definition store_codec_ok :: "store_codec \<Rightarrow> bool" where
  "store_codec_ok cd \<longleftrightarrow> (\<forall>f. \<exists>b. store_enc cd f = Some b \<and> store_dec cd b = Some f \<and>
     \<not> list_all is_ascii_whitespace b)"

lemma sort_key_map: "sort_key f (map g xs) = map g (sort_key (\<lambda>x. f (g x)) xs)"
proof (induction xs)
  case (Cons x xs)
  have "insort_key f (g x) (map g ys) = map g (insort_key (\<lambda>x. f (g x)) x ys)" for ys
    by (induction ys) auto
  with Cons show ?case by simp
qed simp

lemma load_records_stored:
  assumes "\<forall>s \<in> set ss. decode_public_key c (er_public_key (sa_record s)) = Ok (sa_key s)"
  shows "load_records c (map sa_record ss) acc =
    Ok (fold (\<lambda>s. AList.update (er_agent_id (sa_record s)) s) ss acc)"
  using assms
proof (induction ss arbitrary: acc)
  case (Cons s ss)
  then show ?case by (cases s) simp
qed simp

lemma load_records_list:
  assumes "enrollment_inv c st"
  obtains ags where "load_records c (enrollment_list st) [] = Ok ags" "map_of ags = map_of (agents st)"
proof -
  define kvs where "kvs = sort_key (\<lambda>kv. er_agent_id (sa_record (snd kv))) (agents st)"
  have list: "enrollment_list st = map sa_record (map snd kvs)"
    unfolding enrollment_list_def kvs_def by (subst sort_key_map) simp
  have inv: "distinct (map fst (agents st))"
    "\<forall>kv \<in> set (agents st). er_agent_id (sa_record (snd kv)) = fst kv \<and>
       decode_public_key c (er_public_key (sa_record (snd kv))) = Ok (sa_key (snd kv))"
    using assms by (auto simp: enrollment_inv_def entries_ok_def list_all_iff)
  have kvs: "set kvs = set (agents st)" "distinct (map fst kvs)"
    using inv(1) by (auto simp: kvs_def distinct_map)
  have "map (\<lambda>s. (er_agent_id (sa_record s), s)) (map snd kvs) = kvs"
    unfolding map_map by (rule map_idI) (use inv(2) kvs(1) in auto)
  then have "map_of (fold (\<lambda>s. AList.update (er_agent_id (sa_record s)) s) (map snd kvs) []) = map_of kvs"
    using map_of_fold_update [of "\<lambda>s. er_agent_id (sa_record s)" "\<lambda>s. s" "map snd kvs" "[]"]
      map_of_rev_distinct [OF kvs(2)] by simp
  also have "\<dots> = map_of (agents st)"
    using map_of_inject_set [OF kvs(2) inv(1)] kvs(1) by simp
  finally show thesis
    using that load_records_stored [of "map snd kvs" c "[]"] inv(2) kvs(1) list by auto
qed

text \<open>
  Saving and loading: when the file can be written, loading it yields a store in which
  every agent, live or revoked, has exactly the entry it had.
\<close>

theorem enrollment_survives_restart:
  assumes "store_codec_ok cd" and "enrollment_inv c st" and "es_has_path st"
    and "persist cd True st = (r, st')"
  shows "r = Ok () \<and> (\<exists>st''. enrollment_load c cd True (es_file st') = Ok st'' \<and>
    map_of (agents st'') = map_of (agents st))"
proof -
  obtain ags where ags: "load_records c (enrollment_list st) [] = Ok ags"
      "map_of ags = map_of (agents st)"
    using assms(2) by (rule load_records_list)
  obtain b where "store_enc cd (1, enrollment_list st) = Some b"
      "store_dec cd b = Some (1, enrollment_list st)" "\<not> list_all is_ascii_whitespace b"
    using assms(1) unfolding store_codec_ok_def by blast
  with ags assms(3,4) show ?thesis
    by (auto simp: persist_def enrollment_load_def)
qed

section \<open>Witnesses\<close>

instance enrollment_record_ext :: (countable) countable
proof
  let ?g = "\<lambda>r :: 'a enrollment_record_ext. (er_agent_id r, er_public_key r, er_enrolled_at r,
    er_sponsor_id r, er_sponsor_name r, er_revoked_at r, enrollment_record.more r)"
  have "inj ?g" by (auto simp: inj_def)
  then have "inj (to_nat \<circ> ?g)" by (simp add: inj_compose)
  then show "\<exists>f :: 'a enrollment_record_ext \<Rightarrow> nat. inj f" by blast
qed

definition sample_store_codec :: store_codec where
  "sample_store_codec = \<lparr>store_enc = (\<lambda>f. Some (replicate (Suc (to_nat f)) CHR ''x'')),
     store_dec = (\<lambda>b. Some (from_nat (length b - 1)))\<rparr>"

lemma sample_store_codec_ok: "store_codec_ok sample_store_codec"
  by (simp add: store_codec_ok_def sample_store_codec_def is_ascii_whitespace_def)

definition sample_key :: bytes where
  "sample_key = sample_seed"

definition sample_acts :: "(operator_action \<times> bool) list" where
  "sample_acts = [(DoEnroll ''a'' (b64u_encode sample_crypto sample_key) ''sam@x'' ''Sam'' ''t0'' False, True)]"

lemma sample_decode: "decode_public_key sample_crypto (b64u_encode sample_crypto sample_key) = Ok sample_key"
  by (simp add: decode_public_key_def sample_crypto_def trim_replicate_x sample_key_def sample_seed_def)

lemma sample_trim: "trim ''sam@x'' \<noteq> []" "trim ''Sam'' \<noteq> []"
  by (simp_all add: trim_def trim_start_def trim_end_def unicode_ws_def)

lemma sample_lookup:
  "lookup (operator_run sample_crypto sample_store_codec enrollment_in_memory sample_acts) ''a'' = Some sample_key"
  by (simp add: operator_run_def sample_acts_def lookup_def live_agent_def enroll_agents sample_decode
    sample_trim enrollment_in_memory_def)

theorem live_agents_have_sponsors_witness:
  "\<exists>s. sponsor_id_of (operator_run sample_crypto sample_store_codec enrollment_in_memory sample_acts) ''a'' =
     Some s \<and> s \<noteq> []"
  using live_agents_have_sponsors [OF sample_crypto_ok(3,5) refl sample_lookup] by blast

theorem revocation_is_effective_witness:
  "lookup (operator_run sample_crypto sample_store_codec
     (snd (revoke sample_store_codec False ''b'' ''t1'' enrollment_in_memory)) sample_acts) ''b'' = None"
  using revocation_is_effective [of sample_acts "''b''" sample_crypto sample_store_codec False "''t1''"
    enrollment_in_memory]
  by (simp add: sample_acts_def)

theorem enrollment_survives_restart_witness:
  "\<exists>st''. enrollment_load sample_crypto sample_store_codec True
     (es_file (snd (persist sample_store_codec True (enrollment_in_memory\<lparr>es_has_path := True\<rparr>)))) = Ok st'' \<and>
     map_of (agents st'') = Map.empty"
proof -
  let ?st = "enrollment_in_memory\<lparr>es_has_path := True\<rparr>"
  have "enrollment_inv sample_crypto ?st"
    by (simp add: enrollment_inv_def entries_ok_def enrollment_in_memory_def)
  from enrollment_survives_restart [OF sample_store_codec_ok this _ prod.collapse [symmetric]]
  show ?thesis by (simp add: enrollment_in_memory_def)
qed

end
