(* ===== verification/Replay_Cache.thy ===== *)
theory Replay_Cache
  imports Prelude "HOL-Library.Countable"
begin

text \<open>
  The replay cache of \<^verbatim>\<open>crates/identity/src/replay.rs\<close>: the in-memory reservation table, the
  journal that survives a restart, compaction and the capacity refusal. The journal's line
  format is serde's, so the encoder and decoder of a line are parameters; the outcome of
  every file operation is an input (\<open>io\<close>).
\<close>

section \<open>Model\<close>

type_synonym nonce_key = "string \<times> string"
type_synonym entry = "nonce_key \<times> int"

datatype reservation = Fresh | Duplicate | CapacityFull

definition is_fresh :: "reservation \<Rightarrow> bool" where
  "is_fresh r \<longleftrightarrow> r = Fresh"

datatype replay_cache_error = ReplayIo | ReplayCorrupt nat

text \<open>
  \<^verbatim>\<open>Inner\<close> and the fields of \<^verbatim>\<open>ReplayCache\<close>; \<open>persisted\<close> says whether there is a path, and
  \<open>disk\<close> holds the lines of the file at that path (\<open>None\<close>: no such file).
\<close>

record replay_cache =
  seen :: "(nonce_key \<times> int) list"
  insertion_order :: "entry list"
  journal_lines_written :: nat
  persisted :: bool
  max_journal_bytes :: nat
  disk :: "string list option"

record journal_codec =
  line_enc :: "entry \<Rightarrow> string option"
  line_dec :: "string \<Rightarrow> entry option"

record io_outcome =
  io_read :: bool
  io_create :: bool
  io_write :: bool
  io_rename :: bool
  io_append :: bool

definition default_max_journal_bytes :: nat where
  "default_max_journal_bytes = 16 * 1024 * 1024"

definition replay_in_memory :: replay_cache where
  "replay_in_memory = \<lparr>seen = [], insertion_order = [], journal_lines_written = 0,
     persisted = False, max_journal_bytes = default_max_journal_bytes, disk = None\<rparr>"

definition with_journal_cap :: "nat \<Rightarrow> replay_cache \<Rightarrow> replay_cache" where
  "with_journal_cap bytes c = c\<lparr>max_journal_bytes := bytes\<rparr>"

definition journal_len :: "string list option \<Rightarrow> nat" where
  "journal_len d = (case d of None \<Rightarrow> 0 | Some ls \<Rightarrow> sum_list (map (\<lambda>l. length l + 1) ls))"

definition count_lines :: "string list option \<Rightarrow> nat" where
  "count_lines d = (case d of None \<Rightarrow> 0 | Some ls \<Rightarrow> length ls)"

fun purge_expired :: "int \<Rightarrow> (nonce_key \<times> int) list \<Rightarrow> entry list \<Rightarrow> (nonce_key \<times> int) list \<times> entry list"
  where
  "purge_expired now sn [] = (sn, [])"
| "purge_expired now sn ((k, e) # order) =
     (if e > now then (sn, (k, e) # order) else purge_expired now (AList.delete k sn) order)"

fun encode_lines :: "journal_codec \<Rightarrow> entry list \<Rightarrow> string list option" where
  "encode_lines cd [] = Some []"
| "encode_lines cd (e # es) =
     (case line_enc cd e of None \<Rightarrow> None
      | Some l \<Rightarrow> (case encode_lines cd es of None \<Rightarrow> None | Some ls \<Rightarrow> Some (l # ls)))"

definition rewrite_journal :: "journal_codec \<Rightarrow> io_outcome \<Rightarrow> replay_cache \<Rightarrow> replay_cache" where
  "rewrite_journal cd io c =
     (if \<not> persisted c then c
      else if \<not> io_create io then c
      else (case encode_lines cd (insertion_order c) of
              None \<Rightarrow> c
            | Some ls \<Rightarrow>
                if io_write io \<and> io_rename io
                then c\<lparr>disk := Some ls, journal_lines_written := length (insertion_order c)\<rparr>
                else c))"

definition append_line :: "journal_codec \<Rightarrow> io_outcome \<Rightarrow> entry \<Rightarrow> replay_cache \<Rightarrow> replay_cache" where
  "append_line cd io e c =
     (if \<not> persisted c then c
      else (case line_enc cd e of
              None \<Rightarrow> c
            | Some l \<Rightarrow>
                if io_append io
                then c\<lparr>disk := Some ((case disk c of None \<Rightarrow> [] | Some ls \<Rightarrow> ls) @ [l])\<rparr>
                else c))"

text \<open>\<^verbatim>\<open>ReplayCache::open\<close>: the loop over the lines, then the compaction decision.\<close>

fun load_lines ::
    "journal_codec \<Rightarrow> int \<Rightarrow> nat \<Rightarrow> (nonce_key \<times> int) list \<Rightarrow> entry list \<Rightarrow> string list \<Rightarrow>
     (replay_cache_error, (nonce_key \<times> int) list \<times> entry list) result" where
  "load_lines cd now i sn order [] = Ok (sn, order)"
| "load_lines cd now i sn order (line # lines) =
     (if line = [] then load_lines cd now (Suc i) sn order lines
      else (case line_dec cd line of
              None \<Rightarrow> Err (ReplayCorrupt (Suc i))
            | Some (k, e) \<Rightarrow>
                if e > now
                then load_lines cd now (Suc i) (AList.update k e sn) (order @ [(k, e)]) lines
                else load_lines cd now (Suc i) sn order lines))"

definition replay_open ::
    "journal_codec \<Rightarrow> io_outcome \<Rightarrow> string list option \<Rightarrow> int \<Rightarrow> (replay_cache_error, replay_cache) result"
  where
  "replay_open cd io d now =
     (if \<not> io_read io then Err ReplayIo
      else (case load_lines cd now 0 [] [] (case d of None \<Rightarrow> [] | Some ls \<Rightarrow> ls) of
              Inl e \<Rightarrow> Err e
            | Inr (sn, order) \<Rightarrow>
                (let c = \<lparr>seen = sn, insertion_order = order, journal_lines_written = 0,
                          persisted = True, max_journal_bytes = default_max_journal_bytes, disk = d\<rparr>;
                     on_disk = count_lines d in
                 if on_disk > 1024 \<and> length sn * 2 < on_disk
                 then Ok ((rewrite_journal cd io c)\<lparr>journal_lines_written := 0\<rparr>)
                 else Ok (c\<lparr>journal_lines_written := on_disk\<rparr>))))"

definition check_and_reserve ::
    "journal_codec \<Rightarrow> io_outcome \<Rightarrow> replay_cache \<Rightarrow> nonce_key \<Rightarrow> int \<Rightarrow> int \<Rightarrow> reservation \<times> replay_cache"
  where
  "check_and_reserve cd io c k now retention =
     (let expires = sat_add_i64 now retention;
          (sn, order) = purge_expired now (seen c) (insertion_order c);
          c1 = c\<lparr>seen := sn, insertion_order := order\<rparr> in
      if map_of sn k \<noteq> None then (Duplicate, c1)
      else
        (let c2 = c1\<lparr>seen := AList.update k expires sn, insertion_order := order @ [(k, expires)],
                     journal_lines_written := journal_lines_written c1 + 1\<rparr>;
             due = (journal_lines_written c2 \<ge> 1024 \<and> length (seen c2) * 2 < journal_lines_written c2);
             journaled = (persisted c2 \<and> (journal_len (disk c2) > max_journal_bytes c2 \<or> due));
             c3 = (if journaled then rewrite_journal cd io c2 else c2) in
         if persisted c3 then
           (if journal_len (disk c3) > max_journal_bytes c3 then
              (CapacityFull, c3\<lparr>seen := AList.delete k (seen c3),
                                insertion_order := butlast (insertion_order c3)\<rparr>)
            else (Fresh, if journaled then c3 else append_line cd io (k, expires) c3))
         else (Fresh, c3)))"

definition live_entries :: "replay_cache \<Rightarrow> nat" where
  "live_entries c = length (seen c)"

section \<open>Specification\<close>

text \<open>
  The abstract guard: a finite map from keys to expiry instants. A reservation succeeds
  exactly when the key has no unexpired entry.
\<close>

definition unexpired :: "int \<Rightarrow> (nonce_key \<rightharpoonup> int) \<Rightarrow> (nonce_key \<rightharpoonup> int)" where
  "unexpired now m = (\<lambda>k. case m k of Some e \<Rightarrow> if e > now then Some e else None | None \<Rightarrow> None)"

definition abs_reserve ::
    "(nonce_key \<rightharpoonup> int) \<Rightarrow> nonce_key \<Rightarrow> int \<Rightarrow> int \<Rightarrow> reservation \<times> (nonce_key \<rightharpoonup> int)" where
  "abs_reserve m k now retention =
     (if unexpired now m k \<noteq> None then (Duplicate, unexpired now m)
      else (Fresh, (unexpired now m)(k \<mapsto> sat_add_i64 now retention)))"

text \<open>
  The representation invariant at clock reading \<open>t\<close>: the table and the queue hold the same
  entries, one per key, in the order of their expiry, and none expires later than a
  reservation made now would.
\<close>

definition replay_inv :: "int \<Rightarrow> int \<Rightarrow> replay_cache \<Rightarrow> bool" where
  "replay_inv retention t c \<longleftrightarrow>
     map_of (seen c) = map_of (insertion_order c) \<and>
     distinct (map fst (insertion_order c)) \<and>
     sorted (map snd (insertion_order c)) \<and>
     (\<forall>e \<in> snd ` set (insertion_order c). e \<le> sat_add_i64 t retention)"

text \<open>What the journal must still say at clock reading \<open>t\<close>: the unexpired entries, in order.\<close>

definition journal_inv :: "journal_codec \<Rightarrow> int \<Rightarrow> replay_cache \<Rightarrow> bool" where
  "journal_inv cd t c \<longleftrightarrow> persisted c \<and>
     (\<exists>es. encode_lines cd es = Some (case disk c of None \<Rightarrow> [] | Some ls \<Rightarrow> ls) \<and>
       filter (\<lambda>x. snd x > t) es = filter (\<lambda>x. snd x > t) (insertion_order c))"

definition codec_ok :: "journal_codec \<Rightarrow> bool" where
  "codec_ok cd \<longleftrightarrow> (\<forall>e. \<exists>l. line_enc cd e = Some l \<and> l \<noteq> [] \<and> line_dec cd l = Some e)"

definition all_io :: io_outcome where
  "all_io = \<lparr>io_read = True, io_create = True, io_write = True, io_rename = True, io_append = True\<rparr>"

text \<open>
  Any interleaving of reservations under a clock that does not run backwards; the inputs of
  the steps in between (keys, file outcomes) are arbitrary.
\<close>

inductive reserve_steps :: "('s \<Rightarrow> 'x \<Rightarrow> 'k \<Rightarrow> int \<Rightarrow> reservation \<times> 's) \<Rightarrow> int \<Rightarrow> 's \<Rightarrow> int \<Rightarrow> 's \<Rightarrow> bool"
  for reserve t s where
  start: "reserve_steps reserve t s t s"
| tick: "reserve_steps reserve t s t' s' \<Longrightarrow> t' \<le> t'' \<Longrightarrow> reserve_steps reserve t s t'' s'"
| call: "reserve_steps reserve t s t' s' \<Longrightarrow> t' \<le> now \<Longrightarrow>
    reserve_steps reserve t s now (snd (reserve s' x k now))"

text \<open>
  The same with daemon restarts, for runs in which the journal accepts its writes and no
  reservation is refused for capacity.
\<close>

inductive durable_steps ::
    "journal_codec \<Rightarrow> int \<Rightarrow> int \<Rightarrow> replay_cache \<Rightarrow> int \<Rightarrow> replay_cache \<Rightarrow> bool"
  for cd retention t s where
  d_wait: "t \<le> t' \<Longrightarrow> durable_steps cd retention t s t' s"
| d_call: "durable_steps cd retention t s t' s' \<Longrightarrow> t' \<le> now \<Longrightarrow>
    check_and_reserve cd all_io s' k now retention = (r, s'') \<Longrightarrow> r \<noteq> CapacityFull \<Longrightarrow>
    durable_steps cd retention t s now s''"
| d_restart: "durable_steps cd retention t s t' s' \<Longrightarrow> t' \<le> now \<Longrightarrow>
    replay_open cd all_io (disk s') now = Ok s'' \<Longrightarrow> durable_steps cd retention t s now s''"

section \<open>The guard as an interface\<close>

text \<open>
  What the attestation layer relies on: a reservation is fresh only for a key without an
  unexpired entry, it leaves an entry with the promised expiry, unexpired entries survive
  every call, and a key with such an entry is reported as a duplicate.
\<close>

locale replay_guard =
  fixes reserve :: "'s \<Rightarrow> 'x \<Rightarrow> 'k \<Rightarrow> int \<Rightarrow> reservation \<times> 's"
    and expiry_of :: "'s \<Rightarrow> 'k \<Rightarrow> int option"
    and good :: "int \<Rightarrow> 's \<Rightarrow> bool"
    and expiry :: "int \<Rightarrow> int"
  assumes good_reserve: "good t s \<Longrightarrow> t \<le> now \<Longrightarrow> good now (snd (reserve s x k now))"
    and good_later: "good t s \<Longrightarrow> t \<le> t' \<Longrightarrow> good t' s"
    and fresh_entry: "good t s \<Longrightarrow> t \<le> now \<Longrightarrow> fst (reserve s x k now) = Fresh \<Longrightarrow>
      expiry_of (snd (reserve s x k now)) k = Some (expiry now)"
    and keeps_entry: "good t s \<Longrightarrow> t \<le> now \<Longrightarrow> expiry_of s k' = Some e \<Longrightarrow> now < e \<Longrightarrow>
      expiry_of (snd (reserve s x k now)) k' = Some e"
    and duplicate_entry: "good t s \<Longrightarrow> t \<le> now \<Longrightarrow> expiry_of s k = Some e \<Longrightarrow> now < e \<Longrightarrow>
      fst (reserve s x k now) = Duplicate"
begin

lemma steps_time: "reserve_steps reserve t s t' s' \<Longrightarrow> t \<le> t'"
  by (induction rule: reserve_steps.induct) auto

lemma steps_keep:
  "reserve_steps reserve t s t' s' \<Longrightarrow> good t s \<Longrightarrow> expiry_of s k = Some e \<Longrightarrow> t' < e \<Longrightarrow>
   good t' s' \<and> expiry_of s' k = Some e"
proof (induction rule: reserve_steps.induct)
  case (tick t' s' t'')
  then show ?case using good_later by (meson order_le_less_trans)
next
  case (call t' s' now x k')
  then have "good t' s'" "expiry_of s' k = Some e" by (meson order_le_less_trans)+
  then show ?case using call good_reserve keeps_entry by blast
qed simp

lemma reserved_once:
  assumes "good t s" "t \<le> t1" "reserve s x k t1 = (Fresh, s1)"
    and "reserve_steps reserve t1 s1 t2 s2" "t2 \<le> now" "now < expiry t1"
  shows "fst (reserve s2 x' k now) = Duplicate"
proof -
  have "good t1 s1" "expiry_of s1 k = Some (expiry t1)"
    using assms(1-3) good_reserve [of t s t1 x k] fresh_entry [of t s t1 x k] by auto
  with assms(4-6) have "good t2 s2 \<and> expiry_of s2 k = Some (expiry t1)"
    using steps_keep by auto
  with assms(5,6) show ?thesis using duplicate_entry by blast
qed

end

section \<open>Purging\<close>

lemma sat_add_mono: "a \<le> b \<Longrightarrow> sat_add_i64 a r \<le> sat_add_i64 b r"
  by (simp add: sat_simps)

lemma purge_order_sorted:
  "sorted (map snd order) \<Longrightarrow> snd (purge_expired now sn order) = filter (\<lambda>x. snd x > now) order"
proof (induction now sn order rule: purge_expired.induct)
  case (2 now sn k e order)
  then have "\<forall>x \<in> set order. e \<le> snd x" by auto
  with 2 show ?case by (auto intro!: filter_True [symmetric])
qed simp

lemma purge_seen:
  "distinct (map fst order) \<Longrightarrow>
   map_of (fst (purge_expired now sn order)) k =
     (if k \<in> fst ` (set order - set (snd (purge_expired now sn order))) then None else map_of sn k)"
proof (induction now sn order rule: purge_expired.induct)
  case (2 now sn k' e order)
  have sub: "set (snd (purge_expired now s os)) \<subseteq> set os" for s os
    by (induction now s os rule: purge_expired.induct) auto
  show ?case
  proof (cases "e > now")
    case False
    with 2 have IH: "map_of (fst (purge_expired now (AList.delete k' sn) order)) k =
      (if k \<in> fst ` (set order - set (snd (purge_expired now (AList.delete k' sn) order)))
       then None else map_of (AList.delete k' sn) k)"
      by simp
    have "(k', e) \<notin> set (snd (purge_expired now (AList.delete k' sn) order))"
      using 2(2) sub [of "AList.delete k' sn" order] by (force simp: image_iff)
    then have "fst ` (set ((k', e) # order) - set (snd (purge_expired now (AList.delete k' sn) order))) =
        insert k' (fst ` (set order - set (snd (purge_expired now (AList.delete k' sn) order))))"
      by (auto simp: insert_Diff_if)
    with False IH show ?thesis by (auto simp: delete_conv')
  qed simp
qed simp

lemma replay_inv_purge:
  assumes "replay_inv retention t c" "t \<le> now"
    and "purge_expired now (seen c) (insertion_order c) = (sn, order)"
  shows "map_of sn = unexpired now (map_of (seen c))"
    and "order = filter (\<lambda>x. snd x > now) (insertion_order c)"
    and "replay_inv retention now (c\<lparr>seen := sn, insertion_order := order\<rparr>)"
proof -
  let ?os = "insertion_order c"
  have inv: "map_of (seen c) = map_of ?os" "distinct (map fst ?os)" "sorted (map snd ?os)"
    "\<forall>e \<in> snd ` set ?os. e \<le> sat_add_i64 t retention"
    using assms(1) by (auto simp: replay_inv_def)
  show order: "order = filter (\<lambda>x. snd x > now) ?os"
    using purge_order_sorted [OF inv(3), of now "seen c"] assms(3) by simp
  have "map_of sn k = (if k \<in> fst ` (set ?os - set order) then None else map_of ?os k)" for k
    using purge_seen [OF inv(2), of now "seen c" k] assms(3) inv(1) by simp
  moreover have "k \<in> fst ` (set ?os - set order) \<longleftrightarrow> (\<exists>e. map_of ?os k = Some e \<and> e \<le> now)" for k
    using inv(2) by (force simp: order map_of_eq_Some_iff)
  moreover have dist: "distinct (map fst order)"
    unfolding order using inv(2) by (rule distinct_map_filter)
  moreover have "map_of order k = Some e \<longleftrightarrow> unexpired now (map_of ?os) k = Some e" for k e
    using dist inv(2)
    by (auto simp: unexpired_def order map_of_eq_Some_iff split: option.splits
      dest: eq_key_imp_eq_value)
  then have mo: "map_of order = unexpired now (map_of ?os)" by (metis ext not_None_eq)
  ultimately show sn: "map_of sn = unexpired now (map_of (seen c))"
    unfolding inv(1) by (auto simp: unexpired_def fun_eq_iff split: option.splits)
  have "e \<le> sat_add_i64 now retention" if "e \<in> snd ` set order" for e
    using that inv(4) sat_add_mono [OF assms(2), of retention] by (fastforce simp: order)
  then show "replay_inv retention now (c\<lparr>seen := sn, insertion_order := order\<rparr>)"
    using dist mo sn inv(1,3) by (auto simp: replay_inv_def order sorted_filter)
qed

section \<open>Reserving\<close>

lemma rewrite_journal_fields [simp]:
  "seen (rewrite_journal cd io c) = seen c"
  "insertion_order (rewrite_journal cd io c) = insertion_order c"
  "persisted (rewrite_journal cd io c) = persisted c"
  "max_journal_bytes (rewrite_journal cd io c) = max_journal_bytes c"
  by (simp_all add: rewrite_journal_def split: option.split)

lemma append_line_fields [simp]:
  "seen (append_line cd io e c) = seen c"
  "insertion_order (append_line cd io e c) = insertion_order c"
  "persisted (append_line cd io e c) = persisted c"
  "max_journal_bytes (append_line cd io e c) = max_journal_bytes c"
  by (simp_all add: append_line_def split: option.split)

lemma replay_inv_cong:
  "seen c' = seen c \<Longrightarrow> insertion_order c' = insertion_order c \<Longrightarrow>
   replay_inv retention t c' = replay_inv retention t c"
  by (simp add: replay_inv_def)

lemma replay_inv_push:
  assumes "replay_inv retention now c" "map_of (seen c) k = None"
  shows "replay_inv retention now (c\<lparr>seen := AList.update k (sat_add_i64 now retention) (seen c),
    insertion_order := insertion_order c @ [(k, sat_add_i64 now retention)]\<rparr>)"
proof -
  have "k \<notin> fst ` set (insertion_order c)"
    using assms by (simp add: replay_inv_def map_of_eq_None_iff)
  then show ?thesis
    using assms
    by (auto simp: replay_inv_def update_conv' map_add_def fun_eq_iff sorted_append split: option.splits)
qed

text \<open>
  The shape of a reservation: what it does to the table and to the queue, whatever the
  journal does.
\<close>

lemma check_and_reserve_cases:
  assumes "check_and_reserve cd io c k now retention = (r, c')"
    and "purge_expired now (seen c) (insertion_order c) = (sn, order)"
  obtains (dup) "r = Duplicate" "map_of sn k \<noteq> None" "c' = c\<lparr>seen := sn, insertion_order := order\<rparr>"
  | (fresh) "r = Fresh" "map_of sn k = None"
      "seen c' = AList.update k (sat_add_i64 now retention) sn"
      "insertion_order c' = order @ [(k, sat_add_i64 now retention)]"
  | (full) "r = CapacityFull" "map_of sn k = None" "persisted c"
      "seen c' = AList.delete k (AList.update k (sat_add_i64 now retention) sn)"
      "insertion_order c' = order"
proof (cases "map_of sn k")
  case None
  then show thesis
    using assms fresh full
    by (auto simp: check_and_reserve_def Let_def split: if_splits)
next
  case (Some e)
  then show thesis using assms dup by (auto simp: check_and_reserve_def Let_def)
qed

lemma reserve_refines:
  assumes inv: "replay_inv retention t c" and mono: "t \<le> now"
    and res: "check_and_reserve cd io c k now retention = (r, c')"
  shows "replay_inv retention now c'"
    and "r \<noteq> CapacityFull \<Longrightarrow>
      (r, map_of (seen c')) = abs_reserve (map_of (seen c)) k now retention"
    and "r = CapacityFull \<Longrightarrow> persisted c \<and> unexpired now (map_of (seen c)) k = None \<and>
      map_of (seen c') = unexpired now (map_of (seen c))"
proof -
  obtain sn order where purge: "purge_expired now (seen c) (insertion_order c) = (sn, order)"
    by fastforce
  note P = replay_inv_purge [OF inv mono purge]
  have *: "replay_inv retention now c' \<and>
    (r \<noteq> CapacityFull \<longrightarrow> (r, map_of (seen c')) = abs_reserve (map_of (seen c)) k now retention) \<and>
    (r = CapacityFull \<longrightarrow> persisted c \<and> unexpired now (map_of (seen c)) k = None \<and>
      map_of (seen c') = unexpired now (map_of (seen c)))"
    using res purge
  proof (cases rule: check_and_reserve_cases)
    case dup
    then show ?thesis using P by (auto simp: abs_reserve_def)
  next
    case fresh
    have "replay_inv retention now c'"
      using replay_inv_push [OF P(3), of k] fresh by (simp add: replay_inv_def)
    then show ?thesis using P(1) fresh by (auto simp: abs_reserve_def update_conv')
  next
    case full
    have "map_of (seen c') = map_of sn"
      using full by (auto simp: update_conv' delete_conv' fun_eq_iff)
    moreover have "replay_inv retention now c'"
      using P(3) full calculation by (simp add: replay_inv_def)
    ultimately show ?thesis using P(1) full by auto
  qed
  then show "replay_inv retention now c'"
    and "r \<noteq> CapacityFull \<Longrightarrow>
      (r, map_of (seen c')) = abs_reserve (map_of (seen c)) k now retention"
    and "r = CapacityFull \<Longrightarrow> persisted c \<and> unexpired now (map_of (seen c)) k = None \<and>
      map_of (seen c') = unexpired now (map_of (seen c))"
    by blast+
qed

lemma replay_inv_later: "replay_inv retention t c \<Longrightarrow> t \<le> t' \<Longrightarrow> replay_inv retention t' c"
  by (auto simp: replay_inv_def intro: order_trans sat_add_mono)

interpretation guard: replay_guard "\<lambda>c io k now. check_and_reserve cd io c k now retention"
  "\<lambda>c. map_of (seen c)" "replay_inv retention" "\<lambda>now. sat_add_i64 now retention"
  for cd retention
proof
  fix t now e :: int and c io k k' t'
  assume inv: "replay_inv retention t c"
  show "replay_inv retention t' c" if "t \<le> t'" for t'
    using inv that by (rule replay_inv_later)
  assume mono: "t \<le> now"
  obtain r c' where res: "check_and_reserve cd io c k now retention = (r, c')" by fastforce
  note R = reserve_refines [OF inv mono res]
  show "replay_inv retention now (snd (check_and_reserve cd io c k now retention))"
    using R(1) res by simp
  show "map_of (seen (snd (check_and_reserve cd io c k now retention))) k =
      Some (sat_add_i64 now retention)"
    if "fst (check_and_reserve cd io c k now retention) = Fresh"
    using R(2) res that by (auto simp: abs_reserve_def split: if_splits)
  show "fst (check_and_reserve cd io c k now retention) = Duplicate"
    if "map_of (seen c) k = Some e" "now < e"
    using R(2,3) res that
    by (cases r) (auto simp: abs_reserve_def unexpired_def split: if_splits)
  show "map_of (seen (snd (check_and_reserve cd io c k now retention))) k' = Some e"
    if "map_of (seen c) k' = Some e" "now < e"
  proof (cases "r = CapacityFull")
    case True
    with R(3) res that show ?thesis by (simp add: unexpired_def)
  next
    case False
    with R(2) res that show ?thesis
      by (auto simp: abs_reserve_def unexpired_def split: if_splits)
  qed
qed

section \<open>Properties\<close>

text \<open>
  (C9) The replay cache refines the abstract guard: in every state that meets the invariant,
  a reservation that is not refused for capacity returns what the abstract map says and
  leaves the table equal to the abstract map, and the invariant holds again; a capacity
  refusal leaves the table as the purge left it. Compaction, journaling and file failures
  never change the answer.
\<close>

theorem reserve_refines_abstract:
  assumes "replay_inv retention t c" and "t \<le> now"
    and "check_and_reserve cd io c k now retention = (r, c')"
  shows "replay_inv retention now c' \<and>
    (if r = CapacityFull
     then persisted c \<and> unexpired now (map_of (seen c)) k = None \<and>
       map_of (seen c') = unexpired now (map_of (seen c))
     else (r, map_of (seen c')) = abs_reserve (map_of (seen c)) k now retention)"
  using reserve_refines [OF assms] by simp

definition sample_codec :: journal_codec where
  "sample_codec = \<lparr>line_enc = (\<lambda>e. Some (replicate (Suc (to_nat e)) CHR ''x'')),
     line_dec = (\<lambda>l. Some (from_nat (length l - 1)))\<rparr>"

lemma sample_codec_ok: "codec_ok sample_codec"
  by (simp add: codec_ok_def sample_codec_def)

lemma replay_inv_in_memory: "replay_inv retention t replay_in_memory"
  by (simp add: replay_inv_def replay_in_memory_def)

theorem reserve_refines_abstract_witness:
  "fst (abs_reserve Map.empty (''a'', ''n'') 100 90) = Fresh \<and>
   replay_inv 90 100 (snd (check_and_reserve sample_codec all_io replay_in_memory (''a'', ''n'') 100 90))"
proof -
  let ?res = "check_and_reserve sample_codec all_io replay_in_memory (''a'', ''n'') 100 90"
  have "?res = (fst ?res, snd ?res)" by simp
  from reserve_refines_abstract [OF replay_inv_in_memory order_refl this] show ?thesis
    by (simp add: abs_reserve_def unexpired_def)
qed

text \<open>
  A nonce is accepted at most once within its retention: after a fresh reservation, and
  after any sequence of other reservations, file failures and refusals under a clock that
  does not run backwards, the same key is reported as a duplicate until it expires.
\<close>

theorem nonce_reserved_once:
  assumes "replay_inv retention t c" and "t \<le> t1"
    and "check_and_reserve cd io c k t1 retention = (Fresh, c1)"
    and "reserve_steps (\<lambda>c io k now. check_and_reserve cd io c k now retention) t1 c1 t2 c2"
    and "t2 \<le> now" and "now < sat_add_i64 t1 retention"
  shows "fst (check_and_reserve cd io' c2 k now retention) = Duplicate"
  using assms by (rule guard.reserved_once)

theorem nonce_reserved_once_witness:
  "fst (check_and_reserve sample_codec all_io
     (snd (check_and_reserve sample_codec all_io replay_in_memory (''a'', ''n'') 100 90))
     (''a'', ''n'') 150 90) = Duplicate"
proof -
  let ?res = "check_and_reserve sample_codec all_io replay_in_memory (''a'', ''n'') 100 90"
  have fresh: "?res = (Fresh, snd ?res)"
    by (simp add: check_and_reserve_def replay_in_memory_def Let_def)
  have steps: "reserve_steps (\<lambda>c io k now. check_and_reserve sample_codec io c k now 90)
      100 (snd ?res) 150 (snd ?res)"
    by (rule reserve_steps.tick [OF reserve_steps.start]) simp
  show ?thesis
    by (rule nonce_reserved_once [OF replay_inv_in_memory order_refl fresh steps])
      (simp_all add: sat_simps)
qed

section \<open>Restarts\<close>

lemma encode_lines_append:
  "encode_lines cd es = Some ls \<Longrightarrow> line_enc cd e = Some l \<Longrightarrow> encode_lines cd (es @ [e]) = Some (ls @ [l])"
  by (induction es arbitrary: ls) (auto split: option.splits)

lemma encode_lines_total: "codec_ok cd \<Longrightarrow> \<exists>ls. encode_lines cd es = Some ls"
proof (induction es)
  case (Cons e es)
  then obtain l ls where "line_enc cd e = Some l" "encode_lines cd es = Some ls"
    unfolding codec_ok_def by blast
  then show ?case by simp
qed simp

lemma encode_lines_mem:
  "encode_lines cd es = Some ls \<Longrightarrow> e \<in> set es \<Longrightarrow> \<exists>l \<in> set ls. line_enc cd e = Some l"
  by (induction es arbitrary: ls) (auto split: option.splits)

lemma load_lines_encoded:
  assumes "codec_ok cd"
  shows "encode_lines cd es = Some ls \<Longrightarrow>
    load_lines cd now i sn order ls =
      Ok (fold (\<lambda>x. AList.update (fst x) (snd x)) (filter (\<lambda>x. snd x > now) es) sn,
          order @ filter (\<lambda>x. snd x > now) es)"
proof (induction es arbitrary: ls i sn order)
  case (Cons e es)
  from Cons.prems obtain l ls' where l: "line_enc cd e = Some l" "encode_lines cd es = Some ls'"
    "ls = l # ls'"
    by (auto split: option.splits)
  with assms have "l \<noteq> []" "line_dec cd l = Some e"
    unfolding codec_ok_def by (metis option.inject)+
  with l Cons.IH show ?case by (cases e) auto
qed simp

lemma map_of_filter_unexpired:
  assumes "distinct (map fst es)"
  shows "map_of (filter (\<lambda>x. snd x > now) es) = unexpired now (map_of es)"
proof
  fix k
  have "map_of (filter (\<lambda>x. snd x > now) es) k = Some e \<longleftrightarrow> unexpired now (map_of es) k = Some e" for e
    using assms distinct_map_filter [OF assms]
    by (auto simp: unexpired_def map_of_eq_Some_iff split: option.splits dest: eq_key_imp_eq_value)
  then show "map_of (filter (\<lambda>x. snd x > now) es) k = unexpired now (map_of es) k"
    by (metis not_None_eq)
qed

lemma filter_later: "t \<le> now \<Longrightarrow> filter (\<lambda>x. snd x > now) (filter (\<lambda>x. snd x > t) es) =
    filter (\<lambda>x. snd x > (now :: int)) es"
  by (induction es) auto

lemma journal_inv_later: "journal_inv cd t c \<Longrightarrow> t \<le> t' \<Longrightarrow> journal_inv cd t' c"
proof -
  assume "journal_inv cd t c" and t: "t \<le> t'"
  then obtain es where es: "persisted c"
      "encode_lines cd es = Some (case disk c of None \<Rightarrow> [] | Some ls \<Rightarrow> ls)"
      "filter (\<lambda>x. snd x > t) es = filter (\<lambda>x. snd x > t) (insertion_order c)"
    unfolding journal_inv_def by blast
  have "filter (\<lambda>x. snd x > t') es = filter (\<lambda>x. snd x > t') (insertion_order c)"
    using arg_cong [OF es(3), of "filter (\<lambda>x. snd x > t')"] by (simp only: filter_later [OF t])
  with es(1,2) show ?thesis unfolding journal_inv_def by blast
qed

lemma rewrite_journal_journaled:
  assumes "codec_ok cd" "persisted c" "io_create io" "io_write io" "io_rename io"
  obtains ls where "encode_lines cd (insertion_order c) = Some ls"
    "disk (rewrite_journal cd io c) = Some ls"
  using encode_lines_total [OF assms(1), of "insertion_order c"] assms
  by (auto simp: rewrite_journal_def)

lemma rewrite_journal_inv:
  assumes "codec_ok cd" "journal_inv cd t c"
  shows "journal_inv cd t (rewrite_journal cd io c)"
  using encode_lines_total [OF assms(1), of "insertion_order c"] assms(2)
  by (auto simp: journal_inv_def rewrite_journal_def)

text \<open>Opening the journal restores exactly the unexpired reservations.\<close>

lemma open_restores:
  assumes ok: "codec_ok cd" and j: "journal_inv cd t c" and inv: "replay_inv retention t c"
    and mono: "t \<le> now" and io: "io_read io"
  obtains c' where "replay_open cd io (disk c) now = Ok c'"
    "map_of (seen c') = unexpired now (map_of (seen c))"
    "replay_inv retention now c'" "journal_inv cd now c'"
proof -
  let ?lines = "case disk c of None \<Rightarrow> [] | Some ls \<Rightarrow> ls"
  let ?live = "filter (\<lambda>x. snd x > now) (insertion_order c)"
  obtain es where es: "encode_lines cd es = Some ?lines"
      "filter (\<lambda>x. snd x > now) es = ?live"
    using journal_inv_later [OF j mono] unfolding journal_inv_def by blast
  let ?sn = "fold (\<lambda>x. AList.update (fst x) (snd x)) ?live []"
  have load: "load_lines cd now 0 [] [] ?lines = Ok (?sn, ?live)"
    using load_lines_encoded [OF ok es(1), of now 0 "[]" "[]"] es(2) by simp
  have dist: "distinct (map fst (insertion_order c))" and seen: "map_of (seen c) = map_of (insertion_order c)"
    using inv by (auto simp: replay_inv_def)
  have dlive: "distinct (map fst ?live)" using dist by (rule distinct_map_filter)
  then have sn: "map_of ?sn = map_of ?live"
    by (simp add: map_of_fold_update map_of_rev_distinct)
  define c0 where "c0 = \<lparr>seen = ?sn, insertion_order = ?live, journal_lines_written = 0,
    persisted = True, max_journal_bytes = default_max_journal_bytes, disk = disk c\<rparr>"
  have inv0: "replay_inv retention now c0"
    using inv replay_inv_later [OF inv mono] dlive sn
    by (auto simp: replay_inv_def c0_def sorted_filter)
  have j0: "journal_inv cd now c0"
    using es by (auto simp: journal_inv_def c0_def intro!: exI [of _ es])
  have seen0: "map_of (seen c0) = unexpired now (map_of (seen c))"
    using sn dist seen by (simp add: c0_def map_of_filter_unexpired)
  define big where "big \<longleftrightarrow> count_lines (disk c) > 1024 \<and> length ?sn * 2 < count_lines (disk c)"
  define c' where "c' = (if big then (rewrite_journal cd io c0)\<lparr>journal_lines_written := 0\<rparr>
    else c0\<lparr>journal_lines_written := count_lines (disk c)\<rparr>)"
  have c': "replay_open cd io (disk c) now = Ok c'"
    using io load by (simp add: replay_open_def Let_def c0_def c'_def big_def)
  have eq: "c' = (rewrite_journal cd io c0)\<lparr>journal_lines_written := 0\<rparr> \<or>
      c' = c0\<lparr>journal_lines_written := count_lines (disk c)\<rparr>"
    by (simp add: c'_def)
  have "seen c' = seen c0" "insertion_order c' = insertion_order c0" using eq by auto
  moreover have "journal_inv cd now c'"
    using eq j0 rewrite_journal_inv [OF ok j0, of io] by (auto simp: journal_inv_def)
  ultimately show thesis
    using that c' seen0 inv0 by (simp add: replay_inv_def)
qed

lemma reserve_journal_inv:
  assumes ok: "codec_ok cd" and j: "journal_inv cd t c" and inv: "replay_inv retention t c"
    and mono: "t \<le> now"
    and res: "check_and_reserve cd all_io c k now retention = (r, c')" and r: "r \<noteq> CapacityFull"
  shows "journal_inv cd now c'"
proof -
  obtain sn order where purge: "purge_expired now (seen c) (insertion_order c) = (sn, order)"
    by fastforce
  have order: "order = filter (\<lambda>x. snd x > now) (insertion_order c)"
    by (rule replay_inv_purge [OF inv mono purge])
  define c1 where "c1 = c\<lparr>seen := sn, insertion_order := order\<rparr>"
  have j1: "journal_inv cd now c1"
    using journal_inv_later [OF j mono] by (simp add: journal_inv_def c1_def order)
  show ?thesis
  proof (cases "map_of sn k")
    case (Some e)
    with res purge have "c' = c1" by (auto simp: check_and_reserve_def Let_def c1_def)
    with j1 show ?thesis by simp
  next
    case None
    let ?e = "(k, sat_add_i64 now retention)"
    define c2 where "c2 = c1\<lparr>seen := AList.update k (snd ?e) sn, insertion_order := order @ [?e],
      journal_lines_written := journal_lines_written c1 + 1\<rparr>"
    have c2: "insertion_order c2 = order @ [?e]" "persisted c2" "disk c2 = disk c1"
      using j by (auto simp: c2_def c1_def journal_inv_def)
    have "c' = rewrite_journal cd all_io c2 \<or> c' = append_line cd all_io ?e c2"
      using res purge None c2(2) r
      by (auto simp: check_and_reserve_def Let_def c1_def c2_def split: if_splits)
    then show ?thesis
    proof
      assume c': "c' = rewrite_journal cd all_io c2"
      obtain ls where "encode_lines cd (insertion_order c2) = Some ls" "disk c' = Some ls"
        unfolding c' by (rule rewrite_journal_journaled [OF ok c2(2)]) (auto simp: all_io_def)
      then show ?thesis using c2 c' by (auto simp: journal_inv_def)
    next
      assume c': "c' = append_line cd all_io ?e c2"
      obtain es where es: "encode_lines cd es = Some (case disk c1 of None \<Rightarrow> [] | Some ls \<Rightarrow> ls)"
          "filter (\<lambda>x. snd x > now) es = filter (\<lambda>x. snd x > now) order"
        using j1 by (auto simp: journal_inv_def c1_def)
      obtain l where l: "line_enc cd ?e = Some l" using ok unfolding codec_ok_def by blast
      with encode_lines_append [OF es(1) l] es(2) c2 c' show ?thesis
        by (auto simp: journal_inv_def append_line_def all_io_def intro!: exI [of _ "es @ [?e]"])
    qed
  qed
qed

lemma durable_keep:
  assumes "durable_steps cd retention t s t' s'"
    and "codec_ok cd" "replay_inv retention t s" "journal_inv cd t s"
  shows "t \<le> t' \<and> replay_inv retention t' s' \<and> journal_inv cd t' s' \<and>
    (\<forall>k e. map_of (seen s) k = Some e \<and> t' < e \<longrightarrow> map_of (seen s') k = Some e)"
  using assms
proof (induction rule: durable_steps.induct)
  case (d_wait t')
  then show ?case using replay_inv_later journal_inv_later by blast
next
  case (d_call t' s' now k r s'')
  then have IH: "t \<le> t'" "replay_inv retention t' s'" "journal_inv cd t' s'"
    "\<forall>k e. map_of (seen s) k = Some e \<and> t' < e \<longrightarrow> map_of (seen s') k = Some e"
    by auto
  have "map_of (seen s'') k' = Some e" if "map_of (seen s') k' = Some e" "now < e" for k' e
    using guard.keeps_entry [OF IH(2) d_call(2) that, of cd all_io k] d_call(3) by simp
  moreover have "replay_inv retention now s''" "journal_inv cd now s''"
    using reserve_refines(1) [OF IH(2) d_call(2,3)] reserve_journal_inv [OF d_call(6) IH(3,2) d_call(2,3,4)]
    by auto
  moreover have "map_of (seen s') k' = Some e" if "map_of (seen s) k' = Some e" "now < e" for k' e
    using IH(4) that d_call(2) by (meson order_le_less_trans)
  ultimately show ?case using IH(1) d_call(2) by (meson order_trans)
next
  case (d_restart t' s' now s'')
  then have IH: "t \<le> t'" "replay_inv retention t' s'" "journal_inv cd t' s'"
    "\<forall>k e. map_of (seen s) k = Some e \<and> t' < e \<longrightarrow> map_of (seen s') k = Some e"
    by auto
  obtain c' where "replay_open cd all_io (disk s') now = Ok c'"
    "map_of (seen c') = unexpired now (map_of (seen s'))"
    "replay_inv retention now c'" "journal_inv cd now c'"
    by (rule open_restores [OF d_restart(5) IH(3,2) d_restart(2)]) (auto simp: all_io_def)
  moreover have "unexpired now (map_of (seen s')) k = Some e"
    if "map_of (seen s) k = Some e" "now < e" for k e
  proof -
    have "map_of (seen s') k = Some e" using IH(4) that d_restart(2) by (meson order_le_less_trans)
    with that(2) show ?thesis by (simp add: unexpired_def)
  qed
  ultimately show ?case using IH(1) d_restart(2,3) by (metis order_trans sum.inject(2))
qed


definition sample_persisted :: replay_cache where
  "sample_persisted = replay_in_memory\<lparr>persisted := True\<rparr>"

lemma sample_persisted_ok:
  "replay_inv retention t sample_persisted" "journal_inv cd t sample_persisted"
  by (auto simp: sample_persisted_def replay_inv_def journal_inv_def replay_in_memory_def
    intro!: exI [of _ "[]"])


section \<open>The capacity refusal\<close>

lemma capacity_full_journaled:
  assumes ok: "codec_ok cd" and inv: "replay_inv retention t c" and mono: "t \<le> now"
    and res: "check_and_reserve cd all_io c k now retention = (CapacityFull, c')"
  shows "\<exists>ls. disk c' = Some ls \<and>
    encode_lines cd (filter (\<lambda>x. snd x > now) (insertion_order c) @ [(k, sat_add_i64 now retention)]) = Some ls"
proof -
  obtain sn order where purge: "purge_expired now (seen c) (insertion_order c) = (sn, order)"
    by fastforce
  have order: "order = filter (\<lambda>x. snd x > now) (insertion_order c)"
    by (rule replay_inv_purge [OF inv mono purge])
  let ?e = "(k, sat_add_i64 now retention)"
  define c2 where "c2 = c\<lparr>seen := AList.update k (snd ?e) sn, insertion_order := order @ [?e],
    journal_lines_written := journal_lines_written c + 1\<rparr>"
  have p: "persisted c2"
    using reserve_refines(3) [OF inv mono res] by (simp add: c2_def)
  have c': "disk c' = disk (rewrite_journal cd all_io c2)"
    using res purge p
    by (auto simp: check_and_reserve_def Let_def c2_def split: if_splits)
  obtain ls where "encode_lines cd (insertion_order c2) = Some ls"
      "disk (rewrite_journal cd all_io c2) = Some ls"
    by (rule rewrite_journal_journaled [OF ok p]) (auto simp: all_io_def)
  with c' order show ?thesis by (simp add: c2_def)
qed

text \<open>
  The comment on the capacity rollback says that nothing was appended for a refused
  reservation; the compaction that runs before the refusal has already written it. With
  working files, a restart therefore loads the refused key as reserved, and a retry of the
  refused intent is turned away as a replay until the entry expires.
\<close>

theorem capacity_refusal_is_journaled:
  assumes "codec_ok cd" and "replay_inv retention t c" and "t \<le> now"
    and "check_and_reserve cd all_io c k now retention = (CapacityFull, c')"
    and "now < sat_add_i64 now retention"
  shows "map_of (seen c') k = None \<and>
    (\<exists>c''. replay_open cd all_io (disk c') now = Ok c'' \<and>
       map_of (seen c'') k = Some (sat_add_i64 now retention))"
proof -
  let ?es = "filter (\<lambda>x. snd x > now) (insertion_order c) @ [(k, sat_add_i64 now retention)]"
  obtain ls where ls: "disk c' = Some ls" "encode_lines cd ?es = Some ls"
    using capacity_full_journaled [OF assms(1-4)] by blast
  have k: "unexpired now (map_of (seen c)) k = None"
    and k': "map_of (seen c') k = None"
    using reserve_refines(3) [OF assms(2-4)] by auto
  let ?sn = "fold (\<lambda>x. AList.update (fst x) (snd x)) (filter (\<lambda>x. snd x > now) ?es) []"
  have "load_lines cd now 0 [] [] ls = Ok (?sn, filter (\<lambda>x. snd x > now) ?es)"
    using load_lines_encoded [OF assms(1) ls(2), of now 0 "[]" "[]"] by simp
  moreover have "map_of ?sn k = Some (sat_add_i64 now retention)"
    using assms(5) by (simp add: update_conv')
  ultimately have "\<exists>c''. replay_open cd all_io (disk c') now = Ok c'' \<and> map_of (seen c'') k =
      Some (sat_add_i64 now retention)"
    using ls(1) by (simp add: replay_open_def Let_def all_io_def)
  with k' show ?thesis by blast
qed

definition sample_full :: replay_cache where
  "sample_full = sample_persisted\<lparr>max_journal_bytes := 0, disk := Some [''x'']\<rparr>"

theorem capacity_refusal_is_journaled_witness:
  "\<exists>c' c''. check_and_reserve sample_codec all_io sample_full (''a'', ''n'') 100 90 = (CapacityFull, c') \<and>
     replay_open sample_codec all_io (disk c') 100 = Ok c'' \<and>
     map_of (seen c'') (''a'', ''n'') = Some 190"
proof -
  let ?res = "check_and_reserve sample_codec all_io sample_full (''a'', ''n'') 100 90"
  have full: "?res = (CapacityFull, snd ?res)"
    by (simp add: check_and_reserve_def sample_full_def sample_persisted_def replay_in_memory_def Let_def
      journal_len_def rewrite_journal_def all_io_def sample_codec_def)
  have "replay_inv 90 100 sample_full"
    by (simp add: replay_inv_def sample_full_def sample_persisted_def replay_in_memory_def)
  from capacity_refusal_is_journaled [OF sample_codec_ok this order_refl full] full show ?thesis
    by (auto simp: sat_simps)
qed

end
