(* ===== verification/Attestation.thy ===== *)
theory Attestation
  imports Protocol Enrollment Replay_Cache
begin

text \<open>
  The verification sequence of \<^verbatim>\<open>crates/identity/src/lib.rs\<close>: version gate, agent resolution,
  freshness, nonce reservation, signature. Instants are nanoseconds since the epoch, as the
  \<^verbatim>\<open>time\<close> crate keeps them; its RFC 3339 parser is a parameter.
\<close>

section \<open>Model\<close>

datatype identity_error =
    UnsupportedVersion string
  | UnknownAgentId string
  | ReplayDetected string
  | BadSignatureError

fun identity_error_code :: "identity_error \<Rightarrow> error_code" where
  "identity_error_code (UnsupportedVersion _) = Version"
| "identity_error_code (UnknownAgentId _) = UnknownAgent"
| "identity_error_code (ReplayDetected _) = Replay"
| "identity_error_code BadSignatureError = BadSignature"

text \<open>\<open>debug\<close> is Rust's quoting of a string by \<^verbatim>\<open>{:?}\<close>.\<close>

fun identity_reason :: "(string \<Rightarrow> string) \<Rightarrow> identity_error \<Rightarrow> string" where
  "identity_reason debug (UnsupportedVersion v) = ''unsupported protocol version '' @ debug v"
| "identity_reason debug (UnknownAgentId a) = ''agent '' @ a @ '' is not enrolled''"
| "identity_reason debug (ReplayDetected why) = ''freshness check failed: '' @ why"
| "identity_reason debug BadSignatureError = ''signature did not verify''"

record verified_intent =
  v_agent_id :: string
  v_envelope :: json
  v_issued_at :: int
  v_nonce :: string

record attestor =
  enrollment :: enrollment_store
  replay :: replay_cache
  max_skew_secs :: int

text \<open>The third-party functions the sequence calls.\<close>

record attest_env =
  ae_crypto :: crypto
  ae_codec :: journal_codec
  ae_rfc3339 :: "string \<Rightarrow> int option"

definition default_max_skew_secs :: int where
  "default_max_skew_secs = 30"

definition attestor_new :: "enrollment_store \<Rightarrow> replay_cache \<Rightarrow> int \<Rightarrow> attestor" where
  "attestor_new es rc skew = \<lparr>enrollment = es, replay = rc, max_skew_secs = skew\<rparr>"

definition attestor_sponsor_id :: "attestor \<Rightarrow> string \<Rightarrow> string option" where
  "attestor_sponsor_id at agent_id = sponsor_id_of (enrollment at) agent_id"

definition check_version :: "string option \<Rightarrow> (identity_error, unit) result" where
  "check_version version =
     (case version of
        None \<Rightarrow> Err (UnsupportedVersion ''<missing>'')
      | Some v \<Rightarrow>
          (case split_on CHR ''.'' v of
             [major, _] \<Rightarrow> if major = ''0'' then Ok () else Err (UnsupportedVersion v)
           | _ \<Rightarrow> Err (UnsupportedVersion v)))"

definition nanos :: int where
  "nanos = 1000000000"

text \<open>\<^verbatim>\<open>Duration::whole_seconds\<close> truncates towards zero; \<^verbatim>\<open>unix_timestamp\<close> rounds down.\<close>

definition whole_seconds :: "int \<Rightarrow> int" where
  "whole_seconds d = (if d \<ge> 0 then d div nanos else - ((- d) div nanos))"

definition unix_timestamp :: "int \<Rightarrow> int" where
  "unix_timestamp t = t div nanos"

definition check_freshness ::
    "(string \<Rightarrow> int option) \<Rightarrow> string option \<Rightarrow> int \<Rightarrow> int \<Rightarrow> (identity_error, int) result" where
  "check_freshness rfc3339 issued_at now skew =
     (case issued_at of
        None \<Rightarrow> Err (ReplayDetected ''missing issued_at'')
      | Some raw \<Rightarrow>
          (case rfc3339 raw of
             None \<Rightarrow> Err (ReplayDetected ''issued_at is not RFC 3339'')
           | Some parsed \<Rightarrow>
               if \<bar>whole_seconds (now - parsed)\<bar> > skew
               then Err (ReplayDetected ''issued_at outside allowed skew'')
               else Ok parsed))"

definition retention_of :: "attestor \<Rightarrow> int" where
  "retention_of at = sat_mul_i64 (max_skew_secs at) 3"

text \<open>Step 3, after the nonce is reserved.\<close>

definition check_signature :: "crypto \<Rightarrow> bytes \<Rightarrow> json \<Rightarrow> bool" where
  "check_signature c key message =
     (case get_str message ''sig'' of
        None \<Rightarrow> False
      | Some encoded \<Rightarrow>
          (case decode_signature c encoded of
             None \<Rightarrow> False
           | Some sig \<Rightarrow>
               length sig = 64 \<and>
               (case canonical_form c message of
                  Inl _ \<Rightarrow> False
                | Inr canonical \<Rightarrow> ed_verify c key canonical sig)))"

definition verify ::
    "attest_env \<Rightarrow> io_outcome \<Rightarrow> attestor \<Rightarrow> json \<Rightarrow> int \<Rightarrow>
     (identity_error, verified_intent) result \<times> replay_cache" where
  "verify env io at message now =
     (if as_object message = None then (Err BadSignatureError, replay at)
      else (case check_version (get_str message ''chaperone'') of
        Inl e \<Rightarrow> (Err e, replay at)
      | Inr _ \<Rightarrow>
        (case get_str message ''agent_id'' of
           None \<Rightarrow> (Err (UnknownAgentId ''<unnamed>''), replay at)
         | Some agent_id \<Rightarrow>
           if agent_id = [] then (Err (UnknownAgentId ''<unnamed>''), replay at)
           else (case lookup (enrollment at) agent_id of
             None \<Rightarrow> (Err (UnknownAgentId agent_id), replay at)
           | Some key \<Rightarrow>
             (case check_freshness (ae_rfc3339 env) (get_str message ''issued_at'') now (max_skew_secs at) of
                Inl e \<Rightarrow> (Err e, replay at)
              | Inr issued_at \<Rightarrow>
                (case get_str message ''nonce'' of
                   None \<Rightarrow> (Err (ReplayDetected ''missing nonce''), replay at)
                 | Some nonce \<Rightarrow>
                   if nonce = [] then (Err (ReplayDetected ''missing nonce''), replay at)
                   else (case check_and_reserve (ae_codec env) io (replay at) (agent_id, nonce)
                                (unix_timestamp now) (retention_of at) of
                     (Duplicate, rc) \<Rightarrow> (Err (ReplayDetected ''nonce already used''), rc)
                   | (CapacityFull, rc) \<Rightarrow> (Err (ReplayDetected ''replay cache at capacity''), rc)
                   | (Fresh, rc) \<Rightarrow>
                       if check_signature (ae_crypto env) key message
                       then (Ok \<lparr>v_agent_id = agent_id, v_envelope = message,
                                 v_issued_at = issued_at, v_nonce = nonce\<rparr>, rc)
                       else (Err BadSignatureError, rc))))))))"

section \<open>Specification\<close>

text \<open>The agent's side: what a correct client sends.\<close>

definition sign_message :: "crypto \<Rightarrow> bytes \<Rightarrow> (string \<times> json) list \<Rightarrow> json" where
  "sign_message c sk kvs = JObj (obj_insert ''sig''
     (JStr (encode_signature c (ed_sign c sk (case canonical_form c (JObj kvs) of Inr b \<Rightarrow> b | Inl _ \<Rightarrow> []))))
     kvs)"

text \<open>Everything an accepted message must satisfy, in no particular order.\<close>

definition acceptable :: "attest_env \<Rightarrow> io_outcome \<Rightarrow> attestor \<Rightarrow> json \<Rightarrow> int \<Rightarrow> verified_intent \<Rightarrow> bool" where
  "acceptable env io at message now v \<longleftrightarrow>
     v_envelope v = message \<and> as_object message \<noteq> None \<and>
     (\<exists>minor. CHR ''.'' \<notin> set minor \<and> get_str message ''chaperone'' = Some (''0.'' @ minor)) \<and>
     get_str message ''agent_id'' = Some (v_agent_id v) \<and> v_agent_id v \<noteq> [] \<and>
     get_str message ''nonce'' = Some (v_nonce v) \<and> v_nonce v \<noteq> [] \<and>
     (\<exists>raw. get_str message ''issued_at'' = Some raw \<and> ae_rfc3339 env raw = Some (v_issued_at v)) \<and>
     \<bar>now - v_issued_at v\<bar> < (max_skew_secs at + 1) * nanos \<and>
     fst (check_and_reserve (ae_codec env) io (replay at) (v_agent_id v, v_nonce v)
       (unix_timestamp now) (retention_of at)) = Fresh \<and>
     (\<exists>key. lookup (enrollment at) (v_agent_id v) = Some key \<and>
       check_signature (ae_crypto env) key message)"

text \<open>
  Any history of the attestor between two instants: verifications of arbitrary messages and
  arbitrary operator changes to the enrollment store, under a clock that does not run
  backwards.
\<close>

inductive attestor_steps :: "attest_env \<Rightarrow> int \<Rightarrow> attestor \<Rightarrow> int \<Rightarrow> attestor \<Rightarrow> bool"
  for env t at where
  a_wait: "t \<le> t' \<Longrightarrow> attestor_steps env t at t' at"
| a_verify: "attestor_steps env t at t' at' \<Longrightarrow> t' \<le> now \<Longrightarrow>
    attestor_steps env t at now (at'\<lparr>replay := snd (verify env io at' message now)\<rparr>)"
| a_operator: "attestor_steps env t at t' at' \<Longrightarrow> attestor_steps env t at t' (at'\<lparr>enrollment := es\<rparr>)"

text \<open>The range of \<^verbatim>\<open>OffsetDateTime\<close> is far inside 62 bits of seconds.\<close>

definition clock_ok :: "int \<Rightarrow> bool" where
  "clock_ok now \<longleftrightarrow> \<bar>unix_timestamp now\<bar> < 2 ^ 62"

section \<open>The version gate and the clock\<close>

lemma check_version_Ok:
  "check_version v = Ok () \<longleftrightarrow> (\<exists>minor. CHR ''.'' \<notin> set minor \<and> v = Some (''0.'' @ minor))"
proof (cases v)
  case (Some s)
  have "check_version (Some s) = Ok () \<longleftrightarrow> (\<exists>minor. split_on CHR ''.'' s = [''0'', minor])"
    by (auto simp: check_version_def split: list.splits)
  moreover have "split_on CHR ''.'' s = [''0'', minor] \<longleftrightarrow> CHR ''.'' \<notin> set minor \<and> s = ''0.'' @ minor" for minor
  proof
    assume split: "split_on CHR ''.'' s = [''0'', minor]"
    then show "CHR ''.'' \<notin> set minor \<and> s = ''0.'' @ minor"
      using join_with_split_on [of "CHR ''.''" s] split_on_parts [of minor "CHR ''.''" s] by simp
  next
    assume "CHR ''.'' \<notin> set minor \<and> s = ''0.'' @ minor"
    then show "split_on CHR ''.'' s = [''0'', minor]" by (simp add: split_on_no_sep)
  qed
  ultimately show ?thesis using Some by auto
qed (simp add: check_version_def)

lemma whole_seconds_bound: "\<bar>whole_seconds d\<bar> \<le> skew \<longleftrightarrow> \<bar>d\<bar> < (skew + 1) * nanos"
proof -
  have "\<bar>whole_seconds d\<bar> = \<bar>d\<bar> div nanos"
    by (auto simp: whole_seconds_def nanos_def div_int_pos_iff)
  moreover have "\<bar>d\<bar> div nanos \<le> skew \<longleftrightarrow> \<bar>d\<bar> < (skew + 1) * nanos"
    by (simp add: nanos_def) linarith
  ultimately show ?thesis by simp
qed

lemma check_freshness_Ok:
  "check_freshness rfc3339 issued now skew = Ok at \<longleftrightarrow>
     (\<exists>raw. issued = Some raw \<and> rfc3339 raw = Some at) \<and> \<bar>now - at\<bar> < (skew + 1) * nanos"
  using whole_seconds_bound [of "now - at" skew]
  by (auto simp: check_freshness_def not_less split: option.splits if_splits)

section \<open>Acceptance\<close>

lemma verify_replay:
  "snd (verify env io at message now) = replay at \<or>
   (\<exists>k. snd (verify env io at message now) =
      snd (check_and_reserve (ae_codec env) io (replay at) k (unix_timestamp now) (retention_of at)))"
  unfolding verify_def
  by (auto split: option.splits sum.splits prod.splits reservation.splits) (metis snd_conv)+

lemma verify_Ok_iff: "fst (verify env io at message now) = Ok v \<longleftrightarrow> acceptable env io at message now v"
  using check_version_Ok [of "get_str message ''chaperone''"]
    check_freshness_Ok [of "ae_rfc3339 env" "get_str message ''issued_at''" now "max_skew_secs at"]
  unfolding verify_def acceptable_def
  by (cases v) (auto split: option.splits sum.splits prod.splits reservation.splits if_splits)

text \<open>
  (C2) A message is accepted exactly when all of the following hold: it is an object of a
  supported version, it names an enrolled and unrevoked agent, its issue time lies within the
  skew of now, its nonce is fresh for that agent, and its 64-byte signature verifies under the
  enrolled key over the canonical form of every field but \<^verbatim>\<open>sig\<close>. Nothing else is needed,
  and nothing less suffices.
\<close>

theorem verify_accepts_iff: "fst (verify env io at message now) = Ok v \<longleftrightarrow> acceptable env io at message now v"
  by (rule verify_Ok_iff)

lemma verify_Ok_replay:
  assumes "verify env io at message now = (Ok v, rc)"
  shows "check_and_reserve (ae_codec env) io (replay at) (v_agent_id v, v_nonce v)
    (unix_timestamp now) (retention_of at) = (Fresh, rc)"
  using assms unfolding verify_def
  by (auto split: option.splits sum.splits prod.splits reservation.splits if_splits)

section \<open>At most once\<close>

lemma unix_timestamp_mono: "t \<le> t' \<Longrightarrow> unix_timestamp t \<le> unix_timestamp t'"
  by (simp add: unix_timestamp_def nanos_def zdiv_mono1)

lemma attestor_steps_reserve:
  "attestor_steps env t at t' at' \<Longrightarrow>
   max_skew_secs at' = max_skew_secs at \<and>
   reserve_steps (\<lambda>c io k now. check_and_reserve (ae_codec env) io c k now (retention_of at))
     (unix_timestamp t) (replay at) (unix_timestamp t') (replay at')"
proof (induction rule: attestor_steps.induct)
  case (a_wait t')
  then show ?case by (auto intro: reserve_steps.tick [OF reserve_steps.start] unix_timestamp_mono)
next
  case (a_verify t' at' now io message)
  let ?R = "\<lambda>c io k now. check_and_reserve (ae_codec env) io c k now (retention_of at)"
  from a_verify have IH: "retention_of at' = retention_of at"
      "reserve_steps ?R (unix_timestamp t) (replay at) (unix_timestamp t') (replay at')"
      "unix_timestamp t' \<le> unix_timestamp now"
    by (auto simp: retention_of_def unix_timestamp_mono)
  have "reserve_steps ?R (unix_timestamp t) (replay at) (unix_timestamp now) (replay at')"
    by (rule reserve_steps.tick [OF IH(2,3)])
  moreover have "reserve_steps ?R (unix_timestamp t) (replay at) (unix_timestamp now)
      (snd (?R (replay at') io k (unix_timestamp now)))" for k
    by (rule reserve_steps.call [OF IH(2,3)])
  ultimately show ?case
    using verify_replay [of env io at' message now] a_verify IH(1) by auto
qed auto

text \<open>The retention outlasts the window in which one message can be fresh twice.\<close>

lemma retention_covers_window:
  assumes "3 \<le> skew" "clock_ok now1" "clock_ok now2"
    and "\<bar>now1 - iss\<bar> < (skew + 1) * nanos" "\<bar>now2 - iss\<bar> < (skew + 1) * nanos"
  shows "unix_timestamp now2 < sat_add_i64 (unix_timestamp now1) (sat_mul_i64 skew 3)"
proof -
  have "now2 < now1 + 2 * (skew + 1) * nanos" using assms(4,5) by linarith
  then have "unix_timestamp now2 \<le> unix_timestamp now1 + 2 * (skew + 1)"
    by (simp add: unix_timestamp_def nanos_def)
  then show ?thesis using assms(1-3) by (auto simp: sat_simps clock_ok_def min_def max_def abs_less_iff)
qed

lemma no_second_acceptance:
  assumes "replay_inv (retention_of at) t (replay at)" and "t \<le> unix_timestamp now1"
    and "3 \<le> max_skew_secs at" and "clock_ok now1" and "clock_ok now2"
    and "verify env io1 at m1 now1 = (Ok v1, rc1)"
    and "attestor_steps env now1 (at\<lparr>replay := rc1\<rparr>) t2 at2" and "t2 \<le> now2"
    and "v_agent_id v2 = v_agent_id v1" and "v_nonce v2 = v_nonce v1"
    and "v_issued_at v2 = v_issued_at v1"
  shows "fst (verify env io2 at2 m2 now2) \<noteq> Ok v2"
proof
  assume acc2: "fst (verify env io2 at2 m2 now2) = Ok v2"
  let ?R = "\<lambda>c io k now. check_and_reserve (ae_codec env) io c k now (retention_of at)"
  let ?k = "(v_agent_id v1, v_nonce v1)"
  have skew: "max_skew_secs at2 = max_skew_secs at"
    and steps: "reserve_steps ?R (unix_timestamp now1) rc1 (unix_timestamp t2) (replay at2)"
    using attestor_steps_reserve [OF assms(7)] by (auto simp: retention_of_def)
  have fresh1: "check_and_reserve (ae_codec env) io1 (replay at) ?k (unix_timestamp now1) (retention_of at) =
      (Fresh, rc1)"
    using assms(6) by (rule verify_Ok_replay)
  have "acceptable env io1 at m1 now1 v1" "acceptable env io2 at2 m2 now2 v2"
    using acc2 assms(6) by (auto simp flip: verify_Ok_iff)
  then have "\<bar>now1 - v_issued_at v1\<bar> < (max_skew_secs at + 1) * nanos"
    "\<bar>now2 - v_issued_at v1\<bar> < (max_skew_secs at + 1) * nanos"
    and fresh2: "fst (?R (replay at2) io2 ?k (unix_timestamp now2)) = Fresh"
    using assms(9-11) skew by (auto simp: acceptable_def retention_of_def)
  then have "unix_timestamp now2 < sat_add_i64 (unix_timestamp now1) (retention_of at)"
    unfolding retention_of_def by (intro retention_covers_window [OF assms(3-5)])
  from guard.reserved_once [OF assms(1,2) fresh1 steps unix_timestamp_mono [OF assms(8)] this, of io2] fresh2
  show False by simp
qed

text \<open>
  No replay: once a message is accepted, no message with the same agent, nonce and issue
  time is accepted again, after any history of verifications and operator changes, provided
  that the clock does not run backwards and the configured skew is at least three seconds
  (the default is thirty).
\<close>

theorem accepted_at_most_once:
  assumes "replay_inv (retention_of at) t (replay at)" and "t \<le> unix_timestamp now1"
    and "3 \<le> max_skew_secs at" and "clock_ok now1" and "clock_ok now2"
    and "verify env io1 at m1 now1 = (Ok v1, rc1)"
    and "attestor_steps env now1 (at\<lparr>replay := rc1\<rparr>) t2 at2" and "t2 \<le> now2"
    and "v_agent_id v2 = v_agent_id v1" and "v_nonce v2 = v_nonce v1"
    and "v_issued_at v2 = v_issued_at v1"
  shows "fst (verify env io2 at2 m2 now2) \<noteq> Ok v2"
  using assms by (rule no_second_acceptance)

section \<open>Completeness\<close>

lemma get_str_insert_other: "k \<noteq> ''sig'' \<Longrightarrow> get_str (JObj (obj_insert ''sig'' v kvs)) k = get_str (JObj kvs) k"
  by (simp add: get_str_def)

lemma signed_message_checks:
  assumes "jcs_reads_back c" "b64u_reads_back c" "ed_correct c" "json_exact (JObj kvs)"
  shows "check_signature c (ed_public c sk) (sign_message c sk kvs)"
proof -
  have "json_exact (JObj (remove_fields [''sig''] kvs))"
    using exact_obj_remove [OF assms(4)] by simp
  with assms(1) obtain b where "jcs c (JObj (remove_fields [''sig''] kvs)) = Ok b"
    by (rule jcs_reads_backD)
  then have b: "canonical_form c (JObj kvs) = Ok b"
    by (simp add: canonical_form_def canonical_form_excluding_def)
  have "length (ed_sign c sk b) = 64 \<and> ed_verify c (ed_public c sk) b (ed_sign c sk b)"
    using assms(3) by (simp add: ed_correct_def)
  moreover have "b64u_decode c (b64u_encode c x) = Some x" for x
    using assms(2) by (simp add: b64u_reads_back_def)
  ultimately show ?thesis
    using b
    by (simp add: check_signature_def sign_message_def get_str_def decode_signature_def
      encode_signature_def canonical_form_insert_sig)
qed

text \<open>
  Completeness: a message signed with the private key of an enrolled agent, of a
  supported version, inside the skew and with a nonce the guard has not seen, is accepted.
\<close>

theorem signed_message_accepted:
  assumes "jcs_reads_back (ae_crypto env)" and "b64u_reads_back (ae_crypto env)" and "ed_correct (ae_crypto env)"
    and "get_str (JObj kvs) ''chaperone'' = Some ''0.1''"
    and "get_str (JObj kvs) ''agent_id'' = Some a" and "a \<noteq> []"
    and "get_str (JObj kvs) ''nonce'' = Some n" and "n \<noteq> []"
    and "get_str (JObj kvs) ''issued_at'' = Some raw" and "ae_rfc3339 env raw = Some iss"
    and "\<bar>now - iss\<bar> < (max_skew_secs at + 1) * nanos" and "json_exact (JObj kvs)"
    and "lookup (enrollment at) a = Some (ed_public (ae_crypto env) sk)"
    and "fst (check_and_reserve (ae_codec env) io (replay at) (a, n) (unix_timestamp now) (retention_of at)) = Fresh"
  shows "fst (verify env io at (sign_message (ae_crypto env) sk kvs) now) =
    Ok \<lparr>v_agent_id = a, v_envelope = sign_message (ae_crypto env) sk kvs, v_issued_at = iss, v_nonce = n\<rparr>"
proof -
  let ?m = "sign_message (ae_crypto env) sk kvs"
  have "get_str ?m k = get_str (JObj kvs) k" if "k \<noteq> ''sig''" for k
    using that by (simp add: sign_message_def get_str_insert_other)
  then have "acceptable env io at ?m now \<lparr>v_agent_id = a, v_envelope = ?m, v_issued_at = iss, v_nonce = n\<rparr>"
    using assms signed_message_checks [OF assms(1-3), of kvs sk]
    by (auto simp: acceptable_def sign_message_def intro!: exI [of _ "''1''"])
  then show ?thesis by (simp add: verify_Ok_iff)
qed

section \<open>A concrete attestor\<close>

definition sample_env :: attest_env where
  "sample_env = \<lparr>ae_crypto = sample_crypto, ae_codec = sample_codec, ae_rfc3339 = (\<lambda>raw. Some 11800000000)\<rparr>"

definition sample_attestor :: "int \<Rightarrow> attestor" where
  "sample_attestor skew = attestor_new
     (operator_run sample_crypto sample_store_codec enrollment_in_memory sample_acts) replay_in_memory skew"

definition sample_fields :: "(string \<times> json) list" where
  "sample_fields = [(''chaperone'', JStr ''0.1''), (''agent_id'', JStr ''a''),
     (''nonce'', JStr ''n''), (''issued_at'', JStr ''t'')]"

definition sample_message :: json where
  "sample_message = sign_message sample_crypto sample_key sample_fields"

lemma sample_fresh:
  "fst (check_and_reserve sample_codec io replay_in_memory k now r) = Fresh"
  by (simp add: check_and_reserve_def replay_in_memory_def Let_def)

definition sample_verified :: verified_intent where
  "sample_verified = \<lparr>v_agent_id = ''a'', v_envelope = sample_message, v_issued_at = 11800000000, v_nonce = ''n''\<rparr>"

lemma sample_signed_accepted:
  assumes "\<bar>now - 11800000000\<bar> < (max_skew_secs at + 1) * nanos"
    and "lookup (enrollment at) ''a'' = Some sample_key"
    and "fst (check_and_reserve sample_codec io (replay at) (''a'', ''n'') (unix_timestamp now) (retention_of at)) = Fresh"
  shows "acceptable sample_env io at sample_message now sample_verified"
proof -
  have "check_signature sample_crypto (ed_public sample_crypto sample_key) sample_message"
    unfolding sample_message_def
    by (rule signed_message_checks [OF sample_crypto_ok(1,3,4)]) (simp add: sample_fields_def)
  moreover have "ed_public sample_crypto sample_key = sample_key" by (simp add: sample_crypto_def)
  ultimately have sig: "check_signature sample_crypto sample_key sample_message" by simp
  have "as_object sample_message \<noteq> None"
    "get_str sample_message ''chaperone'' = Some ''0.1''" "get_str sample_message ''agent_id'' = Some ''a''"
    "get_str sample_message ''nonce'' = Some ''n''" "get_str sample_message ''issued_at'' = Some ''t''"
    by (simp_all add: sample_message_def sign_message_def sample_fields_def get_str_def)
  with sig assms show ?thesis
    by (auto simp: acceptable_def sample_env_def sample_verified_def)
qed

theorem signed_message_accepted_witness:
  "fst (verify sample_env all_io (sample_attestor 30) sample_message 12000000000) = Ok sample_verified"
proof -
  have "ed_public sample_crypto sample_key = sample_key" by (simp add: sample_crypto_def)
  then show ?thesis
    using signed_message_accepted [of sample_env sample_fields "''a''" "''n''" "''t''" 11800000000 12000000000
      "sample_attestor 30" sample_key all_io] sample_crypto_ok
    by (simp add: sample_env_def sample_attestor_def attestor_new_def sample_fields_def get_str_def
      sample_lookup nanos_def sample_fresh sample_message_def sample_verified_def)
qed

theorem accepted_at_most_once_witness:
  "fst (verify sample_env all_io
     ((sample_attestor 30)\<lparr>replay := snd (verify sample_env all_io (sample_attestor 30) sample_message 12000000000)\<rparr>)
     sample_message 13000000000) \<noteq> Ok sample_verified"
proof -
  let ?at = "sample_attestor 30" and ?t = "12000000000 :: int"
  let ?v = "verify sample_env all_io ?at sample_message ?t"
  have at: "replay ?at = replay_in_memory" "max_skew_secs ?at = 30"
    "lookup (enrollment ?at) ''a'' = Some sample_key"
    by (simp_all add: sample_attestor_def attestor_new_def sample_lookup)
  have "acceptable sample_env all_io ?at sample_message ?t sample_verified"
    by (rule sample_signed_accepted) (simp_all add: at nanos_def sample_fresh)
  then have v: "?v = (Ok sample_verified, snd ?v)"
    by (metis prod.collapse verify_Ok_iff)
  have steps: "attestor_steps sample_env ?t (?at\<lparr>replay := snd ?v\<rparr>) ?t (?at\<lparr>replay := snd ?v\<rparr>)"
    by (rule attestor_steps.a_wait) simp
  have inv: "replay_inv (retention_of ?at) (unix_timestamp ?t) (replay ?at)"
    by (simp add: at replay_inv_in_memory)
  show ?thesis
    using accepted_at_most_once [OF inv order_refl _ _ _ v steps, of 13000000000 sample_verified all_io sample_message]
    by (simp add: at clock_ok_def unix_timestamp_def nanos_def)
qed

section \<open>Small skews\<close>

text \<open>
  The retention of three times the skew is documented as always sufficient. It is not for
  a configured skew of two seconds (nor for less): whole-second truncation widens the
  acceptance window to almost six seconds, and the same message is accepted a second time
  5.8 seconds after the first.
\<close>

theorem small_skew_admits_replay:
  "\<exists>rc. verify sample_env all_io (sample_attestor 2) sample_message 8900000000 = (Ok sample_verified, rc) \<and>
     fst (verify sample_env all_io ((sample_attestor 2)\<lparr>replay := rc\<rparr>) sample_message 14700000000) =
       Ok sample_verified"
proof -
  let ?at = "sample_attestor 2"
  have at: "replay ?at = replay_in_memory" "max_skew_secs ?at = 2"
    "lookup (enrollment ?at) ''a'' = Some sample_key"
    by (simp_all add: sample_attestor_def attestor_new_def sample_lookup)
  have "acceptable sample_env all_io ?at sample_message 8900000000 sample_verified"
    by (rule sample_signed_accepted) (simp_all add: at nanos_def sample_fresh)
  then obtain rc where v: "verify sample_env all_io ?at sample_message 8900000000 = (Ok sample_verified, rc)"
    by (metis prod.collapse verify_Ok_iff)
  have rc: "rc = snd (check_and_reserve sample_codec all_io replay_in_memory (''a'', ''n'') 8 6)"
    using verify_Ok_replay [OF v]
    by (simp add: sample_env_def at sample_verified_def retention_of_def unix_timestamp_def nanos_def sat_simps)
  have "fst (check_and_reserve sample_codec all_io rc (''a'', ''n'') 14 6) = Fresh"
    unfolding rc by (simp add: check_and_reserve_def replay_in_memory_def Let_def sat_simps)
  then have "acceptable sample_env all_io (?at\<lparr>replay := rc\<rparr>) sample_message 14700000000 sample_verified"
    by (intro sample_signed_accepted)
      (simp_all add: at nanos_def unix_timestamp_def retention_of_def sat_simps)
  with v show ?thesis by (metis verify_Ok_iff)
qed

end
