(* ===== verification/Audit_Chain.thy ===== *)
theory Audit_Chain
  imports Protocol
begin

text \<open>
  The hash chain shared by the audit journal and the transcript: hexadecimal
  (\<^verbatim>\<open>crates/audit/src/writer.rs\<close>), record signatures (\<^verbatim>\<open>keys.rs\<close>), sealing a record
  (\<^verbatim>\<open>seal_record\<close>, \<^verbatim>\<open>compute_hash\<close>) and the verifier (\<^verbatim>\<open>verify.rs\<close>). A journal is the text of
  its file.
\<close>

section \<open>Hexadecimal and keys\<close>

definition hex :: "bytes \<Rightarrow> string" where
  "hex bs = concat (map hex_byte bs)"

text \<open>\<^verbatim>\<open>char::to_digit(16)\<close> accepts both cases.\<close>

definition hex_digit :: "char \<Rightarrow> nat option" where
  "hex_digit ch = (let n = (of_char ch :: nat) in
     if 48 \<le> n \<and> n \<le> 57 then Some (n - 48)
     else if 97 \<le> n \<and> n \<le> 102 then Some (n - 87)
     else if 65 \<le> n \<and> n \<le> 70 then Some (n - 55)
     else None)"

fun unhex :: "string \<Rightarrow> bytes option" where
  "unhex [] = Some []"
| "unhex [x] = None"
| "unhex (a # b # s) =
     (case (hex_digit a, hex_digit b) of
        (Some hi, Some lo) \<Rightarrow>
          (case unhex s of None \<Rightarrow> None | Some bs \<Rightarrow> Some (char_of (hi * 16 + lo) # bs))
      | _ \<Rightarrow> None)"

definition zero_hash :: bytes where
  "zero_hash = replicate 32 CHR 0x00"

definition genesis_prev_hex :: string where
  "genesis_prev_hex = replicate 64 CHR ''0''"

definition chain_version :: nat where
  "chain_version = 1"

definition unhashed_fields :: "string list" where
  "unhashed_fields = [''this_hash'', ''sig'']"

definition verifying_key :: "crypto \<Rightarrow> bytes \<Rightarrow> bytes" where
  "verifying_key c sk = ed_public c sk"

definition sign_raw :: "crypto \<Rightarrow> bytes \<Rightarrow> bytes \<Rightarrow> string" where
  "sign_raw c sk hash = encode_signature c (ed_sign c sk hash)"

definition verify_raw :: "crypto \<Rightarrow> bytes \<Rightarrow> bytes \<Rightarrow> string \<Rightarrow> bool" where
  "verify_raw c vk hash sig =
     (case decode_signature c sig of
        None \<Rightarrow> False
      | Some raw \<Rightarrow> length raw = 64 \<and> ed_verify c vk hash raw)"

section \<open>Sealing a record\<close>

text \<open>\<^verbatim>\<open>canonical_form_excluding(..).unwrap_or_default()\<close>: an error hashes as the empty body.\<close>

definition compute_hash :: "crypto \<Rightarrow> json \<Rightarrow> bytes \<Rightarrow> bytes" where
  "compute_hash c body prev_hash =
     sha256 c (prev_hash @
       (case canonical_form_excluding c body unhashed_fields of Inl _ \<Rightarrow> [] | Inr b \<Rightarrow> b))"

definition stamp :: "json \<Rightarrow> string \<Rightarrow> string \<Rightarrow> json" where
  "stamp body hash_hex sig =
     (case body of
        JObj kvs \<Rightarrow> JObj (obj_insert ''sig'' (JStr sig) (obj_insert ''this_hash'' (JStr hash_hex) kvs))
      | v \<Rightarrow> v)"

definition seal_record :: "crypto \<Rightarrow> json \<Rightarrow> bytes \<Rightarrow> bytes \<Rightarrow> (canonical_error, bytes \<times> string) result" where
  "seal_record c body prev_hash sk =
     (let this_hash = compute_hash c body prev_hash;
          full = stamp body (hex this_hash) (sign_raw c sk this_hash) in
      (case canonical_form_excluding c full [] of
         Inl e \<Rightarrow> Err e
       | Inr line \<Rightarrow> Ok (this_hash, line)))"

section \<open>Verification\<close>

datatype break_reason =
    NotJson
  | RecordNotAnObject
  | ChainVersionMismatch
  | MissingSeq
  | UnexpectedSeq nat nat
  | MissingThisHash
  | MissingPrevHash
  | PrevHashMismatch string string
  | CanonicalizationFailed
  | PredecessorNotHex
  | ThisHashNotHex
  | ContentHashMismatch
  | MissingSig
  | BadRecordSignature
  | NothingVerifiable
  | TailNotHex
  | TailNot32Bytes

record chain_break =
  break_line :: nat
  break_reason :: break_reason

record tail =
  tail_seq :: nat
  tail_hash_hex :: string

record report =
  rep_tail :: "tail option"
  rep_error :: "chain_break option"
  rep_records_ok :: nat

definition verify_line ::
    "crypto \<Rightarrow> string \<Rightarrow> string \<Rightarrow> nat \<Rightarrow> bytes \<Rightarrow> (break_reason, nat \<times> string) result" where
  "verify_line c line expect_prev expect_seq vk =
     (case json_read c line of
        None \<Rightarrow> Err NotJson
      | Some v \<Rightarrow>
        if as_object v = None then Err RecordNotAnObject
        else if get_u64 v ''chain_version'' \<noteq> Some chain_version then Err ChainVersionMismatch
        else (case get_u64 v ''seq'' of
          None \<Rightarrow> Err MissingSeq
        | Some seq \<Rightarrow>
          if seq \<noteq> expect_seq then Err (UnexpectedSeq expect_seq seq)
          else (case get_str v ''this_hash'' of
            None \<Rightarrow> Err MissingThisHash
          | Some this_hash \<Rightarrow>
            (case get_str v ''prev_hash'' of
               None \<Rightarrow> Err MissingPrevHash
             | Some prev \<Rightarrow>
               if prev \<noteq> expect_prev then Err (PrevHashMismatch prev expect_prev)
               else (case canonical_form_excluding c v unhashed_fields of
                 Inl _ \<Rightarrow> Err CanonicalizationFailed
               | Inr canonical \<Rightarrow>
                 (case unhex expect_prev of
                    None \<Rightarrow> Err PredecessorNotHex
                  | Some prev_raw \<Rightarrow>
                    (let recomputed = sha256 c (prev_raw @ canonical) in
                     (case unhex this_hash of
                        None \<Rightarrow> Err ThisHashNotHex
                      | Some stored \<Rightarrow>
                        if stored \<noteq> recomputed then Err ContentHashMismatch
                        else (case get_str v ''sig'' of
                          None \<Rightarrow> Err MissingSig
                        | Some sig \<Rightarrow>
                          if verify_raw c vk recomputed sig then Ok (seq, this_hash)
                          else Err BadRecordSignature)))))))))"

text \<open>
  The loop of \<open>walk_lines\<close>: \<open>i\<close> counts lines, \<open>records_ok\<close> the records so far (also the
  expected sequence number).
\<close>

fun walk_from :: "crypto \<Rightarrow> bytes \<Rightarrow> nat \<Rightarrow> nat \<Rightarrow> string \<Rightarrow> tail option \<Rightarrow> string list \<Rightarrow> report" where
  "walk_from c vk i records_ok expect_prev good [] =
     \<lparr>rep_tail = good, rep_error = None, rep_records_ok = records_ok\<rparr>"
| "walk_from c vk i records_ok expect_prev good (line # lines) =
     (if is_blank line then walk_from c vk (Suc i) records_ok expect_prev good lines
      else (case verify_line c line expect_prev records_ok vk of
              Inr (seq, hash) \<Rightarrow>
                walk_from c vk (Suc i) (Suc records_ok) hash
                  (Some \<lparr>tail_seq = seq, tail_hash_hex = hash\<rparr>) lines
            | Inl reason \<Rightarrow>
                \<lparr>rep_tail = good, rep_error = Some \<lparr>break_line = i, break_reason = reason\<rparr>,
                  rep_records_ok = records_ok\<rparr>))"

definition walk_lines :: "crypto \<Rightarrow> string \<Rightarrow> bytes \<Rightarrow> report" where
  "walk_lines c journal vk = walk_from c vk 0 0 genesis_prev_hex None (str_lines journal)"

definition verify_file :: "crypto \<Rightarrow> string option \<Rightarrow> bytes \<Rightarrow> report option" where
  "verify_file c content vk = map_option (\<lambda>j. walk_lines c j vk) content"

section \<open>Specification\<close>

text \<open>The chain over the records proper (blank lines are skipped by the verifier).\<close>

fun check_chain :: "crypto \<Rightarrow> bytes \<Rightarrow> nat \<Rightarrow> string \<Rightarrow> string list \<Rightarrow> (nat \<times> string) option" where
  "check_chain c vk n prev [] = Some (n, prev)"
| "check_chain c vk n prev (l # ls) =
     (case verify_line c l prev n vk of
        Inr (_, h) \<Rightarrow> check_chain c vk (Suc n) h ls
      | Inl _ \<Rightarrow> None)"

definition records_of :: "string \<Rightarrow> string list" where
  "records_of journal = filter (\<lambda>l. \<not> is_blank l) (str_lines journal)"

definition intact :: "report \<Rightarrow> bool" where
  "intact r \<longleftrightarrow> rep_error r = None"

text \<open>The bytes a record's hash covers besides the predecessor hash, and the whole hash input.\<close>

definition record_body :: "crypto \<Rightarrow> string \<Rightarrow> bytes" where
  "record_body c line =
     (case json_read c line of None \<Rightarrow> []
      | Some v \<Rightarrow> (case canonical_form_excluding c v unhashed_fields of Inl _ \<Rightarrow> [] | Inr b \<Rightarrow> b))"

definition prev_raw :: "crypto \<Rightarrow> string \<Rightarrow> bytes" where
  "prev_raw c line = (case json_read c line of None \<Rightarrow> []
     | Some v \<Rightarrow> (case get_str v ''prev_hash'' of None \<Rightarrow> []
       | Some p \<Rightarrow> (case unhex p of None \<Rightarrow> [] | Some b \<Rightarrow> b)))"

definition hash_inputs :: "crypto \<Rightarrow> string \<Rightarrow> bytes set" where
  "hash_inputs c journal = (\<lambda>l. prev_raw c l @ record_body c l) ` set (records_of journal)"

text \<open>
  \<open>chain_state c vk file n h\<close>: the file consists of complete lines, verifies, holds \<open>n\<close>
  records, and its newest hash is \<open>h\<close> (the zero hash when there is none).
\<close>

definition chain_state :: "crypto \<Rightarrow> bytes \<Rightarrow> string \<Rightarrow> nat \<Rightarrow> bytes \<Rightarrow> bool" where
  "chain_state c vk file n h \<longleftrightarrow>
     (file = [] \<or> last file = newline) \<and> length h = 32 \<and>
     check_chain c vk 0 genesis_prev_hex (records_of file) = Some (n, hex h)"

section \<open>Hexadecimal round trip\<close>

lemma hex_digit_table:
  "d < 16 \<Longrightarrow> hex_digit (''0123456789abcdef'' ! d) = Some d"
proof -
  assume "d < 16"
  then have "d = 0 \<or> d = 1 \<or> d = 2 \<or> d = 3 \<or> d = 4 \<or> d = 5 \<or> d = 6 \<or> d = 7 \<or> d = 8 \<or> d = 9 \<or>
    d = 10 \<or> d = 11 \<or> d = 12 \<or> d = 13 \<or> d = 14 \<or> d = 15" by arith
  then show ?thesis by (auto simp: hex_digit_def)
qed

lemma of_char_less: "(of_char ch :: nat) < 256"
  by (metis mod_less_divisor of_char_mod_256 zero_less_numeral)

lemma unhex_hex [simp]: "unhex (hex bs) = Some bs"
proof (induction bs)
  case (Cons b bs)
  have "(of_char b :: nat) div 16 < 16" using of_char_less [of b] by linarith
  with Cons show ?case
    by (simp add: hex_def hex_byte_def Let_def hex_digit_table mult.commute [of _ 16])
qed (simp add: hex_def)

lemma hex_inj: "hex a = hex b \<longleftrightarrow> a = b"
  by (metis option.inject unhex_hex)

lemma hex_replicate_zero: "hex (replicate n CHR 0x00) = replicate (2 * n) CHR ''0''"
  by (induction n) (simp_all add: hex_def hex_byte_def)

lemma hex_zero: "hex zero_hash = genesis_prev_hex"
  by (simp add: zero_hash_def genesis_prev_hex_def hex_replicate_zero)

lemma hex_encode_eq_hex: "hex_encode = hex"
  by (simp add: hex_encode_def hex_def fun_eq_iff)

text \<open>
  Hexadecimal is lossless in the direction the chain uses: decoding the lower-case
  encoding of any byte string returns it, so the stored hash text determines the hash.
\<close>

theorem unhex_hex_roundtrip: "unhex (hex bs) = Some bs \<and> (hex a = hex b \<longleftrightarrow> a = b)"
  by (simp add: hex_inj)

section \<open>Lines of a journal\<close>

lemma split_on_append_lines:
  "newline \<notin> set l \<Longrightarrow> split_on newline (l @ newline # s) = l # split_on newline s"
  by (rule split_on_append_sep)

lemma split_on_append_gen:
  "split_on c (a @ c # b) = split_on c a @ split_on c b"
  by (induction a) (auto split: list.splits)

lemma chomp_cr_id: "carriage_return \<notin> set l \<Longrightarrow> chomp_cr l = l"
  by (auto simp: chomp_cr_def dest: last_in_set)

text \<open>A complete file keeps its lines when a line is appended.\<close>

lemma str_lines_append_line:
  assumes "file = [] \<or> last file = newline" "newline \<notin> set l" "carriage_return \<notin> set l"
  shows "str_lines (file @ l @ [newline]) = str_lines file @ [l]"
proof (cases "file = []")
  case True
  have "split_on newline (l @ [newline]) = [l, []]"
    using assms(2) by (simp add: split_on_append_sep)
  then show ?thesis
    using True assms(3) by (simp add: str_lines_def chomp_cr_id Let_def)
next
  case False
  with assms(1) obtain f where f: "file = f @ [newline]" by (metis append_butlast_last_id)
  have "split_on newline (file @ l @ [newline]) = split_on newline f @ [l, []]"
    using split_on_append_gen [of newline f "l @ [newline]"] assms(2)
    by (simp add: f split_on_append_sep)
  moreover have "split_on newline file = split_on newline f @ [[]]"
    using split_on_append_gen [of newline f "[]"] by (simp add: f)
  ultimately show ?thesis
    using assms(3) by (simp add: str_lines_def chomp_cr_id Let_def butlast_append)
qed

lemma str_lines_append:
  assumes "a = [] \<or> last a = newline"
  shows "str_lines (a @ b) = str_lines a @ str_lines b"
proof (cases "a = []")
  case False
  with assms obtain f where f: "a = f @ [newline]" by (metis append_butlast_last_id)
  have "split_on newline (a @ b) = split_on newline f @ split_on newline b"
    "split_on newline a = split_on newline f @ [[]]"
    using split_on_append_gen [of newline f b] split_on_append_gen [of newline f "[]"] by (auto simp: f)
  then show ?thesis by (simp add: str_lines_def Let_def butlast_append)
qed (simp add: str_lines_def)

lemma records_of_append_line:
  assumes "file = [] \<or> last file = newline" "newline \<notin> set l" "carriage_return \<notin> set l" "\<not> is_blank l"
  shows "records_of (file @ l @ [newline]) = records_of file @ [l]"
  using assms by (simp add: records_of_def str_lines_append_line)

text \<open>A record without its newline is still read as a line.\<close>

lemma records_of_unterminated:
  assumes "file = [] \<or> last file = newline" "newline \<notin> set l" "carriage_return \<notin> set l" "\<not> is_blank l"
  shows "records_of (file @ l) = records_of file @ [l]"
proof -
  have "l \<noteq> []" using assms(4) by (auto simp: is_blank_def trim_def trim_start_def trim_end_def)
  then have "str_lines l = [l]"
    using assms(2,3) by (simp add: str_lines_def split_on_no_sep chomp_cr_id)
  then show ?thesis
    using str_lines_append [OF assms(1), of l] assms(4) by (simp add: records_of_def)
qed

lemma records_of_Nil [simp]: "records_of [] = []"
  by (simp add: records_of_def str_lines_def)

lemma records_of_blank: "is_blank file \<Longrightarrow> records_of file = []"
  by (auto simp: records_of_def filter_empty_conv dest: blank_lines)

section \<open>The verifier and the chain\<close>

lemma verify_line_seq: "verify_line c l prev n vk = Inr (s, h) \<Longrightarrow> s = n"
  by (auto simp: verify_line_def Let_def split: option.splits sum.splits if_splits)

lemma check_chain_append:
  "check_chain c vk n prev (xs @ ys) =
     Option.bind (check_chain c vk n prev xs) (\<lambda>(n', prev'). check_chain c vk n' prev' ys)"
  by (induction xs arbitrary: n prev) (auto split: sum.splits)

lemma check_chain_count: "check_chain c vk n prev ls = Some (m, h) \<Longrightarrow> m = n + length ls"
  by (induction ls arbitrary: n prev) (fastforce split: sum.splits)+

lemma walk_from_check_chain:
  "intact (walk_from c vk i n prev good ls) \<longleftrightarrow>
     check_chain c vk n prev (filter (\<lambda>l. \<not> is_blank l) ls) \<noteq> None"
  by (induction c vk i n prev good ls rule: walk_from.induct)
    (auto simp: intact_def split: sum.splits)

lemma walk_from_result:
  "check_chain c vk n prev (filter (\<lambda>l. \<not> is_blank l) ls) = Some (m, h) \<Longrightarrow>
   walk_from c vk i n prev good ls =
     \<lparr>rep_tail = (if m = n then good else Some \<lparr>tail_seq = m - 1, tail_hash_hex = h\<rparr>),
      rep_error = None, rep_records_ok = m\<rparr>"
proof (induction c vk i n prev good ls rule: walk_from.induct)
  case (2 c vk i n prev good l ls)
  show ?case
  proof (cases "is_blank l")
    case False
    with 2(3) obtain s h' where l: "verify_line c l prev n vk = Inr (s, h')"
      by (auto split: sum.splits)
    with 2(3) False have rest: "check_chain c vk (Suc n) h' (filter (\<lambda>l. \<not> is_blank l) ls) = Some (m, h)"
      by simp
    have "m \<ge> Suc n" using check_chain_count [OF rest] by simp
    with 2(2) [OF False l refl rest] l False verify_line_seq [OF l] check_chain_count [OF rest] rest
    show ?thesis by auto
  qed (use 2 in simp)
qed simp

text \<open>A bad line after an intact prefix is reported with its line number and reason.\<close>

lemma walk_from_break:
  "check_chain c vk n prev (filter (\<lambda>l. \<not> is_blank l) ls) = Some (m, h) \<Longrightarrow>
   \<not> is_blank l \<Longrightarrow> verify_line c l h m vk = Inl r \<Longrightarrow>
   rep_error (walk_from c vk i n prev good (ls @ l # rest)) =
     Some \<lparr>break_line = i + length ls, break_reason = r\<rparr>"
proof (induction c vk i n prev good ls rule: walk_from.induct)
  case (2 c vk i n prev good line ls)
  show ?case
  proof (cases "is_blank line")
    case True
    with 2(1) [OF True] 2(3-5) show ?thesis by simp
  next
    case False
    with 2(3) obtain s h' where l: "verify_line c line prev n vk = Inr (s, h')"
        "check_chain c vk (Suc n) h' (filter (\<lambda>l. \<not> is_blank l) ls) = Some (m, h)"
      by (auto split: sum.splits)
    with 2(2) [OF False l(1) refl l(2)] 2(4,5) False show ?thesis by simp
  qed
qed simp

lemma walk_lines_intact_iff:
  "intact (walk_lines c journal vk) \<longleftrightarrow>
     check_chain c vk 0 genesis_prev_hex (records_of journal) \<noteq> None"
  unfolding walk_lines_def records_of_def by (rule walk_from_check_chain)

lemma walk_lines_result:
  assumes "check_chain c vk 0 genesis_prev_hex (records_of journal) = Some (m, h)"
  shows "walk_lines c journal vk =
    \<lparr>rep_tail = (if m = 0 then None else Some \<lparr>tail_seq = m - 1, tail_hash_hex = h\<rparr>),
     rep_error = None, rep_records_ok = m\<rparr>"
  using assms unfolding walk_lines_def records_of_def by (rule walk_from_result)

section \<open>Sealed records verify\<close>

text \<open>What a body must carry for its record to extend a chain at position \<open>n\<close> after \<open>h\<close>.\<close>

definition extends :: "json \<Rightarrow> nat \<Rightarrow> bytes \<Rightarrow> bool" where
  "extends body n h \<longleftrightarrow> (\<exists>kvs. body = JObj kvs) \<and> json_exact body \<and>
     get_u64 body ''chain_version'' = Some chain_version \<and> get_u64 body ''seq'' = Some n \<and>
     get_str body ''prev_hash'' = Some (hex h)"

definition chain_crypto :: "crypto \<Rightarrow> bool" where
  "chain_crypto c \<longleftrightarrow> jcs_reads_back c \<and> sha256_length c \<and> b64u_reads_back c \<and> ed_correct c"

lemma sample_chain_crypto: "chain_crypto sample_crypto"
  by (simp add: chain_crypto_def sample_crypto_ok)

lemma canonical_excluding_stamp:
  "canonical_form_excluding c (stamp (JObj kvs) x y) unhashed_fields =
   canonical_form_excluding c (JObj kvs) unhashed_fields"
  by (simp add: stamp_def canonical_form_excluding_def unhashed_fields_def obj_remove_insert_other)

lemma exact_stamp: "json_exact body \<Longrightarrow> json_exact (stamp body x y)"
proof (cases body)
  case (JObj kvs)
  assume "json_exact body"
  then have "json_exact (JObj (obj_insert ''this_hash'' (JStr x) kvs))"
    using exact_obj_insert [of "JStr x"] JObj by simp
  then show ?thesis
    using exact_obj_insert [of "JStr y"] JObj by (simp add: stamp_def)
qed (simp_all add: stamp_def)

lemma exact_remove_fields: "json_exact (JObj kvs) \<Longrightarrow> json_exact (JObj (remove_fields fs kvs))"
  by (induction fs arbitrary: kvs) (auto simp only: remove_fields.simps intro: exact_obj_remove)

lemma sort_remove_fields:
  "json_sort (JObj a) = json_sort (JObj b) \<Longrightarrow>
   json_sort (JObj (remove_fields fs a)) = json_sort (JObj (remove_fields fs b))"
proof (induction fs arbitrary: a b)
  case (Cons f fs)
  obtain m where m: "json_sort (JObj a) = JObj m" "json_sort (JObj b) = JObj m"
    using Cons.prems by simp
  have "json_sort (JObj (obj_remove f a)) = json_sort (JObj (obj_remove f b))"
    by (rule trans [OF sort_obj_remove [OF m(1), symmetric] sort_obj_remove [OF m(2)]])
  then show ?case unfolding remove_fields.simps by (rule Cons.IH)
qed simp

text \<open>Reading a canonical line back gives sorted members, with the same canonical form.\<close>

lemma canonical_excluding_sort:
  assumes "jcs_reads_back c" "json_exact v"
  shows "canonical_form_excluding c (json_sort v) fs = canonical_form_excluding c v fs"
proof (cases v)
  case (JObj kvs)
  obtain m where m: "json_sort (JObj kvs) = JObj m" by simp
  have exact: "json_exact (JObj kvs)" "json_exact (JObj m)"
    using assms(2) exact_sort [OF assms(2)] m JObj by auto
  have "json_sort (JObj m) = json_sort (JObj kvs)" by (metis m json_sort_idem)
  then have "jcs c (JObj (remove_fields fs m)) = jcs c (JObj (remove_fields fs kvs))"
    using jcs_eq_iff [OF assms(1) exact_remove_fields [OF exact(2)] exact_remove_fields [OF exact(1)]]
      sort_remove_fields by blast
  then show ?thesis using m JObj by (simp add: canonical_form_excluding_def)
qed (simp_all add: canonical_form_excluding_def)

lemma verify_raw_sign_raw:
  "b64u_reads_back c \<Longrightarrow> ed_correct c \<Longrightarrow> verify_raw c (verifying_key c sk) h (sign_raw c sk h)"
  by (simp add: verify_raw_def sign_raw_def verifying_key_def decode_signature_def encode_signature_def
    b64u_reads_back_def ed_correct_def)

text \<open>Sealing succeeds on any exact body, whatever predecessor hash it is sealed under.\<close>

lemma seal_record_any:
  assumes "chain_crypto c" "extends body n p"
  obtains line where
    "seal_record c body h sk = Ok (compute_hash c body h, line)"
    "json_read c line =
       Some (json_sort (stamp body (hex (compute_hash c body h)) (sign_raw c sk (compute_hash c body h))))"
    "newline \<notin> set line" "carriage_return \<notin> set line" "line \<noteq> []" "graphic (hd line)"
proof -
  obtain kvs where body: "body = JObj kvs" using assms(2) by (auto simp: extends_def)
  let ?h = "compute_hash c body h"
  let ?full = "stamp body (hex ?h) (sign_raw c sk ?h)"
  have "json_exact ?full" using assms(2) by (simp add: extends_def exact_stamp)
  then obtain line where "jcs c ?full = Ok line" and line: "json_read c line = Some (json_sort ?full)"
      "newline \<notin> set line" "carriage_return \<notin> set line" "line \<noteq> []" "graphic (hd line)"
    using assms(1) unfolding chain_crypto_def by (meson jcs_reads_backD)
  then have "canonical_form_excluding c ?full [] = Ok line"
    by (simp add: canonical_form_excluding_def body stamp_def)
  then have "seal_record c body h sk = Ok (?h, line)" by (simp add: seal_record_def Let_def)
  with line show thesis using that by blast
qed

lemmas seal_record_ok = seal_record_any [where p = h and h = h for h]

lemma wrong_seq_line:
  assumes "extends body n p" "json_read c line = Some (json_sort (stamp body x y))" "m \<noteq> n"
  shows "verify_line c line prev m vk = Inl (UnexpectedSeq m n)"
proof -
  obtain kvs where body: "body = JObj kvs" using assms(1) by (auto simp: extends_def)
  have "as_object (json_sort (stamp body x y)) \<noteq> None" by (simp add: body stamp_def)
  moreover have "get_u64 (stamp body x y) ''chain_version'' = Some chain_version"
    "get_u64 (stamp body x y) ''seq'' = Some n"
    using assms(1) by (simp_all add: body extends_def) (simp_all add: stamp_def get_u64_def)
  ultimately show ?thesis using assms(3) by (simp add: verify_line_def assms(2))
qed

lemma sealed_line_shape:
  assumes "chain_crypto c" "extends body n h" "seal_record c body h sk = Ok (h', line)"
  obtains v where "newline \<notin> set line" "carriage_return \<notin> set line" "\<And>t. \<not> is_blank (line @ t)"
    "json_read c line = Some v" "as_object v \<noteq> None"
proof -
  obtain kvs where body: "body = JObj kvs" using assms(2) by (auto simp: extends_def)
  let ?v = "json_sort (stamp body (hex (compute_hash c body h)) (sign_raw c sk (compute_hash c body h)))"
  have line: "newline \<notin> set line" "carriage_return \<notin> set line" "line \<noteq> []" "graphic (hd line)"
      "json_read c line = Some ?v"
    using seal_record_ok [OF assms(1,2), of sk] assms(3) by (metis Inr_inject prod.inject)+
  have "as_object ?v \<noteq> None" by (simp add: body stamp_def)
  with line graphic_not_blank [OF line(3,4)] show thesis using that by blast
qed

lemma sealed_line_verifies:
  assumes c: "chain_crypto c" and ext: "extends body n h" and seal: "seal_record c body h sk = Ok (h', line)"
  shows "verify_line c line (hex h) n (verifying_key c sk) = Ok (n, hex h')"
proof -
  obtain kvs where body: "body = JObj kvs" using ext by (auto simp: extends_def)
  let ?h = "compute_hash c body h"
  have exact: "json_exact (JObj kvs)" using ext body by (simp add: extends_def)
  have rb: "jcs_reads_back c" using c by (simp add: chain_crypto_def)
  have h': "h' = ?h" and read: "json_read c line = Some (json_sort (stamp body (hex ?h) (sign_raw c sk ?h)))"
    using seal_record_ok [OF c ext, of sk] seal by (metis Inr_inject prod.inject)+
  obtain b where b: "jcs c (JObj (remove_fields unhashed_fields kvs)) = Ok b"
    using jcs_reads_backD [OF rb exact_remove_fields [OF exact]] by metis
  then have can: "canonical_form_excluding c (JObj kvs) unhashed_fields = Ok b"
    by (simp add: canonical_form_excluding_def)
  have hash: "?h = sha256 c (h @ b)" by (simp add: compute_hash_def body can)
  have fields: "get_u64 (stamp body x y) ''chain_version'' = Some chain_version"
    "get_u64 (stamp body x y) ''seq'' = Some n"
    "get_str (stamp body x y) ''prev_hash'' = Some (hex h)"
    "get_str (stamp body x y) ''this_hash'' = Some x" "get_str (stamp body x y) ''sig'' = Some y"
    "as_object (json_sort (stamp body x y)) \<noteq> None"
    "canonical_form_excluding c (json_sort (stamp body x y)) unhashed_fields = Ok b" for x y
    using ext can canonical_excluding_stamp [of c kvs x y]
      canonical_excluding_sort [OF rb exact_stamp [OF exact], of x y unhashed_fields]
    by (simp_all add: body extends_def) (simp_all add: stamp_def get_u64_def get_str_def)
  have "verify_raw c (verifying_key c sk) ?h (sign_raw c sk ?h)"
    using c by (simp add: chain_crypto_def verify_raw_sign_raw)
  then show ?thesis
    by (simp add: verify_line_def read fields h' hash Let_def)
qed

text \<open>The step shared by both journals: sealing a body that extends the chain keeps it intact.\<close>

lemma chain_state_extend:
  assumes "chain_crypto c" "chain_state c (verifying_key c sk) file n h" "extends body n h"
    and "seal_record c body h sk = Ok (h', line)"
  shows "chain_state c (verifying_key c sk) (file @ line @ [newline]) (Suc n) h'"
proof -
  have line: "newline \<notin> set line" "carriage_return \<notin> set line" "line \<noteq> []" "graphic (hd line)"
    and h': "h' = compute_hash c body h"
    using seal_record_ok [OF assms(1,3), of sk] assms(4) by (metis Inr_inject prod.inject)+
  have "\<not> is_blank line" using graphic_not_blank [OF line(3,4), of "[]"] by simp
  have "length h' = 32"
    using assms(1) by (simp add: h' compute_hash_def chain_crypto_def sha256_length_def)
  moreover have "records_of (file @ line @ [newline]) = records_of file @ [line]"
    using assms(2) line \<open>\<not> is_blank line\<close> by (intro records_of_append_line) (auto simp: chain_state_def)
  ultimately show ?thesis
    using assms(2) sealed_line_verifies [OF assms(1,3,4)]
    by (simp add: chain_state_def check_chain_append)
qed

lemma chain_state_empty: "chain_state c vk [] 0 zero_hash"
  by (simp add: chain_state_def hex_zero) (simp add: zero_hash_def)

lemma chain_state_walk:
  assumes "chain_state c vk file n h"
  shows "walk_lines c file vk =
    \<lparr>rep_tail = (if n = 0 then None else Some \<lparr>tail_seq = n - 1, tail_hash_hex = hex h\<rparr>),
     rep_error = None, rep_records_ok = n\<rparr>"
  using assms by (intro walk_lines_result) (simp add: chain_state_def)

section \<open>Tamper evidence\<close>

lemma verify_line_Ok:
  assumes "verify_line c l prev n vk = Inr (s, h)"
  obtains kvs pr b where "json_read c l = Some (JObj kvs)" "get_str (JObj kvs) ''prev_hash'' = Some prev"
    "unhex prev = Some pr" "jcs c (JObj (remove_fields unhashed_fields kvs)) = Ok b"
    "record_body c l = b" "prev_raw c l = pr" "unhex h = Some (sha256 c (pr @ b))"
proof -
  obtain v where v: "json_read c l = Some v"
    using assms by (auto simp: verify_line_def split: option.splits)
  with assms obtain kvs where "v = JObj kvs"
    by (cases v) (auto simp: verify_line_def)
  with v assms show thesis
    using that [of kvs]
    by (auto simp: verify_line_def Let_def record_body_def prev_raw_def canonical_form_excluding_def
      split: option.splits sum.splits if_splits)
qed

lemma check_chain_hash_length:
  assumes "sha256_length c" "check_chain c vk n prev ls = Some (m, h)" "unhex prev = Some r" "length r = 32"
  shows "\<exists>r'. unhex h = Some r' \<and> length r' = 32"
  using assms(2-4)
proof (induction ls arbitrary: n prev r)
  case (Cons l ls)
  then obtain s h' where l: "verify_line c l prev n vk = Inr (s, h')"
    and rest: "check_chain c vk (Suc n) h' ls = Some (m, h)"
    by (auto split: sum.splits)
  from l obtain pr b where "unhex h' = Some (sha256 c (pr @ b))" by (rule verify_line_Ok)
  with Cons.IH [OF rest] assms(1) show ?case by (simp add: sha256_length_def)
qed auto

lemma check_chain_snoc:
  assumes "check_chain c vk n prev (xs @ [l]) = Some (m, h)"
  obtains p s where "check_chain c vk n prev xs = Some (m - 1, p)" "m > n"
    "verify_line c l p (m - 1) vk = Inr (s, h)"
proof -
  from assms obtain k p where k: "check_chain c vk n prev xs = Some (k, p)"
      "check_chain c vk k p [l] = Some (m, h)"
    by (auto simp: check_chain_append bind_eq_Some_conv)
  then obtain s where "verify_line c l p k vk = Inr (s, h)" "m = Suc k"
    by (auto split: sum.splits)
  with k check_chain_count [OF k(1)] that show thesis by simp
qed

text \<open>
  Two chains with the same number of records and the same newest hash have the same bodies,
  or two of their own hash inputs collide.
\<close>

lemma chain_pins_bodies:
  assumes "sha256_length c" "jcs_members c" and "check_chain c vk 0 genesis_prev_hex xs = Some (n, h)"
    and "check_chain c vk' 0 genesis_prev_hex ys = Some (n, h)"
  shows "map (record_body c) xs = map (record_body c) ys \<or>
    (\<exists>x \<in> set xs. \<exists>y \<in> set ys. prev_raw c x @ record_body c x \<noteq> prev_raw c y @ record_body c y \<and>
      sha256 c (prev_raw c x @ record_body c x) = sha256 c (prev_raw c y @ record_body c y))"
  using assms(3,4)
proof (induction xs arbitrary: ys n h rule: rev_induct)
  case Nil
  then have "n = 0" by simp
  with Nil(2) check_chain_count have "ys = []" by fastforce
  then show ?case by simp
next
  case (snoc l xs)
  have len: "length ys = Suc (length xs)"
    using check_chain_count [OF snoc.prems(1)] check_chain_count [OF snoc.prems(2)] by simp
  then obtain ys' m where ys: "ys = ys' @ [m]" by (metis length_Suc_conv_rev)
  from snoc.prems(1) obtain p s where p: "check_chain c vk 0 genesis_prev_hex xs = Some (n - 1, p)"
      "verify_line c l p (n - 1) vk = Inr (s, h)" by (rule check_chain_snoc)
  from snoc.prems(2) [unfolded ys] obtain q t where q: "check_chain c vk' 0 genesis_prev_hex ys' = Some (n - 1, q)"
      "verify_line c m q (n - 1) vk' = Inr (t, h)" by (rule check_chain_snoc)
  from p(2) obtain kvs pr b where l: "get_str (JObj kvs) ''prev_hash'' = Some p" "unhex p = Some pr"
      "jcs c (JObj (remove_fields unhashed_fields kvs)) = Ok b" "record_body c l = b" "prev_raw c l = pr"
      "unhex h = Some (sha256 c (pr @ b))" "json_read c l = Some (JObj kvs)" by (rule verify_line_Ok)
  from q(2) obtain kvs' qr b' where m: "get_str (JObj kvs') ''prev_hash'' = Some q" "unhex q = Some qr"
      "jcs c (JObj (remove_fields unhashed_fields kvs')) = Ok b'" "record_body c m = b'" "prev_raw c m = qr"
      "unhex h = Some (sha256 c (qr @ b'))" "json_read c m = Some (JObj kvs')" by (rule verify_line_Ok)
  show ?case
  proof (cases "pr @ b = qr @ b'")
    case True
    have g: "unhex genesis_prev_hex = Some zero_hash" "length zero_hash = 32"
      by (simp_all flip: hex_zero) (simp add: zero_hash_def)
    have "length pr = 32" "length qr = 32"
      using check_chain_hash_length [OF assms(1) p(1) g] check_chain_hash_length [OF assms(1) q(1) g] l(2) m(2)
      by auto
    with True have "b = b'" by simp
    let ?a = "remove_fields unhashed_fields kvs" and ?b = "remove_fields unhashed_fields kvs'"
    have "map_of ?a ''prev_hash'' = Some (JStr p)" "map_of ?b ''prev_hash'' = Some (JStr q)"
      using l(1) m(1) by (auto simp: unhashed_fields_def get_str_def bind_eq_Some_conv elim: as_str.elims)
    moreover have "distinct (map fst ?a)" "distinct (map fst ?b)"
      using assms(2) l(7) m(7) by (auto simp: jcs_members_def unhashed_fields_def intro!: distinct_obj_remove)
    ultimately have "map_of ?b ''prev_hash'' = Some (JStr p)"
      using assms(2) l(3) m(3) \<open>b = b'\<close> unfolding jcs_members_def by blast
    with \<open>map_of ?b ''prev_hash'' = Some (JStr q)\<close> have "p = q" by simp
    from snoc.IH [OF p(1) q(1) [folded this]] show ?thesis
      using \<open>b = b'\<close> l(4) m(4) ys by auto
  next
    case False
    with l m ys show ?thesis by auto
  qed
qed

text \<open>
  (C11) The newest sequence number and hash pin the whole history: two intact journals (under
  any keys) that report the same tail have the same record bodies, line by line, unless two of
  their own hash inputs form a SHA-256 collision. An operator who remembers the head detects
  every modification, insertion, deletion and reordering of earlier records.
\<close>

theorem tail_pins_history:
  assumes "sha256_length c" and "jcs_members c"
    and "intact (walk_lines c j vk)" and "intact (walk_lines c j' vk')"
    and "rep_tail (walk_lines c j vk) = Some t" and "rep_tail (walk_lines c j' vk') = Some t"
  shows "map (record_body c) (records_of j) = map (record_body c) (records_of j') \<or>
    (\<exists>x \<in> hash_inputs c j. \<exists>y \<in> hash_inputs c j'. x \<noteq> y \<and> sha256 c x = sha256 c y)"
proof -
  obtain n h where n: "check_chain c vk 0 genesis_prev_hex (records_of j) = Some (n, h)"
    using assms(3) by (auto simp: walk_lines_intact_iff)
  obtain n' h' where n': "check_chain c vk' 0 genesis_prev_hex (records_of j') = Some (n', h')"
    using assms(4) by (auto simp: walk_lines_intact_iff)
  have "n = n'" "h = h'"
    using assms(5,6) walk_lines_result [OF n] walk_lines_result [OF n'] by (auto split: if_splits)
  with chain_pins_bodies [OF assms(1,2) n] n' show ?thesis
    unfolding hash_inputs_def by blast
qed

text \<open>
  The documented limit of the chain: cutting an intact journal at any line boundary
  leaves an intact journal, so tail truncation is visible only against a remembered head.
\<close>

theorem truncation_is_undetected:
  assumes "intact (walk_lines c (kept @ gone) vk)" and "kept = [] \<or> last kept = newline"
  shows "intact (walk_lines c kept vk)"
proof -
  have "records_of (kept @ gone) = records_of kept @ records_of gone"
    by (simp add: records_of_def str_lines_append [OF assms(2)])
  with assms(1) show ?thesis
    by (auto simp: walk_lines_intact_iff check_chain_append bind_eq_Some_conv)
qed

lemma chain_state_break:
  assumes "chain_state c vk file n h" "\<not> is_blank l" "newline \<notin> set l" "carriage_return \<notin> set l"
    and "verify_line c l (hex h) n vk = Inl r"
  shows "rep_error (walk_lines c (file @ l @ [newline]) vk) =
    Some \<lparr>break_line = length (str_lines file), break_reason = r\<rparr>"
proof -
  have "str_lines (file @ l @ [newline]) = str_lines file @ [l]"
    using assms(1,3,4) by (intro str_lines_append_line) (auto simp: chain_state_def)
  moreover have "check_chain c vk 0 genesis_prev_hex (filter (\<lambda>l. \<not> is_blank l) (str_lines file)) = Some (n, hex h)"
    using assms(1) by (simp add: chain_state_def records_of_def)
  ultimately show ?thesis
    using walk_from_break [where i = 0, OF _ assms(2,5)] unfolding walk_lines_def by fastforce
qed

section \<open>Sealed logs as an interface\<close>

text \<open>
  What the two journals have in common: a file, a position and a head, and an append that
  writes one complete sealed line. Everything an operator concludes from the verifier
  follows from these laws.
\<close>

locale sealed_log =
  fixes file_of :: "'s \<Rightarrow> string"
    and count_of :: "'s \<Rightarrow> nat"
    and head_of :: "'s \<Rightarrow> bytes"
    and crypto_of :: "'s \<Rightarrow> crypto"
    and pub_of :: "'s \<Rightarrow> bytes"
    and put :: "'s \<Rightarrow> 'e \<Rightarrow> 's"
    and good :: "'s \<Rightarrow> bool"
    and valid :: "'e \<Rightarrow> bool"
  assumes good_chain: "good s \<Longrightarrow> chain_state (crypto_of s) (pub_of s) (file_of s) (count_of s) (head_of s)"
    and put_good: "good s \<Longrightarrow> valid e \<Longrightarrow> count_of s + 1 < 2 ^ 53 \<Longrightarrow> good (put s e)"
    and put_count: "good s \<Longrightarrow> valid e \<Longrightarrow> count_of s + 1 < 2 ^ 53 \<Longrightarrow> count_of (put s e) = Suc (count_of s)"
    and put_same: "crypto_of (put s e) = crypto_of s" "pub_of (put s e) = pub_of s"
    and put_extends: "good s \<Longrightarrow> valid e \<Longrightarrow> count_of s + 1 < 2 ^ 53 \<Longrightarrow> \<exists>line. file_of (put s e) = file_of s @ line"
begin

lemma foldl_put_good:
  "good s \<Longrightarrow> list_all valid es \<Longrightarrow> count_of s + length es < 2 ^ 53 \<Longrightarrow>
   good (foldl put s es) \<and> count_of (foldl put s es) = count_of s + length es \<and>
   crypto_of (foldl put s es) = crypto_of s \<and> pub_of (foldl put s es) = pub_of s \<and>
   (\<exists>added. file_of (foldl put s es) = file_of s @ added)"
proof (induction es arbitrary: s)
  case (Cons e es)
  then have lt: "count_of s + 1 < 2 ^ 53" and e: "valid e" by auto
  note step = put_good [OF Cons.prems(1) e lt] put_count [OF Cons.prems(1) e lt]
    put_same [of s e] put_extends [OF Cons.prems(1) e lt]
  obtain line where "file_of (put s e) = file_of s @ line" using step by blast
  with Cons.IH [of "put s e"] step Cons.prems(2,3) show ?case by (auto simp: step)
qed auto

lemma puts_verify:
  assumes "good s" "list_all valid es" "count_of s + length es < 2 ^ 53"
  shows "walk_lines (crypto_of s) (file_of (foldl put s es)) (pub_of s) =
    \<lparr>rep_tail = (if count_of s + length es = 0 then None
        else Some \<lparr>tail_seq = count_of s + length es - 1, tail_hash_hex = hex (head_of (foldl put s es))\<rparr>),
     rep_error = None, rep_records_ok = count_of s + length es\<rparr>"
  using foldl_put_good [OF assms] good_chain [of "foldl put s es"] chain_state_walk by fastforce

lemma puts_append_only:
  "good s \<Longrightarrow> list_all valid es \<Longrightarrow> count_of s + length es < 2 ^ 53 \<Longrightarrow> prefix (file_of s) (file_of (foldl put s es))"
  using foldl_put_good by (auto simp: prefix_def)

end

end
