(* ===== verification/Audit_Journal.thy ===== *)
theory Audit_Journal
  imports Audit_Chain
begin

text \<open>
  The audit journal of \<^verbatim>\<open>crates/audit/src/event.rs\<close> and \<^verbatim>\<open>writer.rs\<close>: the recorded events and
  the append-only writer, with verify-and-resume on opening. The text of the file is part of
  the state, and a write can stop after any number of bytes.
\<close>

section \<open>Events\<close>

datatype outcome =
    Proceeded
  | OutDenied
  | ConfirmationTimeout
  | CredentialUnresolved
  | MechanismError
  | IdentityFailed string
  | SessionOpened string
  | SessionClosed string "int option"
  | OutPolicyDrift string string

fun outcome_to_value :: "outcome \<Rightarrow> json" where
  "outcome_to_value Proceeded = JObj [(''status'', JStr ''proceeded'')]"
| "outcome_to_value OutDenied = JObj [(''status'', JStr ''denied'')]"
| "outcome_to_value ConfirmationTimeout = JObj [(''status'', JStr ''confirm_timeout'')]"
| "outcome_to_value CredentialUnresolved = JObj [(''status'', JStr ''cred_unresolved'')]"
| "outcome_to_value (IdentityFailed code) = JObj [(''status'', JStr ''identity_failed''), (''code'', JStr code)]"
| "outcome_to_value MechanismError = JObj [(''status'', JStr ''mechanism_error'')]"
| "outcome_to_value (SessionOpened handle) =
     JObj [(''status'', JStr ''session_opened''), (''session_handle'', JStr handle)]"
| "outcome_to_value (SessionClosed reason exit_code) =
     JObj [(''status'', JStr ''session_closed''), (''reason'', JStr reason),
       (''exit_code'', case exit_code of None \<Rightarrow> JNull | Some i \<Rightarrow> JInt i)]"
| "outcome_to_value (OutPolicyDrift observed detail) =
     JObj [(''status'', JStr ''policy_drift''), (''observed_hash'', JStr observed), (''detail'', JStr detail)]"

datatype record_kind = Genesis | IntentDecision | PolicyLoad | KindPolicyDrift

fun record_kind_str :: "record_kind \<Rightarrow> string" where
  "record_kind_str Genesis = ''genesis''"
| "record_kind_str IntentDecision = ''intent_decision''"
| "record_kind_str PolicyLoad = ''policy_load''"
| "record_kind_str KindPolicyDrift = ''policy_drift''"

record audit_event =
  ev_record_kind :: record_kind
  ev_ruleset_hash :: string
  ev_agent_id :: string
  ev_sponsor_id :: string
  ev_msg_id :: string
  ev_mechanism :: string
  ev_target_uri :: string
  ev_target_label :: string
  ev_cred_ref :: string
  ev_effect :: string
  ev_outcome :: outcome
  ev_intent_envelope :: json

section \<open>The writer\<close>

datatype audit_error =
    AuditIo
  | BrokenChain chain_break
  | AuditSerialize

record chain_head =
  head_seq :: nat
  head_hash_hex :: string

record audit_writer =
  aw_seq :: nat
  aw_prev_hash :: bytes
  aw_key :: bytes
  aw_file :: string

text \<open>
  \<open>write_line\<close>: \<open>None\<close> is a write that completes, \<open>Some k\<close> one that fails after \<open>k\<close> bytes of
  the line and its newline.
\<close>

definition write_line :: "nat option \<Rightarrow> string \<Rightarrow> string \<Rightarrow> bool \<times> string" where
  "write_line fault file line =
     (case fault of
        None \<Rightarrow> (True, file @ line @ [newline])
      | Some k \<Rightarrow> (False, file @ take k (line @ [newline])))"

definition audit_head :: "audit_writer \<Rightarrow> chain_head" where
  "audit_head w = \<lparr>head_seq = aw_seq w, head_hash_hex = hex (aw_prev_hash w)\<rparr>"

definition append_body :: "nat \<Rightarrow> bytes \<Rightarrow> string \<Rightarrow> audit_event \<Rightarrow> json" where
  "append_body next_seq prev_hash ts ev = JObj [
     (''chain_version'', JInt (int chain_version)),
     (''seq'', JInt (int next_seq)),
     (''kind'', JStr (record_kind_str (ev_record_kind ev))),
     (''ruleset_hash'', JStr (ev_ruleset_hash ev)),
     (''ts'', JStr ts),
     (''prev_hash'', JStr (hex prev_hash)),
     (''agent_id'', JStr (ev_agent_id ev)),
     (''sponsor_id'', JStr (ev_sponsor_id ev)),
     (''msg_id'', JStr (ev_msg_id ev)),
     (''mechanism'', JStr (ev_mechanism ev)),
     (''target_uri'', JStr (ev_target_uri ev)),
     (''target_label'', JStr (ev_target_label ev)),
     (''cred_ref'', JStr (ev_cred_ref ev)),
     (''effect'', JStr (ev_effect ev)),
     (''outcome'', outcome_to_value (ev_outcome ev)),
     (''intent'', ev_intent_envelope ev)]"

text \<open>\<open>ts\<close> is the formatted clock, \<open>None\<close> when formatting fails.\<close>

definition audit_append ::
    "crypto \<Rightarrow> nat option \<Rightarrow> string option \<Rightarrow> audit_event \<Rightarrow> audit_writer \<Rightarrow>
     (audit_error, chain_head) result \<times> audit_writer" where
  "audit_append c fault ts ev w =
     (case ts of
        None \<Rightarrow> (Err AuditSerialize, w)
      | Some now \<Rightarrow>
          (let next_seq = sat_add 64 (aw_seq w) 1;
               body = append_body next_seq (aw_prev_hash w) now ev in
           (case seal_record c body (aw_prev_hash w) (aw_key w) of
              Inl e \<Rightarrow> (Err AuditSerialize, w)
            | Inr (this_hash, line) \<Rightarrow>
                (let (ok, file) = write_line fault (aw_file w) line;
                     w' = w\<lparr>aw_seq := next_seq, aw_prev_hash := this_hash, aw_file := file\<rparr> in
                 if ok then (Ok \<lparr>head_seq = next_seq, head_hash_hex = hex this_hash\<rparr>, w')
                 else (Err AuditIo, w')))))"

definition genesis_body :: "string \<Rightarrow> json" where
  "genesis_body ts = JObj [
     (''chain_version'', JInt (int chain_version)),
     (''seq'', JInt 0),
     (''kind'', JStr ''genesis''),
     (''ruleset_hash'', JStr []),
     (''ts'', JStr ts),
     (''prev_hash'', JStr (hex zero_hash))]"

definition append_genesis ::
    "crypto \<Rightarrow> nat option \<Rightarrow> string option \<Rightarrow> audit_writer \<Rightarrow> (audit_error, unit) result \<times> audit_writer"
  where
  "append_genesis c fault ts w =
     (case ts of
        None \<Rightarrow> (Err AuditSerialize, w)
      | Some now \<Rightarrow>
          (case seal_record c (genesis_body now) zero_hash (aw_key w) of
             Inl e \<Rightarrow> (Err AuditSerialize, w)
           | Inr (hash, line) \<Rightarrow>
               (let (ok, file) = write_line fault (aw_file w) line;
                    w' = w\<lparr>aw_seq := 0, aw_prev_hash := hash, aw_file := file\<rparr> in
                if ok then (Ok (), w') else (Err AuditIo, w'))))"

text \<open>
  \<^verbatim>\<open>AuditWriter::open\<close>: \<open>existing\<close> is the content of the file (\<open>None\<close>: no file); \<open>rd\<close> says
  whether the directory can be made and the file read, \<open>op\<close> whether it can be opened for
  appending.
\<close>

definition audit_open ::
    "crypto \<Rightarrow> bool \<Rightarrow> bool \<Rightarrow> nat option \<Rightarrow> string option \<Rightarrow> bytes \<Rightarrow> string option \<Rightarrow>
     (audit_error, audit_writer) result"
  where
  "audit_open c rd op fault ts key existing =
     (if \<not> rd then Err AuditIo
      else
        (let content = (case existing of None \<Rightarrow> [] | Some s \<Rightarrow> s);
             w = \<lparr>aw_seq = 0, aw_prev_hash = zero_hash, aw_key = key, aw_file = content\<rparr> in
         if is_blank content then
           (if \<not> op then Err AuditIo
            else (case append_genesis c fault ts w of (Inl e, _) \<Rightarrow> Err e | (Inr _, w') \<Rightarrow> Ok w'))
         else
           (let report = walk_lines c content (verifying_key c key) in
            (case rep_error report of
               Some brk \<Rightarrow> Err (BrokenChain brk)
             | None \<Rightarrow>
                 (case rep_tail report of
                    None \<Rightarrow> Err (BrokenChain \<lparr>break_line = 0, break_reason = NothingVerifiable\<rparr>)
                  | Some t \<Rightarrow>
                      (case unhex (tail_hash_hex t) of
                         None \<Rightarrow> Err (BrokenChain \<lparr>break_line = tail_seq t + 1, break_reason = TailNotHex\<rparr>)
                       | Some raw \<Rightarrow>
                           if length raw \<noteq> 32
                           then Err (BrokenChain \<lparr>break_line = tail_seq t + 1, break_reason = TailNot32Bytes\<rparr>)
                           else if \<not> op then Err AuditIo
                           else Ok (w\<lparr>aw_seq := tail_seq t, aw_prev_hash := raw\<rparr>)))))))"

text \<open>A successful append at a given time.\<close>

definition journal_put :: "crypto \<Rightarrow> audit_writer \<Rightarrow> string \<times> audit_event \<Rightarrow> audit_writer" where
  "journal_put c w e = snd (audit_append c None (Some (fst e)) (snd e) w)"

section \<open>Invariant\<close>

definition writer_ok :: "crypto \<Rightarrow> audit_writer \<Rightarrow> bool" where
  "writer_ok c w \<longleftrightarrow> chain_crypto c \<and>
     chain_state c (verifying_key c (aw_key w)) (aw_file w) (Suc (aw_seq w)) (aw_prev_hash w)"

text \<open>
  Events whose values canonical JSON keeps exactly: no floats, no integers of 54 bits or more
  (an exit code has 32).
\<close>

definition event_exact :: "audit_event \<Rightarrow> bool" where
  "event_exact ev \<longleftrightarrow> json_exact (ev_intent_envelope ev) \<and> json_exact (outcome_to_value (ev_outcome ev))"

lemma append_body_extends:
  "n < 2 ^ 53 \<Longrightarrow> event_exact ev \<Longrightarrow> extends (append_body n h ts ev) n h"
  by (simp add: extends_def append_body_def get_u64_def get_str_def chain_version_def event_exact_def)

lemma genesis_body_extends: "extends (genesis_body ts) 0 zero_hash"
  by (simp add: extends_def genesis_body_def get_u64_def get_str_def chain_version_def)

lemma audit_append_step:
  assumes "writer_ok c w" "Suc (aw_seq w) < 2 ^ 53" "event_exact ev"
  obtains h line where
    "seal_record c (append_body (Suc (aw_seq w)) (aw_prev_hash w) ts ev) (aw_prev_hash w) (aw_key w) = Ok (h, line)"
    "\<And>fault. audit_append c fault (Some ts) ev w =
       (if fault = None then Ok \<lparr>head_seq = Suc (aw_seq w), head_hash_hex = hex h\<rparr> else Err AuditIo,
        w\<lparr>aw_seq := Suc (aw_seq w), aw_prev_hash := h, aw_file := snd (write_line fault (aw_file w) line)\<rparr>)"
    "chain_state c (verifying_key c (aw_key w)) (aw_file w @ line @ [newline]) (Suc (Suc (aw_seq w))) h"
proof -
  let ?n = "Suc (aw_seq w)" and ?h = "aw_prev_hash w"
  let ?body = "append_body ?n ?h ts ev"
  have ext: "extends ?body ?n ?h" using assms(2,3) by (rule append_body_extends)
  have c: "chain_crypto c" and st: "chain_state c (verifying_key c (aw_key w)) (aw_file w) ?n ?h"
    using assms(1) by (auto simp: writer_ok_def)
  obtain line where seal: "seal_record c ?body ?h (aw_key w) = Ok (compute_hash c ?body ?h, line)"
    using seal_record_ok [OF c ext] by metis
  have sat: "sat_add 64 (aw_seq w) (Suc 0) = ?n" using assms(2) by (simp add: sat_simps)
  have "audit_append c fault (Some ts) ev w =
       (if fault = None then Ok \<lparr>head_seq = ?n, head_hash_hex = hex (compute_hash c ?body ?h)\<rparr> else Err AuditIo,
        w\<lparr>aw_seq := ?n, aw_prev_hash := compute_hash c ?body ?h,
          aw_file := snd (write_line fault (aw_file w) line)\<rparr>)" for fault
    by (simp add: audit_append_def sat seal Let_def write_line_def split: option.split)
  with seal chain_state_extend [OF c st ext seal] that show thesis by blast
qed

lemma writer_ok_append [inv_intros]:
  assumes "writer_ok c w" "Suc (aw_seq w) < 2 ^ 53" "event_exact ev"
  shows "writer_ok c (snd (audit_append c None (Some ts) ev w))"
proof -
  obtain h line where *:
    "\<And>fault. audit_append c fault (Some ts) ev w =
       (if fault = None then Ok \<lparr>head_seq = Suc (aw_seq w), head_hash_hex = hex h\<rparr> else Err AuditIo,
        w\<lparr>aw_seq := Suc (aw_seq w), aw_prev_hash := h, aw_file := snd (write_line fault (aw_file w) line)\<rparr>)"
    "chain_state c (verifying_key c (aw_key w)) (aw_file w @ line @ [newline]) (Suc (Suc (aw_seq w))) h"
    using audit_append_step [OF assms, of ts] by metis
  then show ?thesis
    using assms(1) by (simp add: writer_ok_def write_line_def)
qed

lemma open_fresh:
  assumes "chain_crypto c"
  obtains w where "audit_open c True True None (Some ts) key None = Ok w"
    "writer_ok c w" "aw_seq w = 0" "aw_key w = key"
proof -
  let ?b = "genesis_body ts"
  obtain line where seal: "seal_record c ?b zero_hash key = Ok (compute_hash c ?b zero_hash, line)"
    using seal_record_ok [OF assms genesis_body_extends] by metis
  have "chain_state c (verifying_key c key) ([] @ line @ [newline]) (Suc 0) (compute_hash c ?b zero_hash)"
    by (rule chain_state_extend [OF assms chain_state_empty genesis_body_extends seal])
  moreover have "is_blank []" by (simp add: is_blank_def trim_def trim_start_def trim_end_def)
  ultimately show thesis
    using that assms seal
    by (simp add: audit_open_def append_genesis_def write_line_def writer_ok_def Let_def)
qed

interpretation journal: sealed_log aw_file "\<lambda>w. Suc (aw_seq w)" aw_prev_hash "\<lambda>w. c"
  "\<lambda>w. verifying_key c (aw_key w)" "journal_put c" "writer_ok c"
  "\<lambda>e. event_exact (snd e)"
  for c
proof
  fix w and e :: "string \<times> audit_event"
  show "writer_ok c w \<Longrightarrow> chain_state c (verifying_key c (aw_key w)) (aw_file w) (Suc (aw_seq w)) (aw_prev_hash w)"
    by (simp add: writer_ok_def)
  show "c = c" by simp
  show "verifying_key c (aw_key (journal_put c w e)) = verifying_key c (aw_key w)"
    by (simp add: journal_put_def audit_append_def Let_def write_line_def split: sum.split prod.split)
  assume ok: "writer_ok c w" and ev: "event_exact (snd e)" and lt: "Suc (aw_seq w) + 1 < 2 ^ 53"
  then have lt': "Suc (aw_seq w) < 2 ^ 53" by simp
  show "writer_ok c (journal_put c w e)"
    using writer_ok_append [OF ok lt' ev] by (simp add: journal_put_def)
  obtain h line where *:
    "\<And>fault. audit_append c fault (Some (fst e)) (snd e) w =
       (if fault = None then Ok \<lparr>head_seq = Suc (aw_seq w), head_hash_hex = hex h\<rparr> else Err AuditIo,
        w\<lparr>aw_seq := Suc (aw_seq w), aw_prev_hash := h, aw_file := snd (write_line fault (aw_file w) line)\<rparr>)"
    using audit_append_step [OF ok lt' ev, of "fst e"] by metis
  then show "Suc (aw_seq (journal_put c w e)) = Suc (Suc (aw_seq w))"
    by (simp add: journal_put_def)
  show "\<exists>line. aw_file (journal_put c w e) = aw_file w @ line"
    using * by (auto simp: journal_put_def write_line_def)
qed

section \<open>Properties\<close>

text \<open>
  Completeness of the journal: a fresh journal followed by any number of successful
  appends verifies under the gateway's key with no break, counts every record once, reports
  the writer's own head as its tail, and never rewrites what was there.
\<close>

theorem journal_verifies:
  assumes "chain_crypto c" and "audit_open c True True None (Some ts) key None = Ok w"
    and "list_all (\<lambda>e. event_exact (snd e)) es" and "Suc (length es) < 2 ^ 53"
  shows "walk_lines c (aw_file (foldl (journal_put c) w es)) (verifying_key c key) =
      \<lparr>rep_tail = Some \<lparr>tail_seq = length es,
         tail_hash_hex = hex (aw_prev_hash (foldl (journal_put c) w es))\<rparr>,
       rep_error = None, rep_records_ok = Suc (length es)\<rparr> \<and>
    prefix (aw_file w) (aw_file (foldl (journal_put c) w es))"
proof -
  have w: "writer_ok c w" "aw_seq w = 0" "aw_key w = key"
    using open_fresh [OF assms(1), of ts key] assms(2) by (metis Inr_inject)+
  have lt: "Suc (aw_seq w) + length es < 2 ^ 53" using assms(4) w(2) by simp
  show ?thesis
    using journal.puts_verify [OF w(1) assms(3) lt] journal.puts_append_only [OF w(1) assms(3) lt] w by simp
qed

definition sample_event :: audit_event where
  "sample_event = \<lparr>ev_record_kind = IntentDecision, ev_ruleset_hash = ''h'', ev_agent_id = ''a'',
     ev_sponsor_id = ''s'', ev_msg_id = ''m'', ev_mechanism = ''http-bearer'', ev_target_uri = ''u'',
     ev_target_label = ''l'', ev_cred_ref = ''local://k'', ev_effect = ''allow'', ev_outcome = Proceeded,
     ev_intent_envelope = JNull\<rparr>"

lemma sample_event_exact: "event_exact sample_event"
  by (simp add: event_exact_def sample_event_def)

theorem journal_verifies_witness:
  "\<exists>w. audit_open sample_crypto True True None (Some ''t0'') sample_seed None = Ok w \<and>
     rep_records_ok (walk_lines sample_crypto
       (aw_file (foldl (journal_put sample_crypto) w [(''t1'', sample_event), (''t2'', sample_event)]))
       (verifying_key sample_crypto sample_seed)) = 3"
proof -
  obtain w where w: "audit_open sample_crypto True True None (Some ''t0'') sample_seed None = Ok w"
    using open_fresh [OF sample_chain_crypto] by metis
  from journal_verifies [OF sample_chain_crypto w, of "[(''t1'', sample_event), (''t2'', sample_event)]"] w
  show ?thesis by (auto simp del: foldl_Cons simp: sample_event_exact)
qed

lemma is_blank_append_line:
  assumes "chain_state c vk file n h" "n > 0"
  shows "\<not> is_blank file"
proof
  assume "is_blank file"
  then have "records_of file = []" by (rule records_of_blank)
  with assms show False by (auto simp: chain_state_def)
qed

text \<open>
  Verify-and-resume: opening a journal that the writer left intact restores exactly the
  writer's state, so the next append continues the chain.
\<close>

theorem reopen_resumes:
  assumes "writer_ok c w"
  shows "audit_open c True True None ts (aw_key w) (Some (aw_file w)) = Ok w"
proof -
  have st: "chain_state c (verifying_key c (aw_key w)) (aw_file w) (Suc (aw_seq w)) (aw_prev_hash w)"
    using assms by (simp add: writer_ok_def)
  have "\<not> is_blank (aw_file w)" using is_blank_append_line [OF st] by simp
  moreover have "length (aw_prev_hash w) = 32" using st by (simp add: chain_state_def)
  ultimately show ?thesis
    by (simp add: audit_open_def Let_def chain_state_walk [OF st])
qed

text \<open>A fresh sample journal, for the witnesses.\<close>

lemma sample_writer:
  obtains w where "audit_open sample_crypto True True None (Some ''t0'') sample_seed None = Ok w"
    "writer_ok sample_crypto w" "aw_seq w = 0" "aw_key w = sample_seed"
  using open_fresh [OF sample_chain_crypto] by metis

theorem reopen_resumes_witness:
  "\<exists>w. audit_open sample_crypto True True None (Some ''t0'') sample_seed None = Ok w \<and>
     audit_open sample_crypto True True None None sample_seed (Some (aw_file w)) = Ok w"
  using sample_writer reopen_resumes [of sample_crypto _ None] by metis

section \<open>Interrupted writes\<close>

lemma audit_open_broken:
  assumes "rep_error (walk_lines c file (verifying_key c key)) = Some brk" "\<not> is_blank file"
  shows "audit_open c True True fault ts key (Some file) = Err (BrokenChain brk)"
  using assms by (simp add: audit_open_def Let_def)

lemma not_blank_append:
  assumes "chain_state c vk file (Suc n) h"
  shows "\<not> is_blank (file @ l @ [newline])"
proof
  assume "is_blank (file @ l @ [newline])"
  then have "is_blank l'" if "l' \<in> set (str_lines (file @ l @ [newline]))" for l'
    using blank_lines that by blast
  moreover have "str_lines (file @ l @ [newline]) = str_lines file @ str_lines (l @ [newline])"
    using assms by (intro str_lines_append) (auto simp: chain_state_def)
  ultimately have "records_of file = []" by (auto simp: records_of_def filter_empty_conv)
  with assms show False by (auto simp: chain_state_def)
qed

text \<open>
  A failed write desynchronises the writer: \<^verbatim>\<open>append\<close> advances its sequence number and
  predecessor hash before it writes the line. When that write fails and the next one
  succeeds, the journal has a gap: the verifier reports an unexpected sequence number, and
  the journal can no longer be opened.
\<close>

theorem lost_write_breaks_chain:
  assumes "writer_ok c w" and "Suc (Suc (aw_seq w)) < 2 ^ 53" and "event_exact ev" and "event_exact ev'"
  shows "let (r1, w1) = audit_append c (Some 0) (Some ts) ev w;
             (r2, w2) = audit_append c None (Some ts') ev' w1
         in r1 = Err AuditIo \<and> is_ok r2 \<and>
    audit_open c True True fault ts'' (aw_key w) (Some (aw_file w2)) =
      Err (BrokenChain \<lparr>break_line = length (str_lines (aw_file w)),
        break_reason = UnexpectedSeq (Suc (aw_seq w)) (Suc (Suc (aw_seq w)))\<rparr>)"
proof -
  let ?n = "Suc (aw_seq w)"
  have c: "chain_crypto c"
    and st: "chain_state c (verifying_key c (aw_key w)) (aw_file w) ?n (aw_prev_hash w)"
    using assms(1) by (auto simp: writer_ok_def)
  have lt: "?n < 2 ^ 53" using assms(2) by simp
  obtain h line where "\<And>fault. audit_append c fault (Some ts) ev w =
       (if fault = None then Ok \<lparr>head_seq = ?n, head_hash_hex = hex h\<rparr> else Err AuditIo,
        w\<lparr>aw_seq := ?n, aw_prev_hash := h, aw_file := snd (write_line fault (aw_file w) line)\<rparr>)"
    using audit_append_step [OF assms(1) lt assms(3), of ts] by metis
  then have first: "audit_append c (Some 0) (Some ts) ev w =
      (Err AuditIo, w\<lparr>aw_seq := ?n, aw_prev_hash := h, aw_file := aw_file w\<rparr>)"
    by (simp add: write_line_def)
  define w' where "w' = w\<lparr>aw_seq := ?n, aw_prev_hash := h, aw_file := aw_file w\<rparr>"
  let ?body = "append_body (Suc ?n) h ts' ev'"
  have ext: "extends ?body (Suc ?n) h" using assms(2,4) by (rule append_body_extends)
  obtain line' where seal: "seal_record c ?body h (aw_key w) = Ok (compute_hash c ?body h, line')"
      and read: "json_read c line' = Some (json_sort (stamp ?body (hex (compute_hash c ?body h))
        (sign_raw c (aw_key w) (compute_hash c ?body h))))"
    using seal_record_ok [OF c ext, of "aw_key w"] by metis
  have line': "newline \<notin> set line'" "carriage_return \<notin> set line'" "\<not> is_blank (line' @ [])"
    using sealed_line_shape [OF c ext seal] by metis+
  have sat: "sat_add 64 ?n (Suc 0) = Suc ?n" using assms(2) by (simp add: sat_simps)
  have second: "audit_append c None (Some ts') ev' w' =
      (Ok \<lparr>head_seq = Suc ?n, head_hash_hex = hex (compute_hash c ?body h)\<rparr>,
       w'\<lparr>aw_seq := Suc ?n, aw_prev_hash := compute_hash c ?body h, aw_file := aw_file w @ line' @ [newline]\<rparr>)"
    by (simp add: audit_append_def w'_def sat seal Let_def write_line_def)
  have "verify_line c line' (hex (aw_prev_hash w)) ?n (verifying_key c (aw_key w)) = Inl (UnexpectedSeq ?n (Suc ?n))"
    by (rule wrong_seq_line [OF ext read]) simp
  from chain_state_break [OF st _ line'(1,2) this] line'(3) not_blank_append [OF st, of line']
  show ?thesis
    using first second by (simp add: w'_def audit_open_broken)
qed

theorem lost_write_breaks_chain_witness:
  "\<exists>w. audit_open sample_crypto True True None (Some ''t0'') sample_seed None = Ok w \<and>
     (let (r1, w1) = audit_append sample_crypto (Some 0) (Some ''t1'') sample_event w;
          (r2, w2) = audit_append sample_crypto None (Some ''t2'') sample_event w1
      in r1 = Err AuditIo \<and> is_ok r2 \<and> audit_open sample_crypto True True None None sample_seed (Some (aw_file w2)) =
       Err (BrokenChain \<lparr>break_line = length (str_lines (aw_file w)), break_reason = UnexpectedSeq 1 2\<rparr>))"
proof -
  obtain w where w: "audit_open sample_crypto True True None (Some ''t0'') sample_seed None = Ok w"
    "writer_ok sample_crypto w" "aw_seq w = 0" "aw_key w = sample_seed" by (rule sample_writer)
  have "Suc (Suc (aw_seq w)) < 2 ^ 53" using w(3) by simp
  from lost_write_breaks_chain [OF w(2) this sample_event_exact sample_event_exact, of "''t1''" "''t2''" None None] w
  show ?thesis by (intro exI [of _ w]) (simp add: numeral_2_eq_2)
qed

text \<open>
  The line and its newline are two writes. A crash between them leaves a complete record
  without a newline: the journal opens again, but the next append is glued onto that record,
  and the line that results is not JSON. The journal is then refused at every later start.
\<close>

theorem unterminated_line_breaks_chain:
  assumes "writer_ok c w" and "json_single c" and "Suc (Suc (aw_seq w)) < 2 ^ 53"
    and "event_exact ev" and "event_exact ev'"
    and "seal_record c (append_body (Suc (aw_seq w)) (aw_prev_hash w) ts ev) (aw_prev_hash w) (aw_key w) = Ok (h, line)"
  shows "\<exists>w1. audit_open c True True None None (aw_key w)
        (Some (aw_file (snd (audit_append c (Some (length line)) (Some ts) ev w)))) = Ok w1 \<and>
      is_ok (fst (audit_append c None (Some ts') ev' w1)) \<and>
      audit_open c True True None None (aw_key w) (Some (aw_file (snd (audit_append c None (Some ts') ev' w1)))) =
        Err (BrokenChain \<lparr>break_line = length (str_lines (aw_file w)), break_reason = NotJson\<rparr>)"
proof -
  let ?n = "Suc (aw_seq w)" and ?vk = "verifying_key c (aw_key w)"
  have c: "chain_crypto c" and st: "chain_state c ?vk (aw_file w) ?n (aw_prev_hash w)"
    using assms(1) by (auto simp: writer_ok_def)
  have ext: "extends (append_body ?n (aw_prev_hash w) ts ev) ?n (aw_prev_hash w)"
    using assms(3,4) by (intro append_body_extends) simp_all
  obtain v where line: "newline \<notin> set line" "carriage_return \<notin> set line" "\<And>t. \<not> is_blank (line @ t)"
      "json_read c line = Some v" "as_object v \<noteq> None"
    by (rule sealed_line_shape [OF c ext assms(6)]) blast
  have file1: "aw_file (snd (audit_append c (Some (length line)) (Some ts) ev w)) = aw_file w @ line"
    using assms(3,6) by (simp add: audit_append_def sat_simps write_line_def Let_def)
  have st1: "check_chain c ?vk 0 genesis_prev_hex (records_of (aw_file w @ line)) = Some (Suc ?n, hex h)"
      "length h = 32"
    using chain_state_extend [OF c st ext assms(6)] records_of_unterminated [OF _ line(1,2)] st
      records_of_append_line [OF _ line(1,2)] line(3) [of "[]"] by (auto simp: chain_state_def)
  have "\<not> is_blank (aw_file w @ line)"
    using st1(1) records_of_blank by fastforce
  then have opened: "audit_open c True True None None (aw_key w) (Some (aw_file w @ line)) =
      Ok \<lparr>aw_seq = ?n, aw_prev_hash = h, aw_key = aw_key w, aw_file = aw_file w @ line\<rparr>" (is "_ = Ok ?w1")
    using walk_lines_result [OF st1(1)] st1(2) by (simp add: audit_open_def Let_def)
  let ?body = "append_body (Suc ?n) h ts' ev'"
  have ext': "extends ?body (Suc ?n) h" using assms(3,5) by (rule append_body_extends)
  obtain line' where seal': "seal_record c ?body h (aw_key w) = Ok (compute_hash c ?body h, line')"
    using seal_record_ok [OF c ext'] by metis
  obtain v' where line': "newline \<notin> set line'" "carriage_return \<notin> set line'" "\<And>t. \<not> is_blank (line' @ t)"
      "json_read c line' = Some v'" "as_object v' \<noteq> None"
    by (rule sealed_line_shape [OF c ext' seal']) blast
  have appended: "audit_append c None (Some ts') ev' ?w1 =
      (Ok \<lparr>head_seq = Suc ?n, head_hash_hex = hex (compute_hash c ?body h)\<rparr>,
       ?w1\<lparr>aw_seq := Suc ?n, aw_prev_hash := compute_hash c ?body h,
         aw_file := aw_file w @ (line @ line') @ [newline]\<rparr>)"
    using assms(3) seal' by (simp add: audit_append_def sat_simps write_line_def Let_def)
  have "json_read c (line @ line') = None"
    using assms(2) line(4,5) line'(4,5) unfolding json_single_def by blast
  then have bad: "verify_line c (line @ line') (hex (aw_prev_hash w)) ?n ?vk = Inl NotJson"
    by (simp add: verify_line_def)
  from chain_state_break [OF st line(3) _ _ bad] line(1,2) line'(1,2) not_blank_append [OF st, of "line @ line'"]
  have "audit_open c True True None None (aw_key w) (Some (aw_file w @ (line @ line') @ [newline])) =
      Err (BrokenChain \<lparr>break_line = length (str_lines (aw_file w)), break_reason = NotJson\<rparr>)"
    by (intro audit_open_broken) auto
  with opened appended file1 show ?thesis by (intro exI [of _ ?w1]) simp
qed

theorem unterminated_line_breaks_chain_witness:
  "\<exists>w k w1. audit_open sample_crypto True True None (Some ''t0'') sample_seed None = Ok w \<and>
     audit_open sample_crypto True True None None sample_seed
       (Some (aw_file (snd (audit_append sample_crypto (Some k) (Some ''t1'') sample_event w)))) = Ok w1 \<and>
     audit_open sample_crypto True True None None sample_seed
       (Some (aw_file (snd (audit_append sample_crypto None (Some ''t2'') sample_event w1)))) =
       Err (BrokenChain \<lparr>break_line = length (str_lines (aw_file w)), break_reason = NotJson\<rparr>)"
proof -
  obtain w where w: "audit_open sample_crypto True True None (Some ''t0'') sample_seed None = Ok w"
    "writer_ok sample_crypto w" "aw_seq w = 0" "aw_key w = sample_seed" by (rule sample_writer)
  have lt: "Suc (Suc (aw_seq w)) < 2 ^ 53" using w(3) by simp
  let ?body = "append_body (Suc (aw_seq w)) (aw_prev_hash w) ''t1'' sample_event"
  have ext: "extends ?body (Suc (aw_seq w)) (aw_prev_hash w)"
    using lt by (intro append_body_extends sample_event_exact) simp
  obtain line where "seal_record sample_crypto ?body (aw_prev_hash w) (aw_key w) =
      Ok (compute_hash sample_crypto ?body (aw_prev_hash w), line)"
    by (rule seal_record_ok [OF sample_chain_crypto ext, of "aw_key w"]) blast
  from unterminated_line_breaks_chain [OF w(2) sample_json_single lt sample_event_exact sample_event_exact this, of "''t2''"]
  obtain w1 where w1: "audit_open sample_crypto True True None None sample_seed
      (Some (aw_file (snd (audit_append sample_crypto (Some (length line)) (Some ''t1'') sample_event w)))) = Ok w1"
    "audit_open sample_crypto True True None None sample_seed
      (Some (aw_file (snd (audit_append sample_crypto None (Some ''t2'') sample_event w1)))) =
       Err (BrokenChain \<lparr>break_line = length (str_lines (aw_file w)), break_reason = NotJson\<rparr>)"
    unfolding w(4) by blast
  with w(1) show ?thesis by blast
qed

section \<open>Witnesses on an intact journal\<close>

text \<open>The properties of the verifier apply to the journals the writer makes.\<close>

lemma sample_intact:
  obtains j t where "intact (walk_lines sample_crypto j (verifying_key sample_crypto sample_seed))"
    "rep_tail (walk_lines sample_crypto j (verifying_key sample_crypto sample_seed)) = Some t"
    "j \<noteq> []" "last j = newline"
proof -
  obtain w where w: "writer_ok sample_crypto w" "aw_key w = sample_seed" by (rule sample_writer) blast
  then have st: "chain_state sample_crypto (verifying_key sample_crypto sample_seed) (aw_file w) (Suc (aw_seq w)) (aw_prev_hash w)"
    by (simp add: writer_ok_def)
  have "aw_file w \<noteq> []" using st by (auto simp: chain_state_def)
  moreover from this st have "last (aw_file w) = newline" by (simp add: chain_state_def)
  ultimately show thesis
    by (intro that [of "aw_file w" "\<lparr>tail_seq = aw_seq w, tail_hash_hex = hex (aw_prev_hash w)\<rparr>"])
      (simp_all add: intact_def chain_state_walk [OF st])
qed

theorem tail_pins_history_witness:
  "\<exists>j vk. intact (walk_lines sample_crypto j vk) \<and> j \<noteq> [] \<and>
     (map (record_body sample_crypto) (records_of j) = map (record_body sample_crypto) (records_of j) \<or>
      (\<exists>x \<in> hash_inputs sample_crypto j. \<exists>y \<in> hash_inputs sample_crypto j.
         x \<noteq> y \<and> sha256 sample_crypto x = sha256 sample_crypto y))"
proof -
  let ?vk = "verifying_key sample_crypto sample_seed"
  obtain j t where j: "intact (walk_lines sample_crypto j ?vk)" "rep_tail (walk_lines sample_crypto j ?vk) = Some t"
    "j \<noteq> []" by (rule sample_intact) blast
  from tail_pins_history [OF sample_crypto_ok(2) sample_jcs_members j(1) j(1) j(2) j(2)] j(1,3)
  show ?thesis by blast
qed

theorem truncation_is_undetected_witness:
  "\<exists>j vk. intact (walk_lines sample_crypto j vk) \<and> j \<noteq> [] \<and> last j = newline \<and>
     intact (walk_lines sample_crypto [] vk)"
proof -
  let ?vk = "verifying_key sample_crypto sample_seed"
  obtain j t where j: "intact (walk_lines sample_crypto j ?vk)" "j \<noteq> []" "last j = newline"
    by (rule sample_intact) blast
  then have "intact (walk_lines sample_crypto ([] @ j) ?vk)" by simp
  from truncation_is_undetected [OF this] j show ?thesis by blast
qed

end
