(* ===== verification/Transcript.thy ===== *)
theory Transcript
  imports Audit_Journal
begin

text \<open>
  The transcript of \<^verbatim>\<open>crates/audit/src/transcript.rs\<close>: a second sealed log, one record per
  frame of the agent channel, with a genesis record that binds it to the audit journal. The
  body of a record is read off the state in one critical section and sealed in another.
\<close>

section \<open>State and operations\<close>

record transcript =
  tx_seq :: nat
  tx_prev_hash :: bytes
  tx_key :: bytes
  tx_file :: string

definition evidence_class :: string where
  "evidence_class = ''self-produced''"

definition evidence_clause :: string where
  "evidence_clause = ''signed by the operator's audit key; not third-party notarized; trust rests on operator key custody''"

definition tx_genesis_body :: "string \<Rightarrow> string \<Rightarrow> string \<Rightarrow> string \<Rightarrow> json" where
  "tx_genesis_body ts audit_head_hash_hex audit_pubkey protocol_version = JObj [
     (''chain_version'', JInt (int chain_version)),
     (''seq'', JInt 0),
     (''kind'', JStr ''transcript_genesis''),
     (''ruleset_hash'', JStr []),
     (''ts'', JStr ts),
     (''prev_hash'', JStr (hex zero_hash)),
     (''evidence_class'', JStr evidence_class),
     (''evidence_clause'', JStr evidence_clause),
     (''audit_head_hash'', JStr audit_head_hash_hex),
     (''audit_pubkey'', JStr audit_pubkey),
     (''protocol_version'', JStr protocol_version)]"

definition frame_body :: "transcript \<Rightarrow> string \<Rightarrow> string \<Rightarrow> string \<Rightarrow> nat \<Rightarrow> json" where
  "frame_body s ts direction frame_b64 content_length = JObj [
     (''chain_version'', JInt (int chain_version)),
     (''seq'', JInt (int (sat_add 64 (tx_seq s) 1))),
     (''kind'', JStr ''transcript_frame''),
     (''ruleset_hash'', JStr []),
     (''ts'', JStr ts),
     (''prev_hash'', JStr (hex (tx_prev_hash s))),
     (''direction'', JStr direction),
     (''content_length'', JInt (int content_length)),
     (''frame_b64'', JStr frame_b64)]"

definition end_body :: "transcript \<Rightarrow> string \<Rightarrow> nat \<Rightarrow> json" where
  "end_body s ts frame_count = JObj [
     (''chain_version'', JInt (int chain_version)),
     (''seq'', JInt (int (sat_add 64 (tx_seq s) 1))),
     (''kind'', JStr ''transcript_end''),
     (''ruleset_hash'', JStr []),
     (''ts'', JStr ts),
     (''prev_hash'', JStr (hex (tx_prev_hash s))),
     (''frame_count'', JInt (int frame_count))]"

definition seal_and_write ::
    "crypto \<Rightarrow> nat option \<Rightarrow> json \<Rightarrow> transcript \<Rightarrow> (audit_error, chain_head) result \<times> transcript" where
  "seal_and_write c fault body s =
     (case get_u64 body ''seq'' of
        None \<Rightarrow> (Err AuditSerialize, s)
      | Some seq \<Rightarrow>
          (case seal_record c body (tx_prev_hash s) (tx_key s) of
             Inl e \<Rightarrow> (Err AuditSerialize, s)
           | Inr (this_hash, line) \<Rightarrow>
               (let (ok, file) = write_line fault (tx_file s) line;
                    s' = s\<lparr>tx_seq := seq, tx_prev_hash := this_hash, tx_file := file\<rparr> in
                if ok then (Ok \<lparr>head_seq = seq, head_hash_hex = hex this_hash\<rparr>, s')
                else (Err AuditIo, s'))))"

text \<open>\<open>present\<close>: a file is there already. \<open>io\<close>: the directory and the file can be made.\<close>

definition transcript_create ::
    "crypto \<Rightarrow> bool \<Rightarrow> bool \<Rightarrow> nat option \<Rightarrow> string option \<Rightarrow> bytes \<Rightarrow> string \<Rightarrow> string \<Rightarrow> string \<Rightarrow>
     (audit_error, transcript) result" where
  "transcript_create c present io fault ts key audit_head_hash_hex audit_pubkey protocol_version =
     (if present then Err AuditIo
      else if \<not> io then Err AuditIo
      else (case ts of
        None \<Rightarrow> Err AuditSerialize
      | Some now \<Rightarrow>
          (case seal_and_write c fault (tx_genesis_body now audit_head_hash_hex audit_pubkey protocol_version)
                 \<lparr>tx_seq = 0, tx_prev_hash = zero_hash, tx_key = key, tx_file = []\<rparr> of
             (Inl e, _) \<Rightarrow> Err e
           | (Inr _, s) \<Rightarrow> Ok s)))"

definition append_frame ::
    "crypto \<Rightarrow> nat option \<Rightarrow> string option \<Rightarrow> string \<Rightarrow> string \<Rightarrow> nat \<Rightarrow> transcript \<Rightarrow>
     (audit_error, chain_head) result \<times> transcript" where
  "append_frame c fault ts direction frame_b64 content_length s =
     (case ts of
        None \<Rightarrow> (Err AuditSerialize, s)
      | Some now \<Rightarrow> seal_and_write c fault (frame_body s now direction frame_b64 content_length) s)"

definition transcript_end ::
    "crypto \<Rightarrow> nat option \<Rightarrow> string option \<Rightarrow> nat \<Rightarrow> transcript \<Rightarrow> (audit_error, chain_head) result \<times> transcript"
  where
  "transcript_end c fault ts frame_count s =
     (case ts of
        None \<Rightarrow> (Err AuditSerialize, s)
      | Some now \<Rightarrow> seal_and_write c fault (end_body s now frame_count) s)"

definition transcript_head :: "transcript \<Rightarrow> chain_head" where
  "transcript_head s = \<lparr>head_seq = tx_seq s, head_hash_hex = hex (tx_prev_hash s)\<rparr>"

text \<open>What a run appends: frames, and the end marker of a graceful shutdown.\<close>

datatype tx_entry = Frame string string string nat | TheEnd string nat

fun tx_put :: "crypto \<Rightarrow> transcript \<Rightarrow> tx_entry \<Rightarrow> transcript" where
  "tx_put c s (Frame ts direction b64 len) = snd (append_frame c None (Some ts) direction b64 len s)"
| "tx_put c s (TheEnd ts count) = snd (transcript_end c None (Some ts) count s)"

fun entry_exact :: "tx_entry \<Rightarrow> bool" where
  "entry_exact (Frame _ _ _ len) = (len < 2 ^ 53)"
| "entry_exact (TheEnd _ count) = (count < 2 ^ 53)"

section \<open>Invariant\<close>

definition transcript_ok :: "crypto \<Rightarrow> transcript \<Rightarrow> bool" where
  "transcript_ok c s \<longleftrightarrow> chain_crypto c \<and>
     chain_state c (verifying_key c (tx_key s)) (tx_file s) (Suc (tx_seq s)) (tx_prev_hash s)"

lemma tx_bodies_extend:
  assumes "Suc (tx_seq s) < 2 ^ 53"
  shows "len < 2 ^ 53 \<Longrightarrow> extends (frame_body s ts d b len) (Suc (tx_seq s)) (tx_prev_hash s)"
    and "len < 2 ^ 53 \<Longrightarrow> extends (end_body s ts len) (Suc (tx_seq s)) (tx_prev_hash s)"
  using assms
  by (simp_all add: extends_def frame_body_def end_body_def get_u64_def get_str_def chain_version_def sat_simps)

lemma tx_put_body:
  assumes "Suc (tx_seq s) < 2 ^ 53" "entry_exact e"
  shows "\<exists>body. extends body (Suc (tx_seq s)) (tx_prev_hash s) \<and> tx_put c s e = snd (seal_and_write c None body s)"
proof (cases e)
  case (Frame ts d b len)
  with assms tx_bodies_extend(1) show ?thesis by (fastforce simp: append_frame_def)
next
  case (TheEnd ts count)
  with assms tx_bodies_extend(2) show ?thesis by (fastforce simp: transcript_end_def)
qed

lemma tx_genesis_extends: "extends (tx_genesis_body ts a p v) 0 zero_hash"
  by (simp add: extends_def tx_genesis_body_def get_u64_def get_str_def chain_version_def)

lemma seal_and_write_step:
  assumes c: "chain_crypto c" and ext: "extends body n (tx_prev_hash s)"
    and st: "chain_state c (verifying_key c (tx_key s)) (tx_file s) n (tx_prev_hash s)"
  obtains h line where
    "seal_record c body (tx_prev_hash s) (tx_key s) = Ok (h, line)"
    "seal_and_write c None body s = (Ok \<lparr>head_seq = n, head_hash_hex = hex h\<rparr>,
       s\<lparr>tx_seq := n, tx_prev_hash := h, tx_file := tx_file s @ line @ [newline]\<rparr>)"
    "chain_state c (verifying_key c (tx_key s)) (tx_file s @ line @ [newline]) (Suc n) h"
proof -
  obtain line where seal: "seal_record c body (tx_prev_hash s) (tx_key s) =
      Ok (compute_hash c body (tx_prev_hash s), line)"
    using seal_record_ok [OF c ext] by metis
  have "get_u64 body ''seq'' = Some n" using ext by (simp add: extends_def)
  with seal chain_state_extend [OF c st ext seal] show thesis
    by (intro that) (simp_all add: seal_and_write_def write_line_def)
qed

lemma tx_put_step:
  assumes "transcript_ok c s" "entry_exact e" "Suc (tx_seq s) < 2 ^ 53"
  obtains h line where
    "tx_put c s e = s\<lparr>tx_seq := Suc (tx_seq s), tx_prev_hash := h, tx_file := tx_file s @ line @ [newline]\<rparr>"
    "transcript_ok c (tx_put c s e)"
proof -
  have ok: "chain_crypto c" "chain_state c (verifying_key c (tx_key s)) (tx_file s) (Suc (tx_seq s)) (tx_prev_hash s)"
    using assms(1) by (auto simp: transcript_ok_def)
  obtain body where body: "extends body (Suc (tx_seq s)) (tx_prev_hash s)"
      "tx_put c s e = snd (seal_and_write c None body s)"
    using tx_put_body [OF assms(3,2)] by blast
  show thesis
    by (rule seal_and_write_step [OF ok(1) body(1) ok(2)])
      (rule that, use ok body(2) in \<open>auto simp: transcript_ok_def\<close>)
qed

lemma tx_put_key: "tx_key (tx_put c s e) = tx_key s"
  by (cases e) (auto simp: append_frame_def transcript_end_def seal_and_write_def Let_def write_line_def
    split: option.split sum.split prod.split)

interpretation transcript_log: sealed_log tx_file "\<lambda>s. Suc (tx_seq s)" tx_prev_hash "\<lambda>s. c"
  "\<lambda>s. verifying_key c (tx_key s)" "tx_put c" "transcript_ok c" entry_exact
  for c
proof
  fix s e
  show "transcript_ok c s \<Longrightarrow>
      chain_state c (verifying_key c (tx_key s)) (tx_file s) (Suc (tx_seq s)) (tx_prev_hash s)"
    by (simp add: transcript_ok_def)
  show "c = c" by simp
  show "verifying_key c (tx_key (tx_put c s e)) = verifying_key c (tx_key s)" by (simp add: tx_put_key)
  assume ok: "transcript_ok c s" "entry_exact e" and "Suc (tx_seq s) + 1 < 2 ^ 53"
  then have lt: "Suc (tx_seq s) < 2 ^ 53" by simp
  obtain h line where put:
      "tx_put c s e = s\<lparr>tx_seq := Suc (tx_seq s), tx_prev_hash := h, tx_file := tx_file s @ line @ [newline]\<rparr>"
      "transcript_ok c (tx_put c s e)"
    by (rule tx_put_step [OF ok lt])
  show "transcript_ok c (tx_put c s e)" by (rule put(2))
  show "Suc (tx_seq (tx_put c s e)) = Suc (Suc (tx_seq s))" by (simp add: put(1))
  show "\<exists>line. tx_file (tx_put c s e) = tx_file s @ line" by (simp add: put(1))
qed

lemma transcript_create_ok:
  assumes "chain_crypto c"
  obtains s where "transcript_create c False True None (Some ts) key a p v = Ok s"
    "transcript_ok c s" "tx_seq s = 0" "tx_key s = key"
proof -
  let ?s = "\<lparr>tx_seq = 0, tx_prev_hash = zero_hash, tx_key = key, tx_file = []\<rparr>"
  have st: "chain_state c (verifying_key c (tx_key ?s)) (tx_file ?s) 0 (tx_prev_hash ?s)"
    using chain_state_empty by simp
  have ext: "extends (tx_genesis_body ts a p v) 0 (tx_prev_hash ?s)"
    using tx_genesis_extends by simp
  obtain h line where w: "seal_and_write c None (tx_genesis_body ts a p v) ?s =
        (Ok \<lparr>head_seq = 0, head_hash_hex = hex h\<rparr>, ?s\<lparr>tx_prev_hash := h, tx_file := line @ [newline]\<rparr>)"
      and st': "chain_state c (verifying_key c key) (line @ [newline]) (Suc 0) h"
    by (rule seal_and_write_step [OF assms ext st]) simp
  show thesis
    by (rule that [of "?s\<lparr>tx_prev_hash := h, tx_file := line @ [newline]\<rparr>"])
      (simp_all add: transcript_create_def w transcript_ok_def assms st')
qed

section \<open>Properties\<close>

text \<open>
  (C14) A transcript that one thread at a time writes verifies with the same verifier as the
  audit journal: a fresh transcript with any number of frames and an end marker has no break,
  one record per entry after its genesis, and its head is the verifier's tail.
\<close>

theorem transcript_verifies:
  assumes "chain_crypto c" and "transcript_create c False True None (Some ts) key a p v = Ok s"
    and "list_all entry_exact es" and "Suc (length es) < 2 ^ 53"
  shows "walk_lines c (tx_file (foldl (tx_put c) s es)) (verifying_key c key) =
      \<lparr>rep_tail = Some \<lparr>tail_seq = length es,
         tail_hash_hex = head_hash_hex (transcript_head (foldl (tx_put c) s es))\<rparr>,
       rep_error = None, rep_records_ok = Suc (length es)\<rparr>"
proof -
  have s: "transcript_ok c s" "tx_seq s = 0" "tx_key s = key"
    using transcript_create_ok [OF assms(1), of ts key a p v] assms(2) by (metis Inr_inject)+
  have lt: "Suc (tx_seq s) + length es < 2 ^ 53" using assms(4) s(2) by simp
  show ?thesis
    using transcript_log.puts_verify [OF s(1) assms(3) lt] s by (simp add: transcript_head_def)
qed

lemma sample_transcript:
  obtains s where "transcript_create sample_crypto False True None (Some ''t0'') sample_seed ''h'' ''k'' ''0.1'' = Ok s"
    "transcript_ok sample_crypto s" "tx_seq s = 0" "tx_key s = sample_seed"
  by (rule transcript_create_ok [OF sample_chain_crypto])

theorem transcript_verifies_witness:
  "\<exists>s. transcript_create sample_crypto False True None (Some ''t0'') sample_seed ''h'' ''k'' ''0.1'' = Ok s \<and>
     rep_records_ok (walk_lines sample_crypto
       (tx_file (foldl (tx_put sample_crypto) s [Frame ''t1'' ''request'' ''aGk'' 2, TheEnd ''t2'' 1]))
       (verifying_key sample_crypto sample_seed)) = 3"
proof -
  obtain s where s: "transcript_create sample_crypto False True None (Some ''t0'') sample_seed ''h'' ''k'' ''0.1'' = Ok s"
    by (rule sample_transcript)
  from transcript_verifies [OF sample_chain_crypto s, of "[Frame ''t1'' ''request'' ''aGk'' 2, TheEnd ''t2'' 1]"] s
  show ?thesis by (auto simp del: foldl_Cons)
qed

text \<open>
  Two threads that record frames at the same time can break the transcript: both read the
  state before either seals, so both bodies carry the same sequence number, and the second
  sealed record fails verification although every write succeeded.
\<close>

theorem interleaved_frames_break_transcript:
  assumes "transcript_ok c s" and "Suc (Suc (tx_seq s)) < 2 ^ 53" and "len1 < 2 ^ 53" and "len2 < 2 ^ 53"
  shows "let body1 = frame_body s ts1 d1 b1 len1; body2 = frame_body s ts2 d2 b2 len2;
             (r1, s1) = seal_and_write c None body1 s;
             (r2, s2) = seal_and_write c None body2 s1
         in is_ok r1 \<and> is_ok r2 \<and>
            rep_error (walk_lines c (tx_file s2) (verifying_key c (tx_key s))) =
              Some \<lparr>break_line = Suc (length (str_lines (tx_file s))),
                break_reason = UnexpectedSeq (Suc (Suc (tx_seq s))) (Suc (tx_seq s))\<rparr>"
proof -
  let ?n = "Suc (tx_seq s)" and ?vk = "verifying_key c (tx_key s)"
  let ?b1 = "frame_body s ts1 d1 b1 len1" and ?b2 = "frame_body s ts2 d2 b2 len2"
  have c: "chain_crypto c" and st: "chain_state c ?vk (tx_file s) ?n (tx_prev_hash s)"
    using assms(1) by (auto simp: transcript_ok_def)
  have lt: "?n < 2 ^ 53" using assms(2) by simp
  note ext1 = tx_bodies_extend(1) [OF lt assms(3), of ts1 d1 b1]
  note ext2 = tx_bodies_extend(1) [OF lt assms(4), of ts2 d2 b2]
  obtain h line where one: "seal_and_write c None ?b1 s = (Ok \<lparr>head_seq = ?n, head_hash_hex = hex h\<rparr>,
        s\<lparr>tx_seq := ?n, tx_prev_hash := h, tx_file := tx_file s @ line @ [newline]\<rparr>)"
      and sealed: "seal_record c ?b1 (tx_prev_hash s) (tx_key s) = Ok (h, line)"
      and st1: "chain_state c ?vk (tx_file s @ line @ [newline]) (Suc ?n) h"
    by (rule seal_and_write_step [OF c ext1 st]) blast
  obtain line2 where seal2: "seal_record c ?b2 h (tx_key s) = Ok (compute_hash c ?b2 h, line2)"
      and read2: "json_read c line2 = Some (json_sort (stamp ?b2 (hex (compute_hash c ?b2 h))
        (sign_raw c (tx_key s) (compute_hash c ?b2 h))))"
      and line2: "newline \<notin> set line2" "carriage_return \<notin> set line2" "line2 \<noteq> []" "graphic (hd line2)"
    by (rule seal_record_any [OF c ext2, of h "tx_key s"])
  have two: "seal_and_write c None ?b2 (s\<lparr>tx_seq := ?n, tx_prev_hash := h, tx_file := tx_file s @ line @ [newline]\<rparr>) =
      (Ok \<lparr>head_seq = ?n, head_hash_hex = hex (compute_hash c ?b2 h)\<rparr>,
       s\<lparr>tx_seq := ?n, tx_prev_hash := compute_hash c ?b2 h,
         tx_file := (tx_file s @ line @ [newline]) @ line2 @ [newline]\<rparr>)"
    using ext2 seal2 by (simp add: seal_and_write_def write_line_def extends_def)
  have "verify_line c line2 (hex h) (Suc ?n) ?vk = Inl (UnexpectedSeq (Suc ?n) ?n)"
    by (rule wrong_seq_line [OF ext2 read2]) simp
  moreover have "\<not> is_blank line2" using graphic_not_blank [OF line2(3,4), of "[]"] by simp
  ultimately have "rep_error (walk_lines c ((tx_file s @ line @ [newline]) @ line2 @ [newline]) ?vk) =
      Some \<lparr>break_line = length (str_lines (tx_file s @ line @ [newline])),
        break_reason = UnexpectedSeq (Suc ?n) ?n\<rparr>"
    using chain_state_break [OF st1 _ line2(1,2)] by blast
  moreover have "str_lines (tx_file s @ line @ [newline]) = str_lines (tx_file s) @ [line]"
    using sealed_line_shape [OF c ext1 sealed] st by (metis chain_state_def str_lines_append_line)
  ultimately show ?thesis using one two by simp
qed

theorem interleaved_frames_break_transcript_witness:
  "\<exists>s. transcript_create sample_crypto False True None (Some ''t0'') sample_seed ''h'' ''k'' ''0.1'' = Ok s \<and>
     (let body1 = frame_body s ''t1'' ''request'' ''aGk'' 2; body2 = frame_body s ''t1'' ''response'' ''b2s'' 2;
          (r1, s1) = seal_and_write sample_crypto None body1 s;
          (r2, s2) = seal_and_write sample_crypto None body2 s1
      in is_ok r1 \<and> is_ok r2 \<and>
         \<not> intact (walk_lines sample_crypto (tx_file s2) (verifying_key sample_crypto sample_seed)))"
proof -
  obtain s where s: "transcript_create sample_crypto False True None (Some ''t0'') sample_seed ''h'' ''k'' ''0.1'' = Ok s"
    "transcript_ok sample_crypto s" "tx_seq s = 0" "tx_key s = sample_seed"
    by (rule sample_transcript)
  have lt: "Suc (Suc (tx_seq s)) < 2 ^ 53" "(2 :: nat) < 2 ^ 53" using s(3) by simp_all
  show ?thesis
    using interleaved_frames_break_transcript
      [OF s(2) lt(1,2,2), of "''t1''" "''request''" "''aGk''" "''t1''" "''response''" "''b2s''"] s
    by (intro exI [of _ s]) (auto simp: intact_def Let_def split: prod.splits)
qed

end
