(* ===== verification/Http_Injector.thy ===== *)
theory Http_Injector
  imports Protocol
begin

text \<open>
  The HTTP injector (\<^verbatim>\<open>crates/injectors/src/http.rs\<close>, \<^verbatim>\<open>lib.rs\<close>): building the one
  authenticated request, reading the response under its ceiling, and scrubbing reflected
  credentials. The HTTP client, header validation and standard base64 are parameters.
\<close>

section \<open>Errors\<close>

datatype transport_error =
    ConnectionRefused | TransportTimeout | TlsFailure | DnsFailure | BodyReadFailed
  | RequestBuildFailed | AuditAppendFailed

fun transport_detail :: "transport_error \<Rightarrow> string" where
  "transport_detail ConnectionRefused = ''connection refused''"
| "transport_detail TransportTimeout = ''timed out''"
| "transport_detail TlsFailure = ''TLS failure''"
| "transport_detail DnsFailure = ''host not resolved''"
| "transport_detail BodyReadFailed = ''response body unreadable''"
| "transport_detail RequestBuildFailed = ''request could not be built''"
| "transport_detail AuditAppendFailed = ''audit record could not be appended''"

text \<open>What the client tells about the kind of an error, and its text.\<close>

record client_error =
  ce_timeout :: bool
  ce_connect :: bool
  ce_body :: bool
  ce_decode :: bool
  ce_builder :: bool
  ce_request :: bool
  ce_message :: string

definition classify :: "client_error \<Rightarrow> transport_error" where
  "classify e =
     (if ce_timeout e then TransportTimeout
      else if ce_connect e then ConnectionRefused
      else if ce_body e \<or> ce_decode e then BodyReadFailed
      else if ce_builder e \<or> ce_request e then RequestBuildFailed
      else TlsFailure)"

datatype injector_error =
    BadOperation string
  | CredentialUnusable
  | Transport transport_error
  | ResponseTooLarge nat

fun injector_error_text :: "injector_error \<Rightarrow> string" where
  "injector_error_text (BadOperation e) = ''invalid operation: '' @ e"
| "injector_error_text CredentialUnusable = ''credential cannot be attached to this request''"
| "injector_error_text (Transport e) = ''outbound call failed: '' @ transport_detail e"
| "injector_error_text (ResponseTooLarge limit) =
     ''response exceeded the '' @ dec_of_nat limit @ ''-byte ceiling''"

section \<open>Requests and responses\<close>

record http_limits =
  hl_max_response_bytes :: nat
  hl_timeout_secs :: nat

record http_request =
  rq_method :: string
  rq_uri :: string
  rq_headers :: "(string \<times> string) list"
  rq_timeout_secs :: nat
  rq_body :: "bytes option"

text \<open>
  A response as the client delivers it: header values that are not visible ASCII have no
  text, and the body is a stream of chunks that ends or fails.
\<close>

record raw_response =
  raw_status :: nat
  raw_headers :: "(string \<times> string option) list"
  raw_chunks :: "bytes list"
  raw_failure :: "client_error option"

record http_response =
  rs_status :: nat
  rs_headers :: "(string \<times> string) list"
  rs_body :: bytes

record http_env =
  he_b64 :: "bytes \<Rightarrow> string"
  he_unb64 :: "string \<Rightarrow> bytes option"
  he_header_name :: "string \<Rightarrow> string option"
  he_header_value :: "string \<Rightarrow> bool"
  he_method :: "string \<Rightarrow> bool"
  he_send :: "http_request \<Rightarrow> (client_error, raw_response) result"

definition redaction_marker :: bytes where
  "redaction_marker = ''[REDACTED-CREDENTIAL]''"

section \<open>Reading under the ceiling\<close>

text \<open>The loop: \<open>body\<close> is what was read so far.\<close>

fun read_chunks :: "nat \<Rightarrow> bytes \<Rightarrow> bytes list \<Rightarrow> client_error option \<Rightarrow> (injector_error, bytes) result" where
  "read_chunks cap_bytes body [] failure =
     (case failure of Some e \<Rightarrow> Err (Transport (classify e)) | None \<Rightarrow> Ok body)"
| "read_chunks cap_bytes body (chunk # chunks) failure =
     (if sat_add 64 (length body) (length chunk) > cap_bytes then Err (ResponseTooLarge cap_bytes)
      else read_chunks cap_bytes (body @ chunk) chunks failure)"

definition read_body_capped :: "raw_response \<Rightarrow> nat \<Rightarrow> (injector_error, bytes) result" where
  "read_body_capped response cap_bytes = read_chunks cap_bytes [] (raw_chunks response) (raw_failure response)"

section \<open>Scrubbing\<close>

text \<open>One pass over the data: every occurrence of \<open>form\<close>, left to right, becomes the marker.\<close>

function scrub_form :: "bytes \<Rightarrow> bytes \<Rightarrow> bytes" where
  "scrub_form form [] = []"
| "scrub_form form (c # s) =
     (if form \<noteq> [] \<and> starts_with (c # s) form
      then redaction_marker @ scrub_form form (drop (length form) (c # s))
      else c # scrub_form form s)"
  by pat_completeness auto
termination
  by (relation "measure (length o snd)") auto

definition scrub_bytes :: "bytes \<Rightarrow> bytes list \<Rightarrow> bytes" where
  "scrub_bytes data secrets =
     foldl (\<lambda>d form. scrub_form form d) data
       (sort_key (\<lambda>s. - int (length s)) (filter (\<lambda>s. s \<noteq> []) secrets))"

definition scrub_header_pairs :: "(string \<times> string) list \<Rightarrow> bytes list \<Rightarrow> (string \<times> string) list" where
  "scrub_header_pairs pairs secrets = map (\<lambda>(name, value). (name, scrub_bytes value secrets)) pairs"

section \<open>The authenticated request\<close>

definition assemble_authorization ::
    "http_env \<Rightarrow> string \<Rightarrow> http_operation \<Rightarrow> string \<Rightarrow> (injector_error, string) result" where
  "assemble_authorization env mechanism operation secret =
     (if mechanism = ''http-bearer'' then
        (let header_value = ''Bearer '' @ secret in
         if he_header_value env header_value then Ok header_value else Err CredentialUnusable)
      else if mechanism = ''http-basic'' then
        (case h_username operation of
           None \<Rightarrow> Err (BadOperation ''http-basic requires a username field (D14)'')
         | Some username \<Rightarrow>
             if CHR '':'' \<in> set username then Err (BadOperation ''username must not contain ':' (RFC 7617)'')
             else (let header_value = ''Basic '' @ he_b64 env (username @ '':'' @ secret) in
               if he_header_value env header_value then Ok header_value else Err CredentialUnusable))
      else Err (BadOperation (debug_str mechanism @ '' is not an http mechanism'')))"

fun agent_headers ::
    "http_env \<Rightarrow> (string \<times> string) list \<Rightarrow> (string \<times> string) list \<Rightarrow> (injector_error, (string \<times> string) list) result"
  where
  "agent_headers env [] headers = Ok headers"
| "agent_headers env ((name, v) # rest) headers =
     (case he_header_name env name of
        None \<Rightarrow> Err (BadOperation (''invalid header name '' @ debug_str name))
      | Some n \<Rightarrow>
          if \<not> he_header_value env v then Err (BadOperation (''invalid header value for '' @ debug_str n))
          else agent_headers env rest (AList.update n v headers))"

definition build_request ::
    "http_env \<Rightarrow> string \<Rightarrow> http_operation \<Rightarrow> string \<Rightarrow> http_limits \<Rightarrow> (injector_error, http_request) result" where
  "build_request env target_uri operation auth_value limits =
     (if \<not> starts_with target_uri ''http://'' \<and> \<not> starts_with target_uri ''https://''
      then Err (BadOperation (''unsupported target scheme in '' @ debug_str target_uri))
      else (case agent_headers env (h_headers operation) [] of
        Inl e \<Rightarrow> Err e
      | Inr headers \<Rightarrow>
          if \<not> he_method env (h_method operation)
          then Err (BadOperation (''unknown method '' @ debug_str (h_method operation)))
          else (let rq = \<lparr>rq_method = h_method operation, rq_uri = target_uri,
                  rq_headers = AList.update ''authorization'' auth_value headers,
                  rq_timeout_secs = hl_timeout_secs limits, rq_body = None\<rparr> in
            (case h_body_b64 operation of
               None \<Rightarrow> Ok rq
             | Some body_b64 \<Rightarrow>
                 (case he_unb64 env (trim body_b64) of
                    None \<Rightarrow> Err (BadOperation ''body_b64 is not valid base64'')
                  | Some body \<Rightarrow> Ok (rq\<lparr>rq_body := Some body\<rparr>))))))"

definition reflectable_forms :: "string \<Rightarrow> string \<Rightarrow> bytes list" where
  "reflectable_forms auth_value secret = auth_value # (if secret = [] then [] else [secret])"

definition response_headers :: "raw_response \<Rightarrow> (string \<times> string) list" where
  "response_headers r =
     concat (map (\<lambda>(k, v). case v of None \<Rightarrow> [] | Some s \<Rightarrow> [(to_ascii_lowercase k, s)]) (raw_headers r))"

definition execute ::
    "http_env \<Rightarrow> string \<Rightarrow> string \<Rightarrow> http_operation \<Rightarrow> string \<Rightarrow> http_limits \<Rightarrow> (injector_error, http_response) result" where
  "execute env mechanism target_uri operation secret limits =
     bind_res (assemble_authorization env mechanism operation secret) (\<lambda>auth_value.
       bind_res (build_request env target_uri operation auth_value limits) (\<lambda>rq.
         (case he_send env rq of
            Inl e \<Rightarrow> Err (Transport (classify e))
          | Inr response \<Rightarrow>
              bind_res (read_body_capped response (hl_max_response_bytes limits)) (\<lambda>body.
                let forms = reflectable_forms auth_value secret in
                Ok \<lparr>rs_status = raw_status response,
                    rs_headers = scrub_header_pairs (response_headers response) forms,
                    rs_body = scrub_bytes body forms\<rparr>))))"

section \<open>The ceiling\<close>

lemma read_chunks_spec:
  assumes "length body \<le> cap" "cap < 2 ^ 64 - 1"
  shows "read_chunks cap body chunks failure =
    (if cap < length body + length (concat chunks) then Err (ResponseTooLarge cap)
     else case failure of Some e \<Rightarrow> Err (Transport (classify e)) | None \<Rightarrow> Ok (body @ concat chunks))"
  using assms
proof (induction chunks arbitrary: body)
  case (Cons chunk chunks)
  then show ?case
    by (cases "cap < length body + length chunk") (cases failure; auto simp: sat_add_def)+
qed (auto split: option.split)

text \<open>
  The response ceiling is exact: the body is relayed whole when the stream ends and its
  total size is at most the ceiling, and otherwise the call fails; a stream that goes over the
  ceiling is always reported as too large, however it is cut into chunks.
\<close>

theorem read_body_capped_exact:
  assumes "cap < 2 ^ 64 - 1"
  shows "read_body_capped response cap =
    (if cap < length (concat (raw_chunks response)) then Err (ResponseTooLarge cap)
     else case raw_failure response of
       Some e \<Rightarrow> Err (Transport (classify e)) | None \<Rightarrow> Ok (concat (raw_chunks response)))"
  using read_chunks_spec [of "[]" cap] assms by (cases "raw_failure response") (simp_all add: read_body_capped_def)

theorem read_body_capped_exact_witness:
  "read_body_capped \<lparr>raw_status = 200, raw_headers = [], raw_chunks = [''ab'', ''cde''], raw_failure = None\<rparr> 4 =
     Err (ResponseTooLarge 4)"
  using read_body_capped_exact [of 4 "\<lparr>raw_status = 200, raw_headers = [], raw_chunks = [''ab'', ''cde''], raw_failure = None\<rparr>"]
  by simp

section \<open>The outbound call\<close>

lemma execute_Ok:
  assumes "execute env mechanism uri operation secret limits = Ok resp"
  obtains auth rq response body where
    "assemble_authorization env mechanism operation secret = Ok auth"
    "build_request env uri operation auth limits = Ok rq" "he_send env rq = Ok response"
    "read_body_capped response (hl_max_response_bytes limits) = Ok body"
    "resp = \<lparr>rs_status = raw_status response,
      rs_headers = scrub_header_pairs (response_headers response) (reflectable_forms auth secret),
      rs_body = scrub_bytes body (reflectable_forms auth secret)\<rparr>"
proof -
  from assms obtain auth rq where a: "assemble_authorization env mechanism operation secret = Ok auth"
      "build_request env uri operation auth limits = Ok rq"
    by (auto simp: execute_def)
  with assms obtain response where r: "he_send env rq = Ok response"
    by (auto simp: execute_def split: sum.splits)
  with assms a obtain body where "read_body_capped response (hl_max_response_bytes limits) = Ok body"
      "resp = \<lparr>rs_status = raw_status response,
        rs_headers = scrub_header_pairs (response_headers response) (reflectable_forms auth secret),
        rs_body = scrub_bytes body (reflectable_forms auth secret)\<rparr>"
    by (auto simp: execute_def Let_def)
  with a r that show thesis by blast
qed

lemma agent_headers_keys:
  "agent_headers env hs acc = Ok headers \<Longrightarrow> distinct (map fst acc) \<Longrightarrow> distinct (map fst headers)"
  by (induction env hs acc rule: agent_headers.induct)
    (auto split: option.splits if_splits simp: distinct_update)

text \<open>
  Every outbound call goes to the target of the signed intent alone, under the
  configured timeout, and carries exactly one Authorization header, the one made from the
  resolved secret; nothing the agent wrote in its headers can replace it.
\<close>

theorem build_request_authorized:
  assumes "build_request env uri operation auth limits = Ok rq"
  shows "rq_uri rq = uri \<and> rq_timeout_secs rq = hl_timeout_secs limits \<and>
    (starts_with uri ''http://'' \<or> starts_with uri ''https://'') \<and>
    filter (\<lambda>h. fst h = ''authorization'') (rq_headers rq) = [(''authorization'', auth)]"
proof -
  obtain headers where h: "agent_headers env (h_headers operation) [] = Ok headers"
      "rq_headers rq = AList.update ''authorization'' auth headers"
      "rq_uri rq = uri" "rq_timeout_secs rq = hl_timeout_secs limits"
      "starts_with uri ''http://'' \<or> starts_with uri ''https://''"
    using assms by (auto simp: build_request_def Let_def split: if_splits sum.splits option.splits)
  have "distinct (map fst headers)" using agent_headers_keys [OF h(1)] by simp
  then have "filter (\<lambda>h. fst h = k) (AList.update k a headers) = [(k, a)]" for k :: string and a
    by (induction headers) (force simp: filter_empty_conv)+
  with h show ?thesis by simp
qed

section \<open>What scrubbing removes\<close>

text \<open>
  A form that a pass can remove for good: not empty, without the brackets that delimit the
  marker, and not a fragment of the marker.
\<close>

definition plain_form :: "bytes \<Rightarrow> bool" where
  "plain_form g \<longleftrightarrow> g \<noteq> [] \<and> CHR ''['' \<notin> set g \<and> CHR '']'' \<notin> set g \<and> \<not> sublist g redaction_marker"

lemma scrub_form_step:
  "\<not> (form \<noteq> [] \<and> starts_with (c # s) form) \<Longrightarrow> scrub_form form (c # s) = c # scrub_form form s"
  "form \<noteq> [] \<and> starts_with (c # s) form \<Longrightarrow>
   scrub_form form (c # s) = redaction_marker @ scrub_form form (drop (length form) (c # s))"
  by (simp_all only: scrub_form.simps if_False if_True simp_thms)

declare scrub_form.simps(2) [simp del]

lemma marker_ends: "hd redaction_marker = CHR ''[''" "last redaction_marker = CHR '']''" "redaction_marker \<noteq> []"
  by (simp_all add: redaction_marker_def)

lemma prefix_scrub: "CHR ''['' \<notin> set g \<Longrightarrow> prefix g (scrub_form form s) \<Longrightarrow> prefix g s"
proof (induction form s arbitrary: g rule: scrub_form.induct)
  case (2 form c s)
  show ?case
  proof (cases "form \<noteq> [] \<and> starts_with (c # s) form")
    case True
    have "prefix g (redaction_marker @ scrub_form form (drop (length form) (c # s)))"
      using 2(4) unfolding scrub_form_step(2) [OF True] .
    then obtain y where "redaction_marker @ scrub_form form (drop (length form) (c # s)) = g @ y"
      by (auto simp: prefix_def)
    then have "g \<noteq> [] \<Longrightarrow> hd g = CHR ''[''" using marker_ends(1,3) by (metis hd_append2)
    then have "g = []" using 2(3) by (metis hd_in_set)
    then show ?thesis by simp
  next
    case False
    have "prefix g (c # scrub_form form s)"
      using 2(4) unfolding scrub_form_step(1) [OF False] .
    then show ?thesis using 2(2) [OF False] 2(3) by (cases g) auto
  qed
qed simp

lemma sublist_marker:
  assumes "plain_form g" "sublist g (redaction_marker @ s)"
  shows "sublist g s"
proof -
  have "\<not> sublist g redaction_marker" using assms(1) by (simp add: plain_form_def)
  with assms(2) consider "sublist g s"
    | g1 g2 where "g = g1 @ g2" "suffix g1 redaction_marker" "prefix g2 s"
    unfolding sublist_append by blast
  then show ?thesis
  proof cases
    case (2 g1 g2)
    have "g1 = []"
    proof (rule ccontr)
      assume "g1 \<noteq> []"
      with 2(2) marker_ends(2) have "last g1 = CHR '']''" unfolding suffix_def by (metis last_appendR)
      with \<open>g1 \<noteq> []\<close> have "CHR '']'' \<in> set g1" using last_in_set by metis
      with 2(1) assms(1) show False by (simp add: plain_form_def)
    qed
    with 2 show ?thesis by (simp add: prefix_imp_sublist)
  qed
qed

text \<open>A pass never makes a plain form appear.\<close>

lemma sublist_scrub: "plain_form g \<Longrightarrow> sublist g (scrub_form form s) \<Longrightarrow> sublist g s"
proof (induction form s rule: scrub_form.induct)
  case (2 form c s)
  show ?case
  proof (cases "form \<noteq> [] \<and> starts_with (c # s) form")
    case True
    have "sublist g (redaction_marker @ scrub_form form (drop (length form) (c # s)))"
      using 2(4) unfolding scrub_form_step(2) [OF True] .
    then have "sublist g (scrub_form form (drop (length form) (c # s)))" by (rule sublist_marker [OF 2(3)])
    then have "sublist g (drop (length form) (c # s))" by (rule 2(1) [OF True 2(3)])
    then show ?thesis by (meson sublist_drop sublist_order.order_trans)
  next
    case False
    have "prefix g (c # scrub_form form s) \<or> sublist g (scrub_form form s)"
      using 2(4) unfolding scrub_form_step(1) [OF False] sublist_Cons_right .
    then show ?thesis
    proof
      assume "prefix g (c # scrub_form form s)"
      then have "prefix g (scrub_form form (c # s))" unfolding scrub_form_step(1) [OF False] .
      moreover have "CHR ''['' \<notin> set g" using 2(3) by (simp add: plain_form_def)
      ultimately have "prefix g (c # s)" by (rule prefix_scrub [rotated])
      then show ?thesis by (rule prefix_imp_sublist)
    next
      assume "sublist g (scrub_form form s)"
      with 2(2) [OF False 2(3)] show ?thesis by (simp add: sublist_Cons_right)
    qed
  qed
qed simp

text \<open>A pass removes its own form.\<close>

lemma scrub_removes: "plain_form form \<Longrightarrow> \<not> sublist form (scrub_form form s)"
proof (induction form s rule: scrub_form.induct)
  case (1 form)
  then show ?case by (simp add: plain_form_def)
next
  case (2 form c s)
  show ?case
  proof (cases "form \<noteq> [] \<and> starts_with (c # s) form")
    case True
    then show ?thesis
      using 2(1) [OF True 2(3)] sublist_marker [OF 2(3)] unfolding scrub_form_step(2) [OF True] by blast
  next
    case False
    have "\<not> prefix form (scrub_form form (c # s))"
      using prefix_scrub [of form form "c # s"] False 2(3) by (auto simp: plain_form_def str_simps)
    with 2(2) [OF False 2(3)] show ?thesis
      unfolding scrub_form_step(1) [OF False] sublist_Cons_right by blast
  qed
qed

lemma scrub_passes:
  "plain_form g \<Longrightarrow> g \<in> set forms \<or> \<not> sublist g d \<Longrightarrow>
   \<not> sublist g (foldl (\<lambda>d form. scrub_form form d) d forms)"
proof (induction forms arbitrary: d)
  case (Cons form forms)
  have "g \<in> set forms \<or> \<not> sublist g (scrub_form form d)"
    using Cons.prems scrub_removes sublist_scrub by auto
  then show ?case using Cons.IH [OF Cons.prems(1)] by simp
qed simp

lemma scrub_bytes_removes: "plain_form g \<Longrightarrow> g \<in> set forms \<Longrightarrow> \<not> sublist g (scrub_bytes d forms)"
  unfolding scrub_bytes_def by (rule scrub_passes) (auto simp: plain_form_def)


section \<open>A concrete client\<close>

text \<open>A client whose target echoes the Authorization header in its body.\<close>

definition sample_http_env :: http_env where
  "sample_http_env = \<lparr>he_b64 = (\<lambda>x. ''TOKEN''), he_unb64 = (\<lambda>s. Some s), he_header_name = (\<lambda>n. Some n),
     he_header_value = (\<lambda>v. True), he_method = (\<lambda>m. True),
     he_send = (\<lambda>rq. Ok \<lparr>raw_status = 200, raw_headers = [],
       raw_chunks = [case map_of (rq_headers rq) ''authorization'' of Some a \<Rightarrow> a | None \<Rightarrow> []], raw_failure = None\<rparr>)\<rparr>"

definition sample_operation :: http_operation where
  "sample_operation = \<lparr>h_method = ''GET'', h_headers = [], h_body_b64 = None, h_username = Some ''bot''\<rparr>"

definition sample_limits :: http_limits where
  "sample_limits = \<lparr>hl_max_response_bytes = 100, hl_timeout_secs = 30\<rparr>"

theorem build_request_authorized_witness:
  "\<exists>rq. build_request sample_http_env ''https://x'' sample_operation ''Bearer t'' sample_limits = Ok rq \<and>
     filter (\<lambda>h. fst h = ''authorization'') (rq_headers rq) = [(''authorization'', ''Bearer t'')]"
proof -
  obtain rq where rq: "build_request sample_http_env ''https://x'' sample_operation ''Bearer t'' sample_limits = Ok rq"
    by (auto simp: build_request_def sample_http_env_def sample_operation_def sample_limits_def)
  from build_request_authorized [OF this] rq show ?thesis by blast
qed


text \<open>
  The limit of scrubbing for \<^verbatim>\<open>http-basic\<close>: the two forms that are scrubbed are the raw
  secret and the whole header value, so a target that echoes only the encoded token, which
  any reader decodes to user and secret, has it relayed to the agent unchanged.
\<close>

theorem scrub_misses_bare_token:
  assumes "\<not> sublist secret token" and "secret \<noteq> []"
  shows "scrub_bytes token (reflectable_forms (''Basic '' @ token) secret) = token"
proof -
  have id: "scrub_form form s = s" if "\<not> sublist form s" for form s :: bytes
    using that
  proof (induction s)
    case (Cons c s)
    then have "\<not> starts_with (c # s) form" "\<not> sublist form s"
      by (auto simp: sublist_Cons_right str_simps)
    with Cons.IH show ?case by (simp add: scrub_form_step(1))
  qed simp
  have "\<not> sublist (''Basic '' @ token) token"
    using sublist_length_le by fastforce
  then show ?thesis
    using assms(1) id by (auto simp: scrub_bytes_def reflectable_forms_def)
qed

theorem scrub_misses_bare_token_witness:
  "assemble_authorization sample_http_env ''http-basic'' sample_operation ''s3cr3t'' = Ok (''Basic '' @ ''TOKEN'') \<and>
   scrub_bytes ''TOKEN'' (reflectable_forms (''Basic '' @ ''TOKEN'') ''s3cr3t'') = ''TOKEN''"
  using scrub_misses_bare_token [of "''s3cr3t''" "''TOKEN''"]
  by (simp add: sublist_Cons_right assemble_authorization_def sample_operation_def sample_http_env_def)

end
