(* ===== verification/Wire.thy ===== *)
theory Wire
  imports Protocol "HOL-Library.Monad_Syntax"
begin

text \<open>
  The typed view of a signed message: reading and writing of \<^verbatim>\<open>Envelope\<close>, \<^verbatim>\<open>Target\<close> and
  \<^verbatim>\<open>Constraints\<close> (\<^verbatim>\<open>crates/protocol/src/envelope.rs\<close>) and of the operation bodies
  (\<^verbatim>\<open>ops.rs\<close>), as their serde derivations define them. A structure is read from an object,
  whose unknown members are ignored, or from an array of its fields in order; a field marked
  \<^verbatim>\<open>default\<close> may be missing, and so may a member of an optional type.
\<close>

section \<open>Fields\<close>

text \<open>
  \<open>struct_fields n names v\<close>: the fields of a structure, of which an array must hold the first
  \<open>n\<close> (those before the first one marked \<^verbatim>\<open>default\<close>).
\<close>

fun struct_fields :: "nat \<Rightarrow> string list \<Rightarrow> json \<Rightarrow> json option list option" where
  "struct_fields n names (JObj kvs) = Some (map (map_of kvs) names)"
| "struct_fields n names (JArr vs) =
     (if n \<le> length vs \<and> length vs \<le> length names
      then Some (map Some vs @ replicate (length names - length vs) None) else None)"
| "struct_fields n names _ = None"

definition field_str :: "json option \<Rightarrow> string option" where
  "field_str f = Option.bind f as_str"

fun field_opt :: "(json \<Rightarrow> 'a option) \<Rightarrow> json option \<Rightarrow> 'a option option" where
  "field_opt rd None = Some None"
| "field_opt rd (Some JNull) = Some None"
| "field_opt rd (Some v) = map_option Some (rd v)"

definition u64_from_value :: "json \<Rightarrow> u64 option" where
  "u64_from_value v = map_option of_nat (as_u64 v)"

fun strings_from_value :: "json list \<Rightarrow> string list option" where
  "strings_from_value [] = Some []"
| "strings_from_value (v # vs) =
     Option.bind (as_str v) (\<lambda>s. map_option (Cons s) (strings_from_value vs))"

fun string_map_from_value :: "(string \<times> json) list \<Rightarrow> (string \<times> string) list option" where
  "string_map_from_value [] = Some []"
| "string_map_from_value ((k, v) # kvs) =
     Option.bind (as_str v) (\<lambda>s. map_option (Cons (k, s)) (string_map_from_value kvs))"

section \<open>The envelope\<close>

definition target_from_value :: "json \<Rightarrow> target option" where
  "target_from_value v = do {
     fs \<leftarrow> struct_fields 2 [''uri'', ''label''] v;
     uri \<leftarrow> field_str (fs ! 0);
     label \<leftarrow> field_str (fs ! 1);
     Some \<lparr>t_uri = uri, t_label = label\<rparr> }"

definition constraints_from_value :: "json \<Rightarrow> constraints option" where
  "constraints_from_value v = do {
     fs \<leftarrow> struct_fields 2 [''max_response_bytes'', ''session_ttl_s''] v;
     bytes \<leftarrow> field_opt u64_from_value (fs ! 0);
     ttl \<leftarrow> field_opt u64_from_value (fs ! 1);
     Some \<lparr>c_max_response_bytes = bytes, c_session_ttl_s = ttl\<rparr> }"

definition envelope_from_value :: "json \<Rightarrow> envelope option" where
  "envelope_from_value v = do {
     fs \<leftarrow> struct_fields 12 [''chaperone'', ''msg_id'', ''type'', ''agent_id'', ''issued_at'', ''nonce'',
       ''target'', ''mechanism'', ''cred_ref'', ''operation'', ''constraints'', ''sig''] v;
     chaperone \<leftarrow> field_str (fs ! 0);
     msg_id \<leftarrow> field_str (fs ! 1);
     kind \<leftarrow> Option.bind (field_str (fs ! 2)) envelope_kind_deserialize;
     agent_id \<leftarrow> field_str (fs ! 3);
     issued_at \<leftarrow> field_str (fs ! 4);
     nonce \<leftarrow> field_str (fs ! 5);
     target \<leftarrow> Option.bind (fs ! 6) target_from_value;
     mechanism \<leftarrow> field_str (fs ! 7);
     cred_ref \<leftarrow> field_str (fs ! 8);
     operation \<leftarrow> fs ! 9;
     constraints \<leftarrow> field_opt constraints_from_value (fs ! 10);
     sig \<leftarrow> field_str (fs ! 11);
     Some \<lparr>e_chaperone = chaperone, e_msg_id = msg_id, e_kind = kind, e_agent_id = agent_id,
       e_issued_at = issued_at, e_nonce = nonce, e_target = target, e_mechanism = mechanism,
       e_cred_ref = cred_ref, e_operation = operation, e_constraints = constraints, e_sig = sig\<rparr> }"

definition opt_member :: "string \<Rightarrow> json option \<Rightarrow> (string \<times> json) list" where
  "opt_member k v = (case v of None \<Rightarrow> [] | Some x \<Rightarrow> [(k, x)])"

definition u64_to_value :: "u64 \<Rightarrow> json" where
  "u64_to_value w = JInt (uint w)"

definition constraints_to_value :: "constraints \<Rightarrow> json" where
  "constraints_to_value c = JObj (
     opt_member ''max_response_bytes'' (map_option u64_to_value (c_max_response_bytes c)) @
     opt_member ''session_ttl_s'' (map_option u64_to_value (c_session_ttl_s c)))"

definition envelope_to_value :: "envelope \<Rightarrow> json" where
  "envelope_to_value e = JObj (
     [(''chaperone'', JStr (e_chaperone e)), (''msg_id'', JStr (e_msg_id e)),
      (''type'', JStr (envelope_kind_str (e_kind e))), (''agent_id'', JStr (e_agent_id e)),
      (''issued_at'', JStr (e_issued_at e)), (''nonce'', JStr (e_nonce e)),
      (''target'', JObj [(''uri'', JStr (t_uri (e_target e))), (''label'', JStr (t_label (e_target e)))]),
      (''mechanism'', JStr (e_mechanism e)), (''cred_ref'', JStr (e_cred_ref e)),
      (''operation'', e_operation e)] @
     opt_member ''constraints'' (map_option constraints_to_value (e_constraints e)) @
     [(''sig'', JStr (e_sig e))])"

section \<open>Operation bodies\<close>

definition http_operation_from_value :: "json \<Rightarrow> http_operation option" where
  "http_operation_from_value v = do {
     fs \<leftarrow> struct_fields 1 [''method'', ''headers'', ''body_b64'', ''username''] v;
     meth \<leftarrow> field_str (fs ! 0);
     headers \<leftarrow> (case fs ! 1 of
        None \<Rightarrow> Some []
      | Some h \<Rightarrow> Option.bind (as_object h) (\<lambda>kvs. map_option (sort_key fst) (string_map_from_value kvs)));
     body \<leftarrow> field_opt as_str (fs ! 2);
     username \<leftarrow> field_opt as_str (fs ! 3);
     Some \<lparr>h_method = meth, h_headers = headers, h_body_b64 = body, h_username = username\<rparr> }"

definition db_operation_from_value :: "json \<Rightarrow> db_operation option" where
  "db_operation_from_value v = do {
     fs \<leftarrow> struct_fields 1 [''engine'', ''database'', ''statement'', ''params'', ''username''] v;
     engine \<leftarrow> field_str (fs ! 0);
     database \<leftarrow> field_opt as_str (fs ! 1);
     statement \<leftarrow> field_opt as_str (fs ! 2);
     params \<leftarrow> field_opt (\<lambda>p. Option.bind (as_array p) strings_from_value) (fs ! 3);
     username \<leftarrow> field_opt as_str (fs ! 4);
     Some \<lparr>db_engine = engine, db_database = database, db_statement = statement,
       db_params = params, db_username = username\<rparr> }"

definition opt_value :: "('a \<Rightarrow> json) \<Rightarrow> 'a option \<Rightarrow> json" where
  "opt_value f x = (case x of None \<Rightarrow> JNull | Some a \<Rightarrow> f a)"

definition db_operation_to_value :: "db_operation \<Rightarrow> json" where
  "db_operation_to_value op = JObj [
     (''engine'', JStr (db_engine op)),
     (''database'', opt_value JStr (db_database op)),
     (''statement'', opt_value JStr (db_statement op)),
     (''params'', opt_value (\<lambda>ps. JArr (map JStr ps)) (db_params op)),
     (''username'', opt_value JStr (db_username op))]"

section \<open>Reading back\<close>

lemma u64_from_to_value [simp]: "u64_from_value (u64_to_value w) = Some w"
  using uint_lt2p [of w] by (simp add: u64_from_value_def u64_to_value_def)

lemma field_opt_Some: "v \<noteq> JNull \<Longrightarrow> field_opt rd (Some v) = map_option Some (rd v)"
  by (cases v) auto

lemma field_opt_u64 [simp]: "field_opt u64_from_value (Some (u64_to_value w)) = Some (Some w)"
  by (subst field_opt_Some, simp add: u64_to_value_def, simp)

lemma map_of_opt_member [simp]: "map_of (opt_member k v) k' = (if k' = k then v else None)"
  by (auto simp: opt_member_def split: option.splits)

lemma constraints_from_to_value [simp]: "constraints_from_value (constraints_to_value c) = Some c"
  by (cases "c_max_response_bytes c"; cases "c_session_ttl_s c")
    (simp_all add: constraints_from_value_def constraints_to_value_def map_add_def)

lemma field_opt_constraints [simp]:
  "field_opt constraints_from_value (Some (constraints_to_value c)) = Some (Some c)"
  by (subst field_opt_Some, simp add: constraints_to_value_def, simp)

lemma strings_from_to_value [simp]: "strings_from_value (map JStr ss) = Some ss"
  by (induction ss) auto

text \<open>
  The evidence in the audit journal is faithful: the JSON value that is written for a
  signed envelope reads back to exactly that envelope, on every one of its fields.
\<close>

theorem envelope_reads_back: "envelope_from_value (envelope_to_value e) = Some e"
proof -
  have kind: "envelope_kind_deserialize (envelope_kind_str (e_kind e)) = Some (e_kind e)"
    by (simp add: envelope_kind_wire)
  show ?thesis
    by (cases "e_constraints e")
      (simp_all add: envelope_from_value_def envelope_to_value_def field_str_def kind
        target_from_value_def map_add_def)
qed

lemma db_operation_reads_back: "db_operation_from_value (db_operation_to_value op) = Some op"
  by (cases "db_database op"; cases "db_statement op"; cases "db_params op"; cases "db_username op")
    (simp_all add: db_operation_from_value_def db_operation_to_value_def field_str_def opt_value_def)

text \<open>What the typed view of an object says about its members.\<close>

lemma envelope_from_value_agent:
  "envelope_from_value (JObj kvs) = Some e \<Longrightarrow> get_str (JObj kvs) ''agent_id'' = Some (e_agent_id e)"
  by (auto simp: envelope_from_value_def field_str_def get_str_def bind_eq_Some_conv)

text \<open>A value that canonical JSON keeps exactly has an exact typed view.\<close>

lemma struct_fields_exact:
  assumes "struct_fields n names v = Some fs" "json_exact v" "i < length names" "fs ! i = Some w"
  shows "json_exact w"
  using assms
proof (induction n names v rule: struct_fields.induct)
  case (1 n names kvs)
  then show ?case by (auto simp: list_all_iff dest!: map_of_SomeD)
next
  case (2 n names vs)
  then show ?case by (auto simp: list_all_iff nth_append split: if_splits)
qed auto

lemma field_opt_exact:
  assumes "field_opt u64_from_value f = Some (Some w)" "\<And>v. f = Some v \<Longrightarrow> json_exact v"
  shows "json_exact (u64_to_value w)"
proof -
  obtain v where v: "f = Some v" "v \<noteq> JNull" using assms(1) by (cases f; cases "the f = JNull") auto
  then have "u64_from_value v = Some w" "json_exact v" using assms by (auto simp: field_opt_Some)
  then obtain i where i: "0 \<le> i" "i < 2 ^ 53" "w = of_nat (nat i)"
    by (cases v) (auto simp: u64_from_value_def split: if_splits)
  then have "uint w = i" by (simp add: unsigned_of_int take_bit_int_eq_self)
  then show ?thesis using i by (simp add: u64_to_value_def)
qed

lemma constraints_exact:
  assumes "constraints_from_value v = Some c" "json_exact v"
  shows "json_exact (constraints_to_value c)"
proof -
  obtain fs b t where fs: "struct_fields 2 [''max_response_bytes'', ''session_ttl_s''] v = Some fs"
    and b: "field_opt u64_from_value (fs ! 0) = Some b" and t: "field_opt u64_from_value (fs ! 1) = Some t"
    and c: "c = \<lparr>c_max_response_bytes = b, c_session_ttl_s = t\<rparr>"
    using assms(1) by (auto simp: constraints_from_value_def bind_eq_Some_conv)
  have ex: "fs ! i = Some w \<Longrightarrow> i < 2 \<Longrightarrow> json_exact w" for i w
    using struct_fields_exact [OF fs assms(2), of i w] by simp
  have "json_exact (u64_to_value w)" if "b = Some w" for w
    using field_opt_exact [of "fs ! 0" w] b ex that by simp
  moreover have "json_exact (u64_to_value w)" if "t = Some w" for w
    using field_opt_exact [of "fs ! 1" w] t ex that by simp
  ultimately show ?thesis
    unfolding c by (cases b; cases t) (simp_all add: constraints_to_value_def opt_member_def)
qed

lemma envelope_exact:
  assumes "envelope_from_value v = Some e" "json_exact v"
  shows "json_exact (envelope_to_value e)"
proof -
  obtain fs con where fs: "struct_fields 12 [''chaperone'', ''msg_id'', ''type'', ''agent_id'', ''issued_at'', ''nonce'',
       ''target'', ''mechanism'', ''cred_ref'', ''operation'', ''constraints'', ''sig''] v = Some fs"
    and op: "fs ! 9 = Some (e_operation e)" and con: "field_opt constraints_from_value (fs ! 10) = Some (e_constraints e)"
    using assms(1) by (auto simp: envelope_from_value_def bind_eq_Some_conv)
  have ex: "fs ! i = Some w \<Longrightarrow> i < 12 \<Longrightarrow> json_exact w" for i w
    using struct_fields_exact [OF fs assms(2), of i w] by simp
  have "json_exact (constraints_to_value c)" if "e_constraints e = Some c" for c
    using con that ex [of 10]
    by (cases "fs ! 10" rule: option.exhaust; cases "the (fs ! 10) = JNull") (auto simp: field_opt_Some intro: constraints_exact)
  then show ?thesis
    using ex [OF op] by (cases "e_constraints e") (simp_all add: envelope_to_value_def opt_member_def)
qed

end
