(* ===== verification/Sessions.thy ===== *)
theory Sessions
  imports Protocol
begin

text \<open>
  The table of brokered sessions (\<^verbatim>\<open>crates/gateway-core/src/session.rs\<close>). Instants and
  durations are numbers of nanoseconds on the monotonic clock; the hash map from handles to
  entries is an association list with distinct keys; the live channel of a session is an
  identifier. Counters are 64-bit words and wrap like the atomics of the source.
\<close>

section \<open>Entries\<close>

record session_entry =
  se_agent_id :: string
  se_mechanism :: string
  se_target_uri :: string
  se_target_label :: string
  se_expires_at :: nat
  se_opened_at :: nat
  se_out_seq :: u64
  se_commands :: u64
  se_bytes_in :: u64
  se_bytes_out :: u64
  se_last_beat :: "nat option"
  se_channel :: nat

record session_stats =
  st_commands :: u64
  st_bytes_in :: u64
  st_bytes_out :: u64
  st_elapsed :: nat

record output_chunk =
  oc_stream :: string
  oc_data :: bytes

record output_batch =
  ob_chunks :: "output_chunk list"
  ob_closed :: bool
  ob_exit_code :: "int option"

definition next_out_seq :: "session_entry \<Rightarrow> u64 \<times> session_entry" where
  "next_out_seq e = (se_out_seq e + 1, e\<lparr>se_out_seq := se_out_seq e + 1\<rparr>)"

definition record_relay :: "session_entry \<Rightarrow> nat \<Rightarrow> nat \<Rightarrow> session_entry" where
  "record_relay e bytes_in bytes_out = e\<lparr>se_commands := se_commands e + 1,
     se_bytes_in := se_bytes_in e + of_nat bytes_in, se_bytes_out := se_bytes_out e + of_nat bytes_out\<rparr>"

definition entry_stats :: "session_entry \<Rightarrow> nat \<Rightarrow> session_stats" where
  "entry_stats e now = \<lparr>st_commands = se_commands e, st_bytes_in = se_bytes_in e,
     st_bytes_out = se_bytes_out e, st_elapsed = now - se_opened_at e\<rparr>"

text \<open>\<^verbatim>\<open>duration_since\<close> saturates at zero.\<close>

definition heartbeat_due :: "session_entry \<Rightarrow> nat \<Rightarrow> nat \<Rightarrow> bool \<times> session_entry" where
  "heartbeat_due e threshold now =
     (if now - se_opened_at e < threshold then (False, e)
      else (let due = (case se_last_beat e of None \<Rightarrow> True | Some beat \<Rightarrow> threshold \<le> now - beat) in
        (due, if due then e\<lparr>se_last_beat := Some now\<rparr> else e)))"

section \<open>The table\<close>

type_synonym session_table = "(string \<times> session_entry) list"

definition session_prefix :: string where
  "session_prefix = ''sess_''"

definition session_table_new :: session_table where
  "session_table_new = []"

text \<open>\<open>raw\<close> are the 32 random bytes of the handle.\<close>

definition session_handle :: "crypto \<Rightarrow> bytes \<Rightarrow> string" where
  "session_handle c raw = session_prefix @ encode_signature c raw"

definition new_entry :: "string \<Rightarrow> string \<Rightarrow> string \<Rightarrow> string \<Rightarrow> nat \<Rightarrow> nat \<Rightarrow> nat \<Rightarrow> session_entry" where
  "new_entry agent_id mechanism target_uri target_label channel ttl now =
     \<lparr>se_agent_id = agent_id, se_mechanism = mechanism, se_target_uri = target_uri,
      se_target_label = target_label, se_expires_at = now + ttl, se_opened_at = now, se_out_seq = 0,
      se_commands = 0, se_bytes_in = 0, se_bytes_out = 0, se_last_beat = None, se_channel = channel\<rparr>"

definition session_insert ::
    "crypto \<Rightarrow> bytes \<Rightarrow> string \<Rightarrow> string \<Rightarrow> string \<Rightarrow> string \<Rightarrow> nat \<Rightarrow> nat \<Rightarrow> nat \<Rightarrow> session_table \<Rightarrow>
     (string \<times> session_entry) \<times> session_table" where
  "session_insert c raw agent_id mechanism target_uri target_label channel ttl now t =
     (let handle = session_handle c raw;
          entry = new_entry agent_id mechanism target_uri target_label channel ttl now in
      ((handle, entry), AList.update handle entry t))"

definition session_access ::
    "session_table \<Rightarrow> string \<Rightarrow> string \<Rightarrow> nat \<Rightarrow> (string \<times> string, session_entry \<times> nat) result" where
  "session_access t handle agent_id now =
     (case map_of t handle of
        None \<Rightarrow> Err (''E_SESSION_EXPIRED'', ''unknown session_handle'')
      | Some entry \<Rightarrow>
          if se_agent_id entry \<noteq> agent_id
          then Err (''E_SESSION_OWNER'', ''frame identity differs from session opener'')
          else (let remaining = se_expires_at entry - now in
            if remaining = 0 then Err (''E_SESSION_EXPIRED'', ''session past its TTL'')
            else Ok (entry, remaining)))"

definition session_take :: "session_table \<Rightarrow> string \<Rightarrow> string \<Rightarrow> session_entry option \<times> session_table" where
  "session_take t handle agent_id =
     (case map_of t handle of
        None \<Rightarrow> (None, t)
      | Some entry \<Rightarrow>
          if se_agent_id entry \<noteq> agent_id then (None, t)
          else (Some entry, AList.delete handle t))"

definition session_snapshot :: "session_table \<Rightarrow> (string \<times> session_entry) list" where
  "session_snapshot t = t"

definition reap_expired :: "session_table \<Rightarrow> nat \<Rightarrow> (string \<times> session_entry) list \<times> session_table" where
  "reap_expired t now =
     (filter (\<lambda>(h, e). se_expires_at e \<le> now) t, filter (\<lambda>(h, e). \<not> se_expires_at e \<le> now) t)"

text \<open>An entry is shared: what a frame records in it is seen by the table.\<close>

definition session_update :: "string \<Rightarrow> session_entry \<Rightarrow> session_table \<Rightarrow> session_table" where
  "session_update handle entry t =
     (case map_of t handle of None \<Rightarrow> t | Some _ \<Rightarrow> AList.update handle entry t)"

section \<open>Runs of the table\<close>

datatype session_op =
    Open string string string string string nat nat
  | Close string string
  | Relay string nat nat
  | Beat string nat
  | Reap

fun session_step :: "session_table \<Rightarrow> nat \<times> session_op \<Rightarrow> session_table" where
  "session_step t (now, Open h a mech uri label ch ttl) = AList.update h (new_entry a mech uri label ch ttl now) t"
| "session_step t (now, Close h a) = snd (session_take t h a)"
| "session_step t (now, Relay h i out) =
     (case map_of t h of None \<Rightarrow> t | Some e \<Rightarrow> session_update h (record_relay e i out) t)"
| "session_step t (now, Beat h threshold) =
     (case map_of t h of None \<Rightarrow> t | Some e \<Rightarrow> session_update h (snd (heartbeat_due e threshold now)) t)"
| "session_step t (now, Reap) = snd (reap_expired t now)"

definition session_run :: "(nat \<times> session_op) list \<Rightarrow> session_table" where
  "session_run ops = foldl session_step session_table_new ops"

text \<open>\<open>handle_live ops h a exp\<close>: the last opening of \<open>h\<close> in \<open>ops\<close> was by \<open>a\<close>, expires at
  \<open>exp\<close>, and \<open>a\<close> has not closed it since.\<close>

fun ends_handle :: "string \<Rightarrow> string \<Rightarrow> nat \<times> session_op \<Rightarrow> bool" where
  "ends_handle h a (_, Open h' _ _ _ _ _ _) = (h' = h)"
| "ends_handle h a (_, Close h' a') = (h' = h \<and> a' = a)"
| "ends_handle h a _ = False"

definition handle_live :: "(nat \<times> session_op) list \<Rightarrow> string \<Rightarrow> string \<Rightarrow> nat \<Rightarrow> bool" where
  "handle_live ops h a exp \<longleftrightarrow>
     (\<exists>before t0 mech uri label ch ttl after.
        ops = before @ (t0, Open h a mech uri label ch ttl) # after \<and> exp = t0 + ttl \<and>
        list_all (\<lambda>op. \<not> ends_handle h a op) after)"

section \<open>Invariants\<close>

lemma record_relay_keeps [simp]:
  "se_agent_id (record_relay e i out) = se_agent_id e" "se_expires_at (record_relay e i out) = se_expires_at e"
  "se_opened_at (record_relay e i out) = se_opened_at e" "se_channel (record_relay e i out) = se_channel e"
  by (simp_all add: record_relay_def)

lemma heartbeat_due_keeps [simp]:
  "se_agent_id (snd (heartbeat_due e t n)) = se_agent_id e"
  "se_expires_at (snd (heartbeat_due e t n)) = se_expires_at e"
  by (simp_all add: heartbeat_due_def Let_def)

lemma session_access_Ok_iff:
  "session_access t h a now = Ok (e, rem) \<longleftrightarrow>
     map_of t h = Some e \<and> se_agent_id e = a \<and> now < se_expires_at e \<and> rem = se_expires_at e - now"
  by (auto simp: session_access_def Let_def split: option.splits)

lemma distinct_session_step: "distinct (map fst t) \<Longrightarrow> distinct (map fst (session_step t op))"
  by (cases "(t, op)" rule: session_step.cases)
    (auto simp: distinct_update session_take_def distinct_delete reap_expired_def session_update_def
      distinct_map_filter split: option.split)

lemma distinct_session_run: "distinct (map fst (session_run ops))"
proof -
  have "distinct (map fst t) \<Longrightarrow> distinct (map fst (foldl session_step t ops))" for t
    by (induction ops arbitrary: t) (simp_all add: distinct_session_step)
  then show ?thesis by (simp add: session_run_def session_table_new_def)
qed

text \<open>Where an entry of the table comes from.\<close>

lemma session_step_entry:
  assumes "distinct (map fst t)" "map_of (session_step t (now, op)) h = Some e"
  shows "(\<exists>mech uri label ch ttl. op = Open h (se_agent_id e) mech uri label ch ttl \<and> se_expires_at e = now + ttl) \<or>
    (\<exists>e'. map_of t h = Some e' \<and> se_agent_id e' = se_agent_id e \<and> se_expires_at e' = se_expires_at e \<and>
       \<not> ends_handle h (se_agent_id e) (now, op))"
proof (cases op)
  case (Open h' a mech uri label ch ttl)
  with assms(2) show ?thesis by (cases "h' = h") (auto simp: update_conv' new_entry_def)
next
  case (Close h' a)
  with assms(2) show ?thesis
    by (auto simp: session_take_def delete_conv' split: option.splits if_splits)
next
  case (Relay h' i out)
  with assms(2) show ?thesis
    by (cases "h' = h") (auto simp: session_update_def update_conv' split: option.splits)
next
  case (Beat h' threshold)
  with assms(2) show ?thesis
    by (cases "h' = h") (auto simp: session_update_def update_conv' split: option.splits)
next
  case Reap
  with assms have "(h, e) \<in> set t" by (auto simp: reap_expired_def dest!: map_of_SomeD)
  with assms(1) Reap show ?thesis by simp
qed

lemma session_run_entry:
  assumes "map_of (session_run ops) h = Some e"
  shows "handle_live ops h (se_agent_id e) (se_expires_at e)"
  using assms
proof (induction ops arbitrary: e rule: rev_induct)
  case Nil
  then show ?case by (simp add: session_run_def session_table_new_def)
next
  case (snoc top ops)
  obtain now op where top: "top = (now, op)" by (cases top)
  have run: "map_of (session_step (session_run ops) (now, op)) h = Some e"
    using snoc.prems by (simp add: session_run_def top)
  from session_step_entry [OF distinct_session_run run] show ?case
  proof (elim disjE exE conjE)
    fix mech uri label ch ttl
    assume "op = Open h (se_agent_id e) mech uri label ch ttl" "se_expires_at e = now + ttl"
    then show ?thesis unfolding handle_live_def top
      by (intro exI [of _ ops] exI [of _ now] exI [of _ mech] exI [of _ uri] exI [of _ label] exI [of _ ch]
        exI [of _ ttl] exI [of _ "[]"]) simp
  next
    fix e'
    assume e': "map_of (session_run ops) h = Some e'" "se_agent_id e' = se_agent_id e"
      "se_expires_at e' = se_expires_at e" and keeps: "\<not> ends_handle h (se_agent_id e) (now, op)"
    from snoc.IH [OF e'(1)] e'(2,3) obtain before t0 mech uri label ch ttl after where
      "ops = before @ (t0, Open h (se_agent_id e) mech uri label ch ttl) # after"
      "se_expires_at e = t0 + ttl" "list_all (\<lambda>op. \<not> ends_handle h (se_agent_id e) op) after"
      unfolding handle_live_def by metis
    with keeps show ?thesis unfolding handle_live_def top
      by (intro exI [of _ before] exI [of _ t0] exI [of _ mech] exI [of _ uri] exI [of _ label] exI [of _ ch]
        exI [of _ ttl] exI [of _ "after @ [(now, op)]"]) simp
  qed
qed

section \<open>Properties\<close>

text \<open>
  A session handle works only for its opener and only in time: after any run of the table
  (openings, closings, relays, heartbeats and reaping, at any times), an access that succeeds
  names a handle whose last opening was by the same agent, whose lifetime has not passed, and
  which that agent has not closed since.
\<close>

theorem access_only_by_opener:
  assumes "session_access (session_run ops) h a now = Ok (e, remaining)"
  shows "\<exists>exp. handle_live ops h a exp \<and> now < exp \<and> remaining = exp - now"
  using assms session_run_entry [of ops h e] by (auto simp: session_access_Ok_iff)

theorem access_only_by_opener_witness:
  "session_access (session_run [(5, Open ''sess_x'' ''alice'' ''ssh'' ''ssh://h'' ''h'' 0 10)]) ''sess_x'' ''alice'' 9 =
     Ok (new_entry ''alice'' ''ssh'' ''ssh://h'' ''h'' 0 10 5, 6) \<and>
   (\<exists>exp. handle_live [(5, Open ''sess_x'' ''alice'' ''ssh'' ''ssh://h'' ''h'' 0 10)] ''sess_x'' ''alice'' exp \<and> 9 < exp)"
proof -
  have ok: "session_access (session_run [(5, Open ''sess_x'' ''alice'' ''ssh'' ''ssh://h'' ''h'' 0 10)]) ''sess_x'' ''alice'' 9 =
     Ok (new_entry ''alice'' ''ssh'' ''ssh://h'' ''h'' 0 10 5, 6)"
    by (simp add: session_access_def session_run_def session_table_new_def new_entry_def)
  from access_only_by_opener [OF this] ok show ?thesis by blast
qed

text \<open>
  Reaping is exact: it returns every session past its lifetime and removes those and no
  others, so that no later access can reach an expired channel and no live session is lost.
\<close>

theorem reap_expired_exact:
  "let (reaped, t) = reap_expired (session_run ops) now
   in (\<forall>h e. (h, e) \<in> set reaped \<longleftrightarrow> map_of (session_run ops) h = Some e \<and> se_expires_at e \<le> now) \<and>
      (\<forall>h e. map_of t h = Some e \<longleftrightarrow> map_of (session_run ops) h = Some e \<and> now < se_expires_at e)"
proof -
  let ?t = "session_run ops"
  have d: "distinct (map fst ?t)" by (rule distinct_session_run)
  have "map_of (filter (\<lambda>(h, e). \<not> se_expires_at e \<le> now) ?t) h = Some e \<longleftrightarrow>
      map_of ?t h = Some e \<and> now < se_expires_at e" for h e
    using d by (auto simp: distinct_map_filter)
  with d show ?thesis by (auto simp: reap_expired_def)
qed

text \<open>A heartbeat is due at most once in each interval of the threshold.\<close>

lemma heartbeat_spacing:
  assumes "fst (heartbeat_due e threshold t1)" "fst (heartbeat_due (snd (heartbeat_due e threshold t1)) threshold t2)"
  shows "t1 + threshold \<le> t2 \<or> threshold = 0"
  using assms by (auto simp: heartbeat_due_def Let_def split: if_splits)

end
