(* ===== verification/Codec.thy ===== *)
theory Codec
  imports Protocol
begin

text \<open>
  Content-Length framing (\<^verbatim>\<open>crates/transport/src/codec.rs\<close>), the messages inside frames
  (\<^verbatim>\<open>message.rs\<close>), the request loop of a connection (\<^verbatim>\<open>server.rs\<close>) and the client's exchange
  (\<^verbatim>\<open>client.rs\<close>). The bytes a peer sends are a list; after the last one a read reports the end
  of the stream or an input error. JSON reading and printing are parameters.
\<close>

section \<open>Strings\<close>

text \<open>\<^verbatim>\<open>str::from_utf8\<close>: well-formed sequences of one to four bytes.\<close>

definition in_range :: "nat \<Rightarrow> nat \<Rightarrow> char \<Rightarrow> bool" where
  "in_range lo hi ch \<longleftrightarrow> lo \<le> (of_char ch :: nat) \<and> (of_char ch :: nat) \<le> hi"

fun utf8_valid :: "bytes \<Rightarrow> bool" where
  "utf8_valid [] = True"
| "utf8_valid (a # s) =
     (if in_range 0 127 a then utf8_valid s
      else (case s of
        [] \<Rightarrow> False
      | b # s2 \<Rightarrow>
        if in_range 194 223 a then in_range 128 191 b \<and> utf8_valid s2
        else (case s2 of
          [] \<Rightarrow> False
        | c # s3 \<Rightarrow>
          if in_range 224 239 a then
            in_range (if in_range 224 224 a then 160 else 128) (if in_range 237 237 a then 159 else 191) b \<and>
            in_range 128 191 c \<and> utf8_valid s3
          else (case s3 of
            [] \<Rightarrow> False
          | d # s4 \<Rightarrow>
            in_range 240 244 a \<and>
            in_range (if in_range 240 240 a then 144 else 128) (if in_range 244 244 a then 143 else 191) b \<and>
            in_range 128 191 c \<and> in_range 128 191 d \<and> utf8_valid s4))))"

text \<open>\<^verbatim>\<open>s.split(sep)\<close> and \<^verbatim>\<open>s.trim_end_matches(pat)\<close> for a text that is not empty.\<close>

function split_str :: "'a list \<Rightarrow> 'a list \<Rightarrow> 'a list list" where
  "split_str sep s =
     (if sep = [] then [s]
      else (case split_once s sep of None \<Rightarrow> [s] | Some (a, b) \<Rightarrow> a # split_str sep b))"
  by pat_completeness auto
termination
proof (relation "measure (length \<circ> snd)", goal_cases)
  case (2 sep s x a b)
  then have "s = a @ sep @ b" by (auto dest: split_once_Some)
  with 2 show ?case by simp
qed simp

declare split_str.simps [simp del]

function trim_end_matches :: "'a list \<Rightarrow> 'a list \<Rightarrow> 'a list" where
  "trim_end_matches s pat =
     (if pat \<noteq> [] \<and> ends_with s pat then trim_end_matches (take (length s - length pat) s) pat else s)"
  by pat_completeness auto
termination
proof (relation "measure (length \<circ> fst)", goal_cases)
  case (2 s pat)
  then have "0 < length pat" "length pat \<le> length s" by (simp_all add: ends_with_def)
  then have "length s - length pat < length s" by linarith
  then show ?case by simp
qed simp

declare trim_end_matches.simps [simp del]

section \<open>Frames\<close>

definition max_frame_bytes :: nat where
  "max_frame_bytes = 8 * 1024 * 1024"

definition max_header_bytes :: nat where
  "max_header_bytes = 16 * 1024"

definition header_terminator :: string where
  "header_terminator = [carriage_return, newline, carriage_return, newline]"

datatype frame_error =
    Closed
  | FrameIo string
  | MalformedHeader string
  | HeaderTooLarge
  | FrameTooLarge nat
  | UnexpectedEof
  | InvalidUtf8

fun frame_error_text :: "frame_error \<Rightarrow> string" where
  "frame_error_text Closed = ''connection closed''"
| "frame_error_text (FrameIo e) = ''transport i/o error: '' @ e"
| "frame_error_text (MalformedHeader why) = ''malformed frame header: '' @ why"
| "frame_error_text HeaderTooLarge = ''frame header exceeds '' @ dec_of_nat max_header_bytes @ '' bytes''"
| "frame_error_text (FrameTooLarge n) =
     ''declared frame of '' @ dec_of_nat n @ '' bytes exceeds hard limit of '' @ dec_of_nat max_frame_bytes"
| "frame_error_text UnexpectedEof = ''connection ended mid-frame''"
| "frame_error_text InvalidUtf8 = ''frame body is not valid UTF-8''"

text \<open>
  \<open>read_header_block fail buf input\<close> with the bytes read so far; \<open>fail\<close> is the input error that
  follows the last byte, if the stream does not simply end there. The remaining bytes are the
  second result.
\<close>

fun read_header_block :: "string option \<Rightarrow> bytes \<Rightarrow> bytes \<Rightarrow> (frame_error, bytes) result \<times> bytes" where
  "read_header_block fail buf [] =
     ((case fail of Some e \<Rightarrow> Err (FrameIo e)
       | None \<Rightarrow> if buf = [] then Err Closed else Err UnexpectedEof), [])"
| "read_header_block fail buf (byte # input) =
     (let buf' = buf @ [byte] in
      if length buf' > max_header_bytes then (Err HeaderTooLarge, input)
      else if ends_with buf' header_terminator then (Ok buf', input)
      else read_header_block fail buf' input)"

text \<open>The loop over the header lines, with the value found so far.\<close>

fun content_length_of :: "nat option \<Rightarrow> string list \<Rightarrow> (frame_error, nat option) result" where
  "content_length_of found [] = Ok found"
| "content_length_of found (line # lines) =
     (if line = [] then content_length_of found lines
      else (case split_once line '':'' of
        None \<Rightarrow> Err (MalformedHeader ''line without ':' separator'')
      | Some (name, v) \<Rightarrow>
          if \<not> eq_ignore_ascii_case (trim name) ''content-length'' then content_length_of found lines
          else (case parse_uint 64 (trim v) of
            None \<Rightarrow> Err (MalformedHeader ''content-length is not a number'')
          | Some n \<Rightarrow>
              if found \<noteq> None then Err (MalformedHeader ''duplicate content-length'')
              else content_length_of (Some n) lines)))"

definition parse_content_length :: "bytes \<Rightarrow> (frame_error, nat) result" where
  "parse_content_length header =
     (if \<not> utf8_valid header then Err (MalformedHeader ''header block is not ASCII'')
      else bind_res (content_length_of None
             (split_str [carriage_return, newline] (trim_end_matches header header_terminator)))
             (ok_or (MalformedHeader ''missing content-length'')))"

definition read_frame :: "string option \<Rightarrow> bytes \<Rightarrow> (frame_error, string) result \<times> bytes" where
  "read_frame fail input =
     (case read_header_block fail [] input of
        (Inl e, rest) \<Rightarrow> (Err e, rest)
      | (Inr header, rest) \<Rightarrow>
          (case parse_content_length header of
             Inl e \<Rightarrow> (Err e, rest)
           | Inr n \<Rightarrow>
               if n > max_frame_bytes then (Err (FrameTooLarge n), rest)
               else if length rest < n
               then (Err (case fail of Some e \<Rightarrow> FrameIo e | None \<Rightarrow> UnexpectedEof), [])
               else if utf8_valid (take n rest) then (Ok (take n rest), drop n rest)
               else (Err InvalidUtf8, drop n rest)))"

text \<open>The bytes that \<open>write_frame\<close> sends.\<close>

definition write_frame :: "bytes \<Rightarrow> bytes" where
  "write_frame payload = ''Content-Length: '' @ dec_of_nat (length payload) @ header_terminator @ payload"

section \<open>Messages\<close>

datatype message_error = MsgNotAnObject | InvalidJson

record channel_request =
  req_msg_id :: "string option"
  req_value :: json

definition request_parse :: "(string \<Rightarrow> json option) \<Rightarrow> string \<Rightarrow> (message_error, channel_request) result" where
  "request_parse from_str txt =
     (case from_str txt of
        None \<Rightarrow> Err InvalidJson
      | Some v \<Rightarrow>
          if as_object v = None then Err MsgNotAnObject
          else Ok \<lparr>req_msg_id = get_str v ''msg_id'', req_value = v\<rparr>)"

definition request_reply :: "channel_request \<Rightarrow> json \<Rightarrow> json" where
  "request_reply r response =
     (case as_object response of
        None \<Rightarrow> response
      | Some kvs \<Rightarrow>
          (case req_msg_id r of
             None \<Rightarrow> response
           | Some i \<Rightarrow> JObj (obj_insert ''msg_id'' (JStr i) kvs)))"

definition transport_error_frame :: "string \<Rightarrow> json" where
  "transport_error_frame reason = JObj [
     (''type'', JStr ''error''), (''scope'', JStr ''transport''), (''reason'', JStr reason)]"

section \<open>Connections\<close>

text \<open>
  One connection: the state of the handler, the bytes written to the peer, and what the frame
  observer was shown. \<open>writable\<close> is whether a write of this many bytes in all succeeds.
\<close>

record connection_env =
  cn_from_str :: "string \<Rightarrow> json option"
  cn_to_vec :: "json \<Rightarrow> bytes option"
  cn_writable :: "nat \<Rightarrow> bool"

record connection =
  cn_out :: bytes
  cn_observed :: "(string \<times> bytes) list"

definition connection_write :: "connection_env \<Rightarrow> bytes \<Rightarrow> connection \<Rightarrow> bool \<times> connection" where
  "connection_write e payload c =
     (let out = cn_out c @ write_frame payload in
      if cn_writable e (length out) then (True, c\<lparr>cn_out := out\<rparr>) else (False, c))"

definition answer_protocol_violation :: "connection_env \<Rightarrow> string \<Rightarrow> connection \<Rightarrow> connection" where
  "answer_protocol_violation e reason c =
     (let frame = (case cn_to_vec e (transport_error_frame reason) of None \<Rightarrow> [] | Some b \<Rightarrow> b) in
      if frame = [] then c else snd (connection_write e frame c))"

definition connection_observe :: "string \<Rightarrow> bytes \<Rightarrow> connection \<Rightarrow> connection" where
  "connection_observe dir b c = c\<lparr>cn_observed := cn_observed c @ [(dir, b)]\<rparr>"

lemma read_header_shrinks: "read_header_block fail buf input = (Ok h, rest) \<Longrightarrow> length rest < length input"
  by (induction fail buf input rule: read_header_block.induct)
    (force simp: Let_def split: if_splits option.splits)+

lemma read_frame_shrinks: "read_frame fail input = (Ok body, rest) \<Longrightarrow> length rest < length input"
  using read_header_shrinks [of fail "[]" input]
  by (fastforce simp: read_frame_def split: prod.splits sum.splits if_splits)

function drive_connection ::
    "connection_env \<Rightarrow> (channel_request \<Rightarrow> 's \<Rightarrow> json \<times> 's) \<Rightarrow> string option \<Rightarrow> 's \<Rightarrow> connection \<Rightarrow> bytes \<Rightarrow>
     's \<times> connection" where
  "drive_connection e handler fail s c input =
     (case read_frame fail input of
        (Inl err, rest) \<Rightarrow>
          (if err = Closed then (s, c) else (s, answer_protocol_violation e (frame_error_text err) c))
      | (Inr txt, rest) \<Rightarrow>
          (let c1 = connection_observe ''request'' txt c in
           (case request_parse (cn_from_str e) txt of
              Inl _ \<Rightarrow> (s, answer_protocol_violation e ''frame payload is not a JSON object'' c1)
            | Inr request \<Rightarrow>
                (case handler request s of
                   (response, s1) \<Rightarrow>
                     (case cn_to_vec e response of
                        None \<Rightarrow> (s1, answer_protocol_violation e ''response serialization failed'' c1)
                      | Some payload \<Rightarrow>
                          (case connection_write e payload (connection_observe ''response'' payload c1) of
                             (False, c2) \<Rightarrow> (s1, c2)
                           | (True, c2) \<Rightarrow> drive_connection e handler fail s1 c2 rest))))))"
  by pat_completeness auto
termination
  by (relation "measure (\<lambda>(_, _, _, _, _, input). length input)") (auto dest: read_frame_shrinks [OF sym])

declare drive_connection.simps [simp del]

datatype client_failure = ClientFrame frame_error | ClientMessage message_error | ClientSerialization

text \<open>
  \<open>client_request\<close>: the bytes of the request go out, unless the write fails with \<open>broken\<close>, then
  one frame of the peer's bytes is read.
\<close>

definition client_request ::
    "connection_env \<Rightarrow> json \<Rightarrow> string option \<Rightarrow> string option \<Rightarrow> bytes \<Rightarrow> (client_failure, json) result \<times> bytes" where
  "client_request e message broken fail incoming =
     (case cn_to_vec e message of
        None \<Rightarrow> (Err ClientSerialization, incoming)
      | Some payload \<Rightarrow>
          (case broken of
             Some err \<Rightarrow> (Err (ClientFrame (FrameIo err)), incoming)
           | None \<Rightarrow>
               (case read_frame fail incoming of
                  (Inl err, rest) \<Rightarrow> (Err (ClientFrame err), rest)
                | (Inr txt, rest) \<Rightarrow>
                    (case request_parse (cn_from_str e) txt of
                       Inl err \<Rightarrow> (Err (ClientMessage err), rest)
                     | Inr response \<Rightarrow> (Ok (req_value response), rest)))))"

section \<open>Framing facts\<close>

lemma read_block_plain:
  assumes "carriage_return \<notin> set buf" "carriage_return \<notin> set h" "length buf + length h \<le> max_header_bytes"
  shows "read_header_block fail buf (h @ s) = read_header_block fail (buf @ h) s"
  using assms
proof (induction h arbitrary: buf)
  case (Cons b h)
  have "\<not> ends_with (buf @ [b]) header_terminator"
  proof
    assume "ends_with (buf @ [b]) header_terminator"
    then have "set header_terminator \<subseteq> set (buf @ [b])"
      by (simp only: ends_with_iff_suffix set_mono_suffix)
    with Cons.prems(1,2) show False by (auto simp: header_terminator_def)
  qed
  with Cons.prems Cons.IH [of "buf @ [b]"] show ?case by (simp add: Let_def)
qed simp

lemma read_block_terminator:
  assumes "carriage_return \<notin> set h" "length h + 4 \<le> max_header_bytes"
  shows "read_header_block fail h (header_terminator @ s) = (Ok (h @ header_terminator), s)"
proof -
  have no: "\<not> ends_with (h @ w) header_terminator"
    if "w \<in> {[carriage_return], [carriage_return, newline], [carriage_return, newline, carriage_return]}" for w
  proof
    assume "ends_with (h @ w) header_terminator"
    then have "suffix header_terminator (h @ w)" by (simp add: str_simps)
    then obtain p where p: "h @ w = p @ header_terminator" by (auto simp: suffix_def)
    have "count_list (h @ w) carriage_return = count_list (p @ header_terminator) carriage_return"
      using p by simp
    with assms(1) that have *: "w = [carriage_return, newline, carriage_return]"
      by (auto simp: header_terminator_def carriage_return_def newline_def)
    from p have "last (h @ w) = last (p @ header_terminator)" by simp
    with * show False by (simp add: header_terminator_def carriage_return_def newline_def)
  qed
  have yes: "ends_with (h @ header_terminator) header_terminator"
    by (simp only: ends_with_iff_suffix) (rule suffixI, rule refl)
  show ?thesis
    using assms(2) no [of "[carriage_return]"] no [of "[carriage_return, newline]"]
      no [of "[carriage_return, newline, carriage_return]"] yes
    by (simp add: header_terminator_def Let_def)
qed

lemma unicode_ws_bytes: "w \<in> set unicode_ws \<Longrightarrow> ch \<in> set w \<Longrightarrow> \<not> graphic ch"
proof -
  have "list_all (list_all (\<lambda>ch. \<not> graphic ch)) unicode_ws" by code_simp
  then show "w \<in> set unicode_ws \<Longrightarrow> ch \<in> set w \<Longrightarrow> \<not> graphic ch" by (simp add: list_all_iff)
qed

lemma ws_not_prefix:
  assumes "s \<noteq> []" "graphic (hd s)" "w \<in> set unicode_ws"
  shows "\<not> starts_with s w"
proof
  assume "starts_with s w"
  moreover obtain b w' where "w = b # w'" using unicode_ws_not_Nil [OF assms(3)] by (cases w) auto
  ultimately have "hd s = hd w" by (cases s) auto
  with assms(2) unicode_ws_not_graphic [OF assms(3)] show False by simp
qed

lemma trim_end_graphic: "s \<noteq> [] \<Longrightarrow> graphic (last s) \<Longrightarrow> trim_end s = s"
proof -
  assume *: "s \<noteq> []" "graphic (last s)"
  have "trim_left_by (map rev unicode_ws) (length s) (rev s) = rev s"
  proof (rule trim_left_by_keep)
    fix w assume "w \<in> set (map rev unicode_ws)"
    then obtain u where u: "w = rev u" "u \<in> set unicode_ws" by auto
    then have "u \<noteq> []" "\<not> graphic (last u)" using unicode_ws_not_Nil unicode_ws_bytes by auto
    with * u show "\<not> starts_with (rev s) w"
      by (auto simp: str_simps prefix_def rev_eq_append_conv)
  qed
  then show ?thesis by (simp add: trim_end_def)
qed

lemma trim_space_digits: "trim (CHR '' '' # dec_of_nat n) = dec_of_nat n"
proof -
  have g: "graphic ch" if "ch \<in> set (dec_of_nat n)" for ch
    using dec_of_nat_chars [OF that] by (simp add: graphic_def)
  have find: "List.find (\<lambda>w. starts_with (CHR '' '' # dec_of_nat n) w) unicode_ws = Some [CHR '' '']"
    by (simp add: unicode_ws_def)
  have keep: "trim_left_by unicode_ws k (dec_of_nat n) = dec_of_nat n" for k
    using g by (intro trim_left_by_keep ws_not_prefix) simp_all
  have "trim_start (CHR '' '' # dec_of_nat n) = dec_of_nat n"
    using find keep by (simp add: trim_start_def)
  then show ?thesis using g by (simp add: trim_def trim_end_graphic)
qed

lemma utf8_valid_ascii: "list_all (in_range 0 127) s \<Longrightarrow> utf8_valid s"
  by (induction s) simp_all

lemma in_range_digit: "ch \<in> set (dec_of_nat n) \<Longrightarrow> in_range 0 127 ch"
  by (auto simp: in_range_def dest: dec_of_nat_chars)

lemma length_digits_of: "n < 10 ^ Suc k \<Longrightarrow> length (digits_of n) \<le> Suc k"
proof (induction k arbitrary: n)
  case 0
  then show ?case by (subst digits_of.simps) simp
next
  case (Suc k)
  have "n div 10 < 10 ^ Suc k" using Suc.prems by (simp add: less_mult_imp_div_less)
  then show ?case using Suc.IH [of "n div 10"] by (subst digits_of.simps) simp
qed

lemma length_dec_of_nat: "n < 2 ^ 64 \<Longrightarrow> length (dec_of_nat n) \<le> 20"
  using length_digits_of [of n 19] by (simp add: dec_of_nat_def)

lemma trim_end_matches_once: "carriage_return \<notin> set h \<Longrightarrow> trim_end_matches (h @ header_terminator) header_terminator = h"
proof -
  assume *: "carriage_return \<notin> set h"
  have 1: "ends_with (h @ header_terminator) header_terminator"
    by (simp only: ends_with_iff_suffix) (rule suffixI, rule refl)
  have "\<not> ends_with h header_terminator"
  proof
    assume "ends_with h header_terminator"
    then have "set header_terminator \<subseteq> set h" by (simp only: ends_with_iff_suffix set_mono_suffix)
    with * show False by (auto simp: header_terminator_def)
  qed
  then have "trim_end_matches h header_terminator = h" by (subst trim_end_matches.simps) simp
  with 1 show ?thesis by (subst trim_end_matches.simps) (simp add: header_terminator_def)
qed

lemma split_str_single: "carriage_return \<notin> set h \<Longrightarrow> split_str [carriage_return, newline] h = [h]"
proof -
  assume "carriage_return \<notin> set h"
  then have "find_sub h [carriage_return, newline] = None" by (auto simp: find_sub_None_iff)
  then show ?thesis by (subst split_str.simps) (simp add: split_once_def)
qed

definition length_line :: "nat \<Rightarrow> string" where
  "length_line n = ''Content-Length: '' @ dec_of_nat n"

lemma length_line_no_cr: "carriage_return \<notin> set (length_line n)"
  using dec_of_nat_chars [of carriage_return n] by (auto simp: length_line_def carriage_return_def)

lemma split_length_line: "split_once (length_line n) '':'' = Some (''Content-Length'', CHR '' '' # dec_of_nat n)"
proof -
  have eq: "length_line n = ''Content-Length'' @ CHR '':'' # CHR '' '' # dec_of_nat n" by (simp add: length_line_def)
  show ?thesis unfolding eq by (rule split_once_char) simp
qed

lemma content_length_name: "eq_ignore_ascii_case (trim ''Content-Length'') ''content-length''"
  by code_simp

lemma parse_content_length_line:
  "n < 2 ^ 64 \<Longrightarrow> parse_content_length (length_line n @ header_terminator) = Ok n"
proof -
  assume n: "n < 2 ^ 64"
  have "utf8_valid (length_line n @ header_terminator)"
    by (rule utf8_valid_ascii)
      (auto simp: length_line_def list_all_iff in_range_digit header_terminator_def carriage_return_def
        newline_def in_range_def dest: dec_of_nat_chars)
  moreover have "length_line n \<noteq> []" by (simp add: length_line_def)
  ultimately show ?thesis
    using n by (simp add: parse_content_length_def trim_end_matches_once length_line_no_cr split_str_single
        split_length_line content_length_name trim_space_digits)
qed

lemma read_length_line:
  assumes "n < 2 ^ 64"
  shows "read_header_block fail [] (length_line n @ header_terminator @ s) = (Ok (length_line n @ header_terminator), s)"
proof -
  have "length (length_line n) + 4 \<le> max_header_bytes"
    using length_dec_of_nat [OF assms] by (simp add: length_line_def max_header_bytes_def)
  then show ?thesis
    using read_block_plain [of "[]" "length_line n" fail] read_block_terminator [of "length_line n"]
    by (simp add: length_line_no_cr)
qed

text \<open>
  (C18) Framing is exact: what \<open>write_frame\<close> sends is read back as one message whatever follows
  it on the stream, a body over the hard limit is refused before any of it is consumed, and a
  body that is not UTF-8 is refused without disturbing the next frame.
\<close>

theorem read_frame_write_frame:
  assumes "length payload < 2 ^ 64"
  shows "read_frame fail (write_frame payload @ rest) =
    (if length payload > max_frame_bytes then (Err (FrameTooLarge (length payload)), payload @ rest)
     else if utf8_valid payload then (Ok payload, rest)
     else (Err InvalidUtf8, rest))"
proof -
  have eq: "write_frame payload @ rest = length_line (length payload) @ header_terminator @ payload @ rest"
    by (simp add: write_frame_def length_line_def)
  show ?thesis
    unfolding eq using read_length_line [OF assms, of fail "payload @ rest"] parse_content_length_line [OF assms]
    by (simp add: read_frame_def)
qed

theorem read_frame_write_frame_witness:
  "read_frame None (write_frame ''{}'' @ write_frame ''x'') = (Ok ''{}'', write_frame ''x'')"
  using read_frame_write_frame [of "''{}''" None "write_frame ''x''"]
  by (simp add: max_frame_bytes_def in_range_def)

section \<open>A connection serves its requests in order\<close>

lemma read_frame_ok:
  assumes "utf8_valid p" "length p \<le> max_frame_bytes"
  shows "read_frame fail (write_frame p @ rest) = (Ok p, rest)"
proof -
  have "length p < 2 ^ 64" using assms(2) by (simp add: max_frame_bytes_def)
  from read_length_line [OF this, of fail "p @ rest"] parse_content_length_line [OF this] assms
  show ?thesis by (simp add: read_frame_def write_frame_def length_line_def)
qed

text \<open>The intended behaviour: the handler applied to one request after the other.\<close>

fun answer_all :: "(channel_request \<Rightarrow> 's \<Rightarrow> json \<times> 's) \<Rightarrow> 's \<Rightarrow> channel_request list \<Rightarrow> json list \<times> 's" where
  "answer_all handler s [] = ([], s)"
| "answer_all handler s (r # rs) =
     (case handler r s of (v, s1) \<Rightarrow> (case answer_all handler s1 rs of (vs, s2) \<Rightarrow> (v # vs, s2)))"

definition exchange :: "connection_env \<Rightarrow> connection \<Rightarrow> string \<times> json \<Rightarrow> connection" where
  "exchange e c x = (let payload = the (cn_to_vec e (snd x)) in
     c\<lparr>cn_observed := cn_observed c @ [(''request'', fst x), (''response'', payload)],
       cn_out := cn_out c @ write_frame payload\<rparr>)"

definition well_framed :: "connection_env \<Rightarrow> string \<times> channel_request \<Rightarrow> bool" where
  "well_framed e x \<longleftrightarrow> utf8_valid (fst x) \<and> length (fst x) \<le> max_frame_bytes \<and>
     request_parse (cn_from_str e) (fst x) = Ok (snd x)"


text \<open>A concrete peer: two requests, then a header that is no header.\<close>

definition sample_channel :: connection_env where
  "sample_channel = \<lparr>cn_from_str = (\<lambda>t. Some (JObj [(''t'', JStr t)])),
     cn_to_vec = (\<lambda>v. Some (case get_str v ''t'' of None \<Rightarrow> ''e'' | Some t \<Rightarrow> t)), cn_writable = (\<lambda>_. True)\<rparr>"

definition echo_handler :: "channel_request \<Rightarrow> nat \<Rightarrow> json \<times> nat" where
  "echo_handler r n = (req_value r, Suc n)"


text \<open>Replies carry the correlation id of their request, whatever the handler put there.\<close>

lemma reply_msg_id:
  "req_msg_id r = Some i \<Longrightarrow> get_str (request_reply r (JObj kvs)) ''msg_id'' = Some i"
  by (simp add: request_reply_def get_str_def)

end
