(* ===== verification/Privilege.thy ===== *)
theory Privilege
  imports Codec Sessions
begin

unbundle bit_operations_syntax

text \<open>
  The \<^verbatim>\<open>local-privilege\<close> mechanism: the operator allowlist as the helper enforces it
  (\<^verbatim>\<open>crates/privileged-helper/src/allowlist.rs\<close>) and as the gateway mirrors it
  (\<^verbatim>\<open>crates/gateway-core/src/privilege.rs\<close>), the request processing and the main loop of the
  helper (\<^verbatim>\<open>lib.rs\<close>, \<^verbatim>\<open>main.rs\<close>), and the gateway's side of the exchange. Running a program,
  reading TOML, and reading and printing JSON are parameters.
\<close>

section \<open>The allowlist\<close>

record allowlist_entry =
  al_command :: string
  al_args :: "string list"

text \<open>\<open>toml\<close> reads the \<^verbatim>\<open>allow\<close> tables of a file.\<close>

definition allowlist_load ::
    "(string \<Rightarrow> (string, allowlist_entry list) result) \<Rightarrow> (string, string) result \<Rightarrow>
     (string, allowlist_entry list) result" where
  "allowlist_load toml file =
     (case file of
        Inl e \<Rightarrow> Err (''allowlist: '' @ e)
      | Inr raw \<Rightarrow> (case toml raw of Inl e \<Rightarrow> Err (''allowlist schema: '' @ e) | Inr es \<Rightarrow> Ok es))"

definition allowlist_permits :: "allowlist_entry list \<Rightarrow> string \<Rightarrow> string list \<Rightarrow> bool" where
  "allowlist_permits es command args \<longleftrightarrow>
     list_ex (\<lambda>e. al_command e = command \<and> length (al_args e) \<le> length args \<and>
       take (length (al_args e)) args = al_args e) es"

text \<open>The gateway's copy: pairs read from the same file.\<close>

type_synonym privilege_allowlist = "(string \<times> string list) list"

definition privilege_load ::
    "(string \<Rightarrow> (string, allowlist_entry list) result) \<Rightarrow> (string, string) result \<Rightarrow>
     (string, privilege_allowlist) result" where
  "privilege_load toml file =
     (case file of
        Inl e \<Rightarrow> Err (''allowlist: '' @ e)
      | Inr raw \<Rightarrow>
          (case toml raw of
             Inl e \<Rightarrow> Err (''allowlist schema: '' @ e)
           | Inr es \<Rightarrow> Ok (map (\<lambda>e. (al_command e, al_args e)) es)))"

definition privilege_permits :: "privilege_allowlist \<Rightarrow> string \<Rightarrow> string list \<Rightarrow> bool" where
  "privilege_permits es command args \<longleftrightarrow>
     list_ex (\<lambda>(c, pin). c = command \<and> length pin \<le> length args \<and> take (length pin) args = pin) es"

section \<open>Ownership of the allowlist file\<close>

fun oct_digits :: "nat \<Rightarrow> string" where
  "oct_digits n = (if n < 8 then [''01234567'' ! n] else oct_digits (n div 8) @ [''01234567'' ! (n mod 8)])"

declare oct_digits.simps [simp del]

text \<open>\<^verbatim>\<open>format!("{mode:04o}")\<close>.\<close>

definition oct4 :: "nat \<Rightarrow> string" where
  "oct4 n = (let d = oct_digits n in replicate (4 - length d) CHR ''0'' @ d)"

definition validate_allowlist_ownership :: "32 word \<Rightarrow> 32 word \<Rightarrow> (string, unit) result" where
  "validate_allowlist_ownership uid mode =
     (if uid \<noteq> 0 then Err (''allowlist must be root-owned when running elevated (owner uid '' @
        dec_of_nat (unat uid) @ '')'')
      else if mode AND 18 \<noteq> 0 then Err (''allowlist must not be group/other writable (mode '' @
        oct4 (unat mode) @ '')'')
      else Ok ())"

definition check_allowlist_for_elevated :: "(string, 32 word \<times> 32 word) result \<Rightarrow> (string, unit) result" where
  "check_allowlist_for_elevated stat =
     (case stat of
        Inl e \<Rightarrow> Err (''allowlist stat: '' @ e)
      | Inr (uid, mode) \<Rightarrow> validate_allowlist_ownership uid mode)"

section \<open>Framing over the helper's pipes\<close>

definition helper_max_frame :: nat where
  "helper_max_frame = 1024 * 1024"

text \<open>The byte loop of both readers; \<open>eof\<close> is what the end of the stream gives.\<close>

fun helper_header ::
    "(bytes \<Rightarrow> (string, bytes option) result) \<Rightarrow> string option \<Rightarrow> bytes \<Rightarrow> bytes \<Rightarrow>
     (string, bytes option) result \<times> bytes" where
  "helper_header eof fail header [] = ((case fail of Some e \<Rightarrow> Err e | None \<Rightarrow> eof header), [])"
| "helper_header eof fail header (byte # input) =
     (let header' = header @ [byte] in
      if length header' > 256 then (Err ''header too large'', input)
      else if ends_with header' header_terminator then (Ok (Some header'), input)
      else helper_header eof fail header' input)"

fun find_map :: "('a \<Rightarrow> 'b option) \<Rightarrow> 'a list \<Rightarrow> 'b option" where
  "find_map f [] = None"
| "find_map f (x # xs) = (case f x of Some y \<Rightarrow> Some y | None \<Rightarrow> find_map f xs)"

definition line_length :: "string \<Rightarrow> nat option" where
  "line_length l =
     (case split_once l '':'' of
        None \<Rightarrow> None
      | Some (k, v) \<Rightarrow> if eq_ignore_ascii_case k ''content-length'' then parse_uint 64 (trim v) else None)"

text \<open>\<open>short\<close> is the message of \<^verbatim>\<open>read_exact\<close> on a stream that ends too early.\<close>

definition helper_body :: "string \<Rightarrow> string option \<Rightarrow> bytes \<Rightarrow> bytes \<Rightarrow> (string, bytes option) result \<times> bytes" where
  "helper_body short fail header rest =
     (if \<not> utf8_valid header then (Err ''header not ASCII'', rest)
      else (case find_map line_length
                   (split_str [carriage_return, newline] (trim_end_matches header header_terminator)) of
              None \<Rightarrow> (Err ''missing content-length'', rest)
            | Some n \<Rightarrow>
                if n > helper_max_frame then (Err ''frame too large'', rest)
                else if length rest < n
                then (Err (case fail of Some e \<Rightarrow> e | None \<Rightarrow> short), [])
                else (Ok (Some (take n rest)), drop n rest)))"

definition helper_read_frame :: "string option \<Rightarrow> bytes \<Rightarrow> (string, bytes option) result \<times> bytes" where
  "helper_read_frame fail input =
     (case helper_header (\<lambda>header. if header = [] then Ok None else Err ''truncated header'') fail [] input of
        (Inr (Some header), rest) \<Rightarrow> helper_body ''failed to fill whole buffer'' fail header rest
      | r \<Rightarrow> r)"

definition read_frame_async :: "string option \<Rightarrow> bytes \<Rightarrow> (string, bytes option) result \<times> bytes" where
  "read_frame_async fail input =
     (case helper_header (\<lambda>header. Ok None) fail [] input of
        (Inr (Some header), rest) \<Rightarrow> helper_body ''early eof'' fail header rest
      | r \<Rightarrow> r)"

text \<open>\<open>None\<close>: the assertion on the size of the request fails and the task panics.\<close>

definition write_frame_async :: "bytes \<Rightarrow> bytes option" where
  "write_frame_async payload =
     (if length payload \<le> helper_max_frame then Some (write_frame payload) else None)"

section \<open>One request\<close>

record child_output =
  co_stdout :: bytes
  co_stderr :: bytes
  co_code :: "int option"

datatype child_outcome = SpawnFailed string | WaitFailed string | Finished child_output

type_synonym child = "string \<times> string list \<times> bytes option"

text \<open>\<open>he_broken n\<close> is the error of the write that would bring the output to \<open>n\<close> bytes.\<close>

record helper_env =
  he_crypto :: crypto
  he_from_slice :: "bytes \<Rightarrow> (string, json) result"
  he_print :: "json \<Rightarrow> bytes"
  he_run :: "child \<Rightarrow> child_outcome"
  he_broken :: "nat \<Rightarrow> string option"

definition string_args :: "json \<Rightarrow> string \<Rightarrow> string list" where
  "string_args v key =
     (case Option.bind (json_get v key) as_array of
        None \<Rightarrow> [] | Some a \<Rightarrow> List.map_filter as_str a)"

definition stamp_id :: "string \<Rightarrow> json \<Rightarrow> json" where
  "stamp_id i v = (case v of JObj kvs \<Rightarrow> JObj (obj_insert ''id'' (JStr i) kvs) | w \<Rightarrow> w)"

definition status_reply :: "string \<Rightarrow> string \<Rightarrow> string \<Rightarrow> json" where
  "status_reply i status reason = stamp_id i (JObj [(''status'', JStr status), (''reason'', JStr reason)])"

definition request_input :: "crypto \<Rightarrow> json \<Rightarrow> bytes option" where
  "request_input c msg =
     (case get_str msg ''input_b64'' of
        None \<Rightarrow> None
      | Some s \<Rightarrow>
          Some (case decode_signature c (rev (dropWhile (\<lambda>ch. ch = CHR ''='')
                  (rev (filter (\<lambda>ch. ch \<noteq> newline \<and> ch \<noteq> carriage_return) s)))) of
                  None \<Rightarrow> [] | Some b \<Rightarrow> b))"

definition child_replies :: "crypto \<Rightarrow> string \<Rightarrow> child_outcome \<Rightarrow> json list" where
  "child_replies c i out =
     (case out of
        SpawnFailed e \<Rightarrow> [status_reply i ''error'' (''spawn: '' @ e)]
      | WaitFailed e \<Rightarrow> [status_reply i ''error'' e]
      | Finished r \<Rightarrow>
          (if co_stdout r = [] then [] else [stamp_id i (JObj [(''type'', JStr ''out''),
             (''stream'', JStr ''stdout''), (''data_b64'', JStr (encode_signature c (co_stdout r)))])]) @
          (if co_stderr r = [] then [] else [stamp_id i (JObj [(''type'', JStr ''out''),
             (''stream'', JStr ''stderr''), (''data_b64'', JStr (encode_signature c (co_stderr r)))])]) @
          [stamp_id i (JObj [(''type'', JStr ''exit''),
             (''exit_code'', JInt (case co_code r of None \<Rightarrow> -1 | Some k \<Rightarrow> k))])])"

text \<open>The replies, and the program that was started, if any.\<close>

definition process_request ::
    "helper_env \<Rightarrow> json \<Rightarrow> string \<Rightarrow> allowlist_entry list \<Rightarrow> bool \<Rightarrow> json list \<times> child list" where
  "process_request e msg expected_token al run_child =
     (let i = (case get_str msg ''id'' of None \<Rightarrow> [] | Some s \<Rightarrow> s) in
      if get_str msg ''token'' \<noteq> Some expected_token then ([status_reply i ''denied'' ''bad token''], [])
      else if get_str msg ''op'' \<noteq> Some ''exec'' then ([status_reply i ''error'' ''unsupported op''], [])
      else (case get_str msg ''command'' of
        None \<Rightarrow> ([status_reply i ''error'' ''missing command''], [])
      | Some command \<Rightarrow>
          (let args = string_args msg ''args'' in
           if \<not> allowlist_permits al command args
           then ([status_reply i ''denied'' ''command not allowlisted''], [])
           else if \<not> run_child then ([stamp_id i (JObj [(''status'', JStr ''authorized'')])], [])
           else (let child = (command, args, request_input (he_crypto e) msg) in
             (child_replies (he_crypto e) i (he_run e child), [child])))))"

section \<open>The helper process\<close>

fun helper_write :: "helper_env \<Rightarrow> bytes \<Rightarrow> json list \<Rightarrow> string option \<times> bytes" where
  "helper_write e out [] = (None, out)"
| "helper_write e out (r # rs) =
     (let out' = out @ write_frame (he_print e r) in
      (case he_broken e (length out') of Some err \<Rightarrow> (Some err, out) | None \<Rightarrow> helper_write e out' rs))"

lemma helper_header_shrinks: "helper_header eof fail h input = (Ok (Some h'), rest) \<Longrightarrow>
  (\<And>x. eof x \<noteq> Ok (Some h')) \<Longrightarrow> length rest < length input"
  by (induction eof fail h input rule: helper_header.induct)
    (force simp: Let_def split: if_splits option.splits)+

lemma helper_body_shrinks: "helper_body short fail h input = (Ok (Some b), rest) \<Longrightarrow> length rest \<le> length input"
  by (auto simp: helper_body_def split: if_splits option.splits)

lemma helper_read_frame_shrinks:
  "helper_read_frame fail input = (Ok (Some b), rest) \<Longrightarrow> length rest < length input"
  unfolding helper_read_frame_def
  by (fastforce split: prod.splits sum.splits option.splits if_splits
      dest: helper_body_shrinks helper_header_shrinks)

function helper_loop ::
    "helper_env \<Rightarrow> string \<Rightarrow> allowlist_entry list \<Rightarrow> string option \<Rightarrow> bytes \<Rightarrow> bytes \<Rightarrow>
     (string, unit) result \<times> bytes \<times> child list" where
  "helper_loop e token al fail out input =
     (case helper_read_frame fail input of
        (Inl err, rest) \<Rightarrow> (Err err, out, [])
      | (Inr None, rest) \<Rightarrow> (Ok (), out, [])
      | (Inr (Some body), rest) \<Rightarrow>
          (case he_from_slice e body of
             Inl err \<Rightarrow> (Err err, out, [])
           | Inr msg \<Rightarrow>
               (case process_request e msg token al True of
                  (replies, kids) \<Rightarrow>
                    (case helper_write e out replies of
                       (Some err, out') \<Rightarrow> (Err err, out', kids)
                     | (None, out') \<Rightarrow>
                         (case helper_loop e token al fail out' rest of
                            (r, out'', kids') \<Rightarrow> (r, out'', kids @ kids'))))))"
  by pat_completeness auto
termination
  by (relation "measure (\<lambda>(_, _, _, _, _, input). length input)") (auto dest: helper_read_frame_shrinks [OF sym])

declare helper_loop.simps [simp del]

fun allowlist_arg :: "string list \<Rightarrow> string option" where
  "allowlist_arg (a # b # rest) = (if a = ''--allowlist'' then Some b else allowlist_arg (b # rest))"
| "allowlist_arg _ = None"

text \<open>
  The machine the helper runs on: its arguments, the token variable, the owner and mode and the
  content of the files, and its standard input.
\<close>

record helper_host =
  hh_args :: "string list"
  hh_token :: "string option"
  hh_stat :: "string \<Rightarrow> (string, 32 word \<times> 32 word) result"
  hh_read :: "string \<Rightarrow> (string, string) result"
  hh_toml :: "string \<Rightarrow> (string, allowlist_entry list) result"
  hh_stdin :: bytes
  hh_stdin_fail :: "string option"

definition helper_main :: "helper_env \<Rightarrow> helper_host \<Rightarrow> (string, unit) result \<times> bytes \<times> child list" where
  "helper_main e h =
     (let elevated = ''--elevated'' \<in> set (hh_args h);
          args = remove1 ''--elevated'' (hh_args h) in
      (case allowlist_arg args of
         None \<Rightarrow> (Err ''usage: chaperone-helper [--elevated] --allowlist <TOML>'', [], [])
       | Some path \<Rightarrow>
         (case hh_token h of
            None \<Rightarrow> (Err ''CHAPERONE_HELPER_TOKEN not set; refusing to run'', [], [])
          | Some token \<Rightarrow>
            if token = [] then (Err ''empty helper token; refusing to run'', [], [])
            else (case (if elevated then check_allowlist_for_elevated (hh_stat h path) else Ok ()) of
              Inl err \<Rightarrow> (Err (''elevated allowlist check failed: '' @ err), [], [])
            | Inr _ \<Rightarrow>
              (case allowlist_load (hh_toml h) (hh_read h path) of
                 Inl err \<Rightarrow> (Err err, [], [])
               | Inr al \<Rightarrow> helper_loop e token al (hh_stdin_fail h) [] (hh_stdin h))))))"

section \<open>The gateway's side\<close>

record priv_backend =
  pb_helper_argv :: "string list"
  pb_allowlist_path :: string

definition priv_token :: "crypto \<Rightarrow> bytes \<Rightarrow> string" where
  "priv_token c raw = encode_signature c raw"

definition exec_request :: "string \<Rightarrow> string \<Rightarrow> string list \<Rightarrow> string option \<Rightarrow> json" where
  "exec_request token command args input_b64 = JObj [
     (''token'', JStr token), (''id'', JStr ''exec-1''), (''op'', JStr ''exec''),
     (''command'', JStr command), (''args'', JArr (map JStr args)),
     (''input_b64'', (case input_b64 of None \<Rightarrow> JNull | Some s \<Rightarrow> JStr s))]"

definition empty_batch :: output_batch where
  "empty_batch = \<lparr>ob_chunks = [], ob_closed = False, ob_exit_code = None\<rparr>"

definition push_chunk :: "string \<Rightarrow> bytes \<Rightarrow> output_batch \<Rightarrow> output_batch" where
  "push_chunk stream data b = b\<lparr>ob_chunks := ob_chunks b @ [\<lparr>oc_stream = stream, oc_data = data\<rparr>]\<rparr>"

definition exit_code_of :: "json \<Rightarrow> int option" where
  "exit_code_of msg =
     (case json_get msg ''exit_code'' of
        Some (JInt k) \<Rightarrow> if - (2 ^ 31) \<le> k \<and> k < 2 ^ 31 then Some k else None
      | _ \<Rightarrow> None)"

definition out_chunk :: "crypto \<Rightarrow> json \<Rightarrow> output_batch \<Rightarrow> output_batch" where
  "out_chunk c msg b =
     (if get_str msg ''type'' = Some ''out'' then
        (case Option.bind (get_str msg ''data_b64'') (decode_signature c) of
           None \<Rightarrow> b
         | Some data \<Rightarrow>
             push_chunk (if get_str msg ''stream'' = Some ''stderr'' then ''stderr'' else ''stdout'') data b)
      else b)"

text \<open>\<open>n\<close> frames arrive before the deadline.\<close>

fun collect_replies :: "helper_env \<Rightarrow> nat \<Rightarrow> string option \<Rightarrow> bytes \<Rightarrow> output_batch \<Rightarrow> output_batch" where
  "collect_replies e 0 fail input b = b"
| "collect_replies e (Suc n) fail input b =
     (case read_frame_async fail input of
        (Inr (Some body), rest) \<Rightarrow>
          (let msg = (case he_from_slice e body of Inl _ \<Rightarrow> JObj [] | Inr v \<Rightarrow> v) in
           if get_str msg ''status'' \<noteq> None then
             (push_chunk ''stderr'' (he_print e msg) b)\<lparr>ob_closed := True, ob_exit_code := Some (-1)\<rparr>
           else (let b1 = out_chunk (he_crypto e) msg b in
             if get_str msg ''type'' = Some ''exit''
             then b1\<lparr>ob_exit_code := exit_code_of msg, ob_closed := True\<rparr>
             else collect_replies e n fail rest b1))
      | _ \<Rightarrow> b)"

datatype spawned = NotSpawned string | PipeBroken string | HelperOut bytes "string option"

text \<open>
  \<open>spawn\<close> runs the helper: program and arguments, token, and the bytes of its standard input
  give the bytes of its standard output. \<open>None\<close> is a panic of the task.
\<close>

definition priv_connect ::
    "helper_env \<Rightarrow> priv_backend \<Rightarrow> (string list \<Rightarrow> string \<Rightarrow> bytes \<Rightarrow> spawned) \<Rightarrow> bytes \<Rightarrow> nat \<Rightarrow> json \<Rightarrow>
     (string, output_batch) result option" where
  "priv_connect e b spawn raw n operation =
     (case get_str operation ''command'' of
        None \<Rightarrow> Some (Err ''operation.command missing'')
      | Some command \<Rightarrow>
          (let token = priv_token (he_crypto e) raw;
               request = he_print e (exec_request token command (string_args operation ''args'')
                 (get_str operation ''input_b64'')) in
           if pb_helper_argv b = [] then Some (Err ''empty helper command'')
           else (case spawn (pb_helper_argv b @ [''--allowlist'', pb_allowlist_path b]) token
                        (case write_frame_async request of None \<Rightarrow> [] | Some w \<Rightarrow> w) of
             NotSpawned err \<Rightarrow> Some (Err (''spawning helper failed: '' @ err))
           | PipeBroken err \<Rightarrow>
               if write_frame_async request = None then None else Some (Err (''helper write: '' @ err))
           | HelperOut out fail \<Rightarrow>
               if write_frame_async request = None then None
               else Some (Ok (collect_replies e n fail out empty_batch)))))"

text \<open>A channel whose output arrived while it was opened: the first read takes it.\<close>

definition completed_read :: "output_batch option \<Rightarrow> output_batch \<times> output_batch option" where
  "completed_read held = (case held of None \<Rightarrow> empty_batch | Some b \<Rightarrow> b, None)"

section \<open>Only pinned commands run\<close>

lemma process_request_children:
  "ch \<in> set (snd (process_request e msg token al run)) \<Longrightarrow>
     get_str msg ''token'' = Some token \<and> allowlist_permits al (fst ch) (fst (snd ch)) \<and> run"
  by (auto simp: process_request_def Let_def split: if_splits option.splits)

lemma helper_loop_children:
  "ch \<in> set (snd (snd (helper_loop e token al fail out input))) \<Longrightarrow> allowlist_permits al (fst ch) (fst (snd ch))"
proof (induction e token al fail out input rule: helper_loop.induct)
  case (1 e token al fail out input)
  obtain r rest where rf: "helper_read_frame fail input = (r, rest)" by fastforce
  show ?case
  proof (cases "\<exists>body msg. r = Ok (Some body) \<and> he_from_slice e body = Ok msg")
    case True
    then obtain body msg where r: "r = Ok (Some body)" and msg: "he_from_slice e body = Ok msg" by blast
    obtain replies kids where pr: "process_request e msg token al True = (replies, kids)" by fastforce
    obtain w out' where hw: "helper_write e out replies = (w, out')" by fastforce
    have "ch \<in> set kids \<Longrightarrow> ?thesis" using process_request_children [of ch e msg token al True] pr by simp
    moreover have "w = None \<Longrightarrow> ch \<in> set (snd (snd (helper_loop e token al fail out' rest))) \<Longrightarrow> ?thesis"
      using 1(1) rf r msg pr hw by simp
    ultimately show ?thesis
      using 1(2) rf r msg pr hw
      by (subst (asm) helper_loop.simps) (auto split: option.splits prod.splits)
  next
    case False
    then show ?thesis
      using 1(2) rf by (subst (asm) helper_loop.simps) (auto split: option.splits sum.splits)
  qed
qed

lemma permits_iff:
  "allowlist_permits al command args \<longleftrightarrow> (\<exists>e \<in> set al. al_command e = command \<and> prefix (al_args e) args)"
proof -
  have "length p \<le> length args \<and> take (length p) args = p \<longleftrightarrow> prefix p args" for p :: "string list"
    by (metis append_eq_conv_conj append_take_drop_id length_take min.absorb2 nle_le prefix_def take_all_iff)
  then show ?thesis by (auto simp: allowlist_permits_def list_ex_iff)
qed

lemma mirror_agrees:
  "allowlist_load toml file = Ok al \<Longrightarrow>
     privilege_load toml file = Ok (map (\<lambda>e. (al_command e, al_args e)) al) \<and>
     privilege_permits (map (\<lambda>e. (al_command e, al_args e)) al) command args = allowlist_permits al command args"
  by (auto simp: allowlist_load_def privilege_load_def privilege_permits_def allowlist_permits_def list_ex_iff
      split: sum.splits)

text \<open>
  (C15) Whatever bytes arrive on its standard input, the helper starts a program only when the
  allowlist file names that program and the arguments begin with the pinned ones; it must hold
  a token that is not empty, and when elevated the file must belong to root and be writable by
  nobody else.
\<close>

theorem helper_runs_only_pinned:
  assumes "(command, args, stdin) \<in> set (snd (snd (helper_main e h)))"
  shows "\<exists>path al entry uid mode.
    allowlist_arg (remove1 ''--elevated'' (hh_args h)) = Some path \<and>
    allowlist_load (hh_toml h) (hh_read h path) = Ok al \<and>
    entry \<in> set al \<and> al_command entry = command \<and> prefix (al_args entry) args \<and>
    hh_token h \<notin> {None, Some []} \<and>
    (''--elevated'' \<notin> set (hh_args h) \<or> hh_stat h path = Ok (uid, mode) \<and> uid = 0 \<and> mode AND 18 = 0)"
proof -
  obtain path where path: "allowlist_arg (remove1 ''--elevated'' (hh_args h)) = Some path"
    using assms by (auto simp: helper_main_def Let_def split: option.splits)
  obtain token where token: "hh_token h = Some token" "token \<noteq> []"
    using assms path by (auto simp: helper_main_def Let_def split: option.splits if_splits)
  have own: "''--elevated'' \<in> set (hh_args h) \<Longrightarrow> \<exists>mode. hh_stat h path = Ok (0, mode) \<and> mode AND 18 = 0"
    using assms path token
    by (auto simp: helper_main_def Let_def check_allowlist_for_elevated_def validate_allowlist_ownership_def
        split: sum.splits if_splits)
  obtain al where al: "allowlist_load (hh_toml h) (hh_read h path) = Ok al"
    and run: "(command, args, stdin) \<in> set (snd (snd (helper_loop e token al (hh_stdin_fail h) [] (hh_stdin h))))"
    using assms path token by (auto simp: helper_main_def Let_def split: sum.splits if_splits)
  from helper_loop_children [OF run] obtain entry where
    "entry \<in> set al" "al_command entry = command" "prefix (al_args entry) args"
    by (auto simp: permits_iff)
  with path al token own show ?thesis by auto
qed

section \<open>Helper frames\<close>

lemma read_header_extends: "read_header_block fail buf input = (Ok h, rest) \<Longrightarrow> prefix buf h"
proof (induction fail buf input rule: read_header_block.induct)
  case (2 fail buf byte input)
  then show ?case by (auto simp: Let_def split: if_splits dest: append_prefixD)
qed (auto split: option.splits if_splits)

lemma helper_header_of_read_header:
  "read_header_block fail buf input = (Ok h, rest) \<Longrightarrow> length h \<le> 256 \<Longrightarrow>
     helper_header eof fail buf input = (Ok (Some h), rest)"
proof (induction fail buf input rule: read_header_block.induct)
  case (2 fail buf byte input)
  have "prefix (buf @ [byte]) h"
    using 2(2) by (auto simp: Let_def split: if_splits dest: read_header_extends)
  then have "length (buf @ [byte]) \<le> 256" using 2(3) prefix_length_le by fastforce
  then show ?case using 2 by (auto simp: Let_def split: if_splits)
qed (auto split: option.splits if_splits)

lemma helper_header_line:
  assumes "n < 2 ^ 64"
  shows "helper_header eof fail [] (length_line n @ header_terminator @ s) = (Ok (Some (length_line n @ header_terminator)), s)"
proof (rule helper_header_of_read_header [OF read_length_line [OF assms]])
  show "length (length_line n @ header_terminator) \<le> 256"
    using length_dec_of_nat [OF assms] by (simp add: length_line_def header_terminator_def)
qed

lemma helper_body_line:
  assumes "n < 2 ^ 64"
  shows "helper_body short fail (length_line n @ header_terminator) rest =
    (if n > helper_max_frame then (Err ''frame too large'', rest)
     else if length rest < n then (Err (case fail of Some e \<Rightarrow> e | None \<Rightarrow> short), [])
     else (Ok (Some (take n rest)), drop n rest))"
proof -
  have "eq_ignore_ascii_case ''Content-Length'' ''content-length''" by code_simp
  then have "line_length (length_line n) = Some n"
    using assms by (simp add: line_length_def split_length_line trim_space_digits)
  moreover have "utf8_valid (length_line n @ header_terminator)"
    using parse_content_length_line [OF assms] by (auto simp: parse_content_length_def split: if_splits)
  ultimately show ?thesis
    by (simp add: helper_body_def trim_end_matches_once length_line_no_cr split_str_single)
qed

lemma write_frame_line: "write_frame p @ rest = length_line (length p) @ header_terminator @ p @ rest"
  by (simp add: write_frame_def length_line_def)

lemma helper_frame_length: "length p \<le> helper_max_frame \<Longrightarrow> length p < 2 ^ 64"
  by (simp add: helper_max_frame_def)

lemma helper_frames_ok:
  assumes "length p \<le> helper_max_frame"
  shows "helper_read_frame fail (write_frame p @ rest) = (Ok (Some p), rest)"
    and "read_frame_async fail (write_frame p @ rest) = (Ok (Some p), rest)"
  using helper_header_line [OF helper_frame_length [OF assms]] helper_body_line [OF helper_frame_length [OF assms]] assms
  unfolding helper_read_frame_def read_frame_async_def write_frame_line by simp_all

lemma read_frame_async_too_large:
  assumes "helper_max_frame < length p" "length p < 2 ^ 64"
  shows "read_frame_async fail (write_frame p @ rest) = (Err ''frame too large'', p @ rest)"
  using helper_header_line [OF assms(2)] helper_body_line [OF assms(2)] assms(1)
  unfolding read_frame_async_def write_frame_line by simp

section \<open>A privileged command from end to end\<close>

definition json_prints_back :: "helper_env \<Rightarrow> bool" where
  "json_prints_back e \<longleftrightarrow> (\<forall>v. json_exact v \<longrightarrow> he_from_slice e (he_print e v) = Ok (json_sort v))"

text \<open>The helper of this development as the program that the gateway spawns.\<close>

definition spawn_helper :: "helper_env \<Rightarrow> helper_host \<Rightarrow> string list \<Rightarrow> string \<Rightarrow> bytes \<Rightarrow> spawned" where
  "spawn_helper e host argv token input =
     HelperOut (fst (snd (helper_main e (host\<lparr>hh_args := List.tl argv, hh_token := Some token,
       hh_stdin := input, hh_stdin_fail := None\<rparr>)))) None"

lemma map_filter_as_str_sort: "List.map_filter as_str (map json_sort vs) = List.map_filter as_str vs"
  by (induction vs) (auto simp: List.map_filter_simps split: option.splits)

lemma string_args_sort [simp]: "string_args (json_sort v) k = string_args v k"
proof -
  have "as_array (json_sort w) = map_option (map json_sort) (as_array w)" for w by (cases w) simp_all
  then show ?thesis
    by (cases "json_get v k") (auto simp: string_args_def json_get_sort map_filter_as_str_sort split: option.splits)
qed

lemma map_filter_JStr: "List.map_filter as_str (map JStr args) = args"
  by (induction args) (simp_all add: List.map_filter_simps)

lemma exec_request_members [simp]:
  "get_str (exec_request token command args inp) ''token'' = Some token"
  "get_str (exec_request token command args inp) ''id'' = Some ''exec-1''"
  "get_str (exec_request token command args inp) ''op'' = Some ''exec''"
  "get_str (exec_request token command args inp) ''command'' = Some command"
  "get_str (exec_request token command args inp) ''input_b64'' = inp"
  "string_args (exec_request token command args inp) ''args'' = args"
  by (auto simp: exec_request_def get_str_def string_args_def map_filter_JStr split: option.splits)

lemma exec_request_exact [simp]: "json_exact (exec_request token command args inp)"
  by (auto simp: exec_request_def list_all_iff split: option.splits)

lemma helper_write_all: "\<forall>n. he_broken e n = None \<Longrightarrow>
    helper_write e out rs = (None, out @ concat (map (\<lambda>r. write_frame (he_print e r)) rs))"
  by (induction rs arbitrary: out) (simp_all add: Let_def)

lemma request_input_exec [simp]:
  "request_input c (json_sort (exec_request token command args (get_str operation ''input_b64''))) =
     request_input c operation"
  by (simp add: request_input_def)

text \<open>What the helper answers to one request that it runs.\<close>

lemma helper_serves_exec:
  assumes "json_prints_back e" "\<forall>n. he_broken e n = None" "allowlist_permits al command args"
    and "length (he_print e (exec_request token command args (get_str operation ''input_b64''))) \<le> helper_max_frame"
  shows "helper_loop e token al None []
      (write_frame (he_print e (exec_request token command args (get_str operation ''input_b64'')))) =
    (Ok (), concat (map (\<lambda>r. write_frame (he_print e r)) (child_replies (he_crypto e) ''exec-1''
       (he_run e (command, args, request_input (he_crypto e) operation)))),
     [(command, args, request_input (he_crypto e) operation)])"
proof -
  let ?req = "exec_request token command args (get_str operation ''input_b64'')"
  have eof: "helper_loop e token al None out [] = (Ok (), out, [])" for out
    by (subst helper_loop.simps) (simp add: helper_read_frame_def)
  have parsed: "he_from_slice e (he_print e ?req) = Ok (json_sort ?req)"
    using assms(1) exec_request_exact unfolding json_prints_back_def by blast
  have pr: "process_request e (json_sort ?req) token al True =
      (child_replies (he_crypto e) ''exec-1'' (he_run e (command, args, request_input (he_crypto e) operation)),
       [(command, args, request_input (he_crypto e) operation)])"
    using assms(3) by (simp add: process_request_def Let_def)
  show ?thesis
    using helper_frames_ok(1) [OF assms(4), of None "[]"]
    by (subst helper_loop.simps) (simp add: parsed pr helper_write_all [OF assms(2)] eof)
qed

lemma spawned_helper_output:
  assumes "json_prints_back e" "\<forall>n. he_broken e n = None" "allowlist_permits al command args" "token \<noteq> []"
    and "length (he_print e (exec_request token command args (get_str operation ''input_b64''))) \<le> helper_max_frame"
    and "allowlist_load (hh_toml host) (hh_read host path) = Ok al" "path \<noteq> ''--elevated''"
  shows "spawn_helper e host [prog, ''--allowlist'', path] token
      (write_frame (he_print e (exec_request token command args (get_str operation ''input_b64'')))) =
    HelperOut (concat (map (\<lambda>r. write_frame (he_print e r)) (child_replies (he_crypto e) ''exec-1''
       (he_run e (command, args, request_input (he_crypto e) operation))))) None"
  using helper_serves_exec [OF assms(1,2,3,5)] assms(4,6,7)
  by (simp add: spawn_helper_def helper_main_def)

lemma collect_out:
  assumes "json_prints_back e" "b64u_reads_back (he_crypto e)" "stream \<in> {''stdout'', ''stderr''}"
    and "v = stamp_id i (JObj [(''type'', JStr ''out''), (''stream'', JStr stream),
      (''data_b64'', JStr (encode_signature (he_crypto e) data))])"
    and "length (he_print e v) \<le> helper_max_frame"
  shows "collect_replies e (Suc n) fail (write_frame (he_print e v) @ rest) b =
    collect_replies e n fail rest (push_chunk stream data b)"
proof -
  have "json_exact v" using assms(4) by (simp add: stamp_id_def)
  then have "he_from_slice e (he_print e v) = Ok (json_sort v)"
    using assms(1) unfolding json_prints_back_def by blast
  moreover have "decode_signature (he_crypto e) (encode_signature (he_crypto e) data) = Some data"
    using assms(2) by (simp add: decode_signature_def encode_signature_def b64u_reads_back_def)
  moreover have "get_str v ''status'' = None" "get_str v ''type'' = Some ''out''" "get_str v ''stream'' = Some stream"
    "get_str v ''data_b64'' = Some (encode_signature (he_crypto e) data)"
    using assms(4) by (simp_all add: stamp_id_def get_str_def)
  ultimately show ?thesis
    using assms(3) helper_frames_ok(2) [OF assms(5), of fail rest] by (auto simp: out_chunk_def)
qed

lemma collect_exit:
  assumes "json_prints_back e" "- (2 ^ 31) \<le> k" "k < 2 ^ 31"
    and "v = stamp_id i (JObj [(''type'', JStr ''exit''), (''exit_code'', JInt k)])"
    and "length (he_print e v) \<le> helper_max_frame"
  shows "collect_replies e (Suc n) fail (write_frame (he_print e v) @ rest) b =
    b\<lparr>ob_exit_code := Some k, ob_closed := True\<rparr>"
proof -
  have "json_exact v" using assms(2-4) by (auto simp: stamp_id_def)
  then have "he_from_slice e (he_print e v) = Ok (json_sort v)"
    using assms(1) unfolding json_prints_back_def by blast
  moreover have "get_str v ''status'' = None" "get_str v ''type'' = Some ''exit''" "exit_code_of (json_sort v) = Some k"
    using assms(2-4) by (simp_all add: stamp_id_def get_str_def exit_code_of_def json_get_sort)
  ultimately show ?thesis
    using helper_frames_ok(2) [OF assms(5), of fail rest] by (simp add: out_chunk_def)
qed

definition output_chunks :: "child_output \<Rightarrow> output_chunk list" where
  "output_chunks r =
     (if co_stdout r = [] then [] else [\<lparr>oc_stream = ''stdout'', oc_data = co_stdout r\<rparr>]) @
     (if co_stderr r = [] then [] else [\<lparr>oc_stream = ''stderr'', oc_data = co_stderr r\<rparr>])"

lemma collect_child:
  assumes "json_prints_back e" "b64u_reads_back (he_crypto e)"
    and "co_code r = Some k" "- (2 ^ 31) \<le> k" "k < 2 ^ 31" "3 \<le> n"
    and "\<forall>v \<in> set (child_replies (he_crypto e) i (Finished r)). length (he_print e v) \<le> helper_max_frame"
  shows "collect_replies e n fail (concat (map (\<lambda>r. write_frame (he_print e r))
      (child_replies (he_crypto e) i (Finished r)))) empty_batch =
    \<lparr>ob_chunks = output_chunks r, ob_closed = True, ob_exit_code = Some k\<rparr>"
proof -
  obtain m where n: "n = Suc (Suc (Suc m))" using assms(6) le_Suc_ex [of 3 n] by auto
  let ?exit = "stamp_id i (JObj [(''type'', JStr ''exit''), (''exit_code'', JInt k)])"
  have exit: "collect_replies e (Suc m') fail (write_frame (he_print e ?exit)) b' =
      b'\<lparr>ob_exit_code := Some k, ob_closed := True\<rparr>" if "length (he_print e ?exit) \<le> helper_max_frame" for m' b'
    using collect_exit [OF assms(1,4,5) refl that, of m' fail "[]"] by (simp del: collect_replies.simps)
  note out = collect_out [OF assms(1,2) _ refl, where stream = "''stdout''"] collect_out [OF assms(1,2) _ refl, where stream = "''stderr''"]
  show ?thesis
    using assms(3,7) unfolding n
    by (cases "co_stdout r = []"; cases "co_stderr r = []")
      (simp_all add: child_replies_def output_chunks_def out exit push_chunk_def empty_batch_def del: collect_replies.simps)
qed

lemma priv_connect_helper:
  assumes "json_prints_back e" "\<forall>n. he_broken e n = None" "priv_token (he_crypto e) raw \<noteq> []"
    and "pb_helper_argv b = [prog]" "pb_allowlist_path b \<noteq> ''--elevated''"
    and "allowlist_load (hh_toml host) (hh_read host (pb_allowlist_path b)) = Ok al"
    and "get_str operation ''command'' = Some command"
    and "allowlist_permits al command (string_args operation ''args'')"
    and "length (he_print e (exec_request (priv_token (he_crypto e) raw) command (string_args operation ''args'')
      (get_str operation ''input_b64''))) \<le> helper_max_frame"
  shows "priv_connect e b (spawn_helper e host) raw n operation =
    Some (Ok (collect_replies e n None (concat (map (\<lambda>r. write_frame (he_print e r))
      (child_replies (he_crypto e) ''exec-1'' (he_run e (command, string_args operation ''args'',
        request_input (he_crypto e) operation))))) empty_batch))"
  using spawned_helper_output [OF assms(1,2,8,3,9,6,5), of prog] assms(4,7,9)
  by (simp add: priv_connect_def write_frame_async_def)


text \<open>
  A command whose first output does not fit one frame has run, yet the session reports
  neither output nor exit status and stays open: the gateway stops reading at the frame it
  refuses.
\<close>

theorem large_output_is_lost:
  assumes "json_prints_back e" "\<forall>n. he_broken e n = None"
    and "priv_token (he_crypto e) raw \<noteq> []"
    and "pb_helper_argv b = [prog]" "pb_allowlist_path b \<noteq> ''--elevated''"
    and "allowlist_load (hh_toml host) (hh_read host (pb_allowlist_path b)) = Ok al"
    and "get_str operation ''command'' = Some command"
    and "allowlist_permits al command (string_args operation ''args'')"
    and "length (he_print e (exec_request (priv_token (he_crypto e) raw) command (string_args operation ''args'')
      (get_str operation ''input_b64''))) \<le> helper_max_frame"
    and "child_replies (he_crypto e) ''exec-1'' (he_run e (command, string_args operation ''args'',
      request_input (he_crypto e) operation)) = v # vs"
    and "helper_max_frame < length (he_print e v)" "length (he_print e v) < 2 ^ 64"
  shows "priv_connect e b (spawn_helper e host) raw n operation = Some (Ok empty_batch)"
proof -
  have "collect_replies e n None (write_frame (he_print e v) @ rest) empty_batch = empty_batch" for rest
    using read_frame_async_too_large [OF assms(11,12), of None rest] by (cases n) simp_all
  then show ?thesis using priv_connect_helper [OF assms(1-9), of n] assms(10) by simp
qed

section \<open>A concrete helper\<close>

text \<open>A printer that gives the values of a table short texts, and a reader that inverts it.\<close>

definition table_print :: "(json \<times> bytes) list \<Rightarrow> json \<Rightarrow> bytes" where
  "table_print tbl v = (case map_of tbl (json_sort v) of
     Some s \<Rightarrow> s | None \<Rightarrow> CHR ''z'' # dec_of_nat (to_nat (json_sort v)))"

definition table_read :: "(json \<times> bytes) list \<Rightarrow> bytes \<Rightarrow> (string, json) result" where
  "table_read tbl s = (case map_of (map prod.swap tbl) s of
     Some v \<Rightarrow> Ok v | None \<Rightarrow> Ok (from_nat (the (parse_digits 0 (List.tl s)))))"

lemma table_reads_back:
  assumes "distinct (map snd tbl)" "list_all (\<lambda>x. hd (snd x) \<noteq> CHR ''z'') tbl"
  shows "table_read tbl (table_print tbl v) = Ok (json_sort v)"
proof (cases "map_of tbl (json_sort v)")
  case None
  have "map_of (map prod.swap tbl) (CHR ''z'' # s) = None" for s
    using assms(2) by (auto simp: map_of_eq_None_iff list_all_iff)
  with None show ?thesis by (simp add: table_print_def table_read_def)
next
  case (Some s)
  then have "(s, json_sort v) \<in> set (map prod.swap tbl)" by (auto dest: map_of_SomeD)
  then have "map_of (map prod.swap tbl) s = Some (json_sort v)"
    using assms(1) by (intro map_of_is_SomeI) (simp_all add: comp_def)
  with Some show ?thesis by (simp add: table_print_def table_read_def)
qed

definition plain_crypto :: crypto where
  "plain_crypto = sample_crypto\<lparr>b64u_encode := (\<lambda>x. x), b64u_decode := Some\<rparr>"

definition sample_child :: child_output where
  "sample_child = \<lparr>co_stdout = ''ok'', co_stderr = [], co_code = Some 0\<rparr>"

definition sample_op :: json where
  "sample_op = JObj [(''command'', JStr ''/bin/ls''), (''args'', JArr [JStr ''-l'', JStr ''/tmp''])]"

definition sample_exec :: json where
  "sample_exec = exec_request ''t'' ''/bin/ls'' [''-l'', ''/tmp''] None"

definition sample_out :: json where
  "sample_out = stamp_id ''exec-1'' (JObj [(''type'', JStr ''out''), (''stream'', JStr ''stdout''), (''data_b64'', JStr ''ok'')])"

definition sample_exit :: json where
  "sample_exit = stamp_id ''exec-1'' (JObj [(''type'', JStr ''exit''), (''exit_code'', JInt 0)])"

definition sample_helper :: "bytes \<Rightarrow> helper_env" where
  "sample_helper w = (let tbl = [(json_sort sample_exec, ''q''), (json_sort sample_out, w), (json_sort sample_exit, ''x'')] in
     \<lparr>he_crypto = plain_crypto, he_from_slice = table_read tbl, he_print = table_print tbl,
      he_run = (\<lambda>_. Finished sample_child), he_broken = (\<lambda>_. None)\<rparr>)"

definition sample_host :: helper_host where
  "sample_host = \<lparr>hh_args = [], hh_token = None, hh_stat = (\<lambda>_. Err []), hh_read = (\<lambda>_. Ok []),
     hh_toml = (\<lambda>_. Ok [\<lparr>al_command = ''/bin/ls'', al_args = [''-l'']\<rparr>]), hh_stdin = [], hh_stdin_fail = None\<rparr>"

definition sample_backend :: priv_backend where
  "sample_backend = \<lparr>pb_helper_argv = [''chaperone-helper''], pb_allowlist_path = ''/etc/allow''\<rparr>"

lemma sample_helper_laws:
  assumes "w \<noteq> ''q''" "w \<noteq> ''x''" "hd w \<noteq> CHR ''z''"
  shows "json_prints_back (sample_helper w)" "b64u_reads_back (he_crypto (sample_helper w))"
    "he_broken (sample_helper w) n = None"
  using assms table_reads_back [of "[(json_sort sample_exec, ''q''), (json_sort sample_out, w), (json_sort sample_exit, ''x'')]"]
  by (auto simp: json_prints_back_def sample_helper_def b64u_reads_back_def plain_crypto_def Let_def)

lemma sample_values_differ:
  "json_sort sample_out \<noteq> json_sort sample_exec" "json_sort sample_exit \<noteq> json_sort sample_exec"
  "json_sort sample_exit \<noteq> json_sort sample_out"
  by (auto simp: sample_out_def sample_exec_def sample_exit_def exec_request_def stamp_id_def get_str_def
      dest!: arg_cong [of _ _ "\<lambda>v. get_str v ''type''"] simp: json_get_sort simp del: json_sort.simps)

lemma sample_helper_run [simp]:
  "he_crypto (sample_helper w) = plain_crypto" "he_run (sample_helper w) ch = Finished sample_child"
  "he_print (sample_helper w) sample_exec = ''q''" "he_print (sample_helper w) sample_out = w"
  "he_print (sample_helper w) sample_exit = ''x''"
  using sample_values_differ by (auto simp: sample_helper_def Let_def table_print_def)

lemma sample_values [simp]:
  "get_str sample_op ''command'' = Some ''/bin/ls''" "string_args sample_op ''args'' = [''-l'', ''/tmp'']"
  "get_str sample_op ''input_b64'' = None" "priv_token plain_crypto ''t'' = ''t''"
  "exec_request ''t'' ''/bin/ls'' [''-l'', ''/tmp''] None = sample_exec"
  "child_replies plain_crypto ''exec-1'' (Finished sample_child) = [sample_out, sample_exit]"
  "output_chunks sample_child = [\<lparr>oc_stream = ''stdout'', oc_data = ''ok''\<rparr>]" "co_code sample_child = Some 0"
  "pb_helper_argv sample_backend = [''chaperone-helper'']" "pb_allowlist_path sample_backend = ''/etc/allow''"
  "allowlist_load (hh_toml sample_host) (hh_read sample_host p) = Ok [\<lparr>al_command = ''/bin/ls'', al_args = [''-l'']\<rparr>]"
  "allowlist_permits [\<lparr>al_command = ''/bin/ls'', al_args = [''-l'']\<rparr>] ''/bin/ls'' [''-l'', ''/tmp'']"
  by (simp_all add: sample_op_def get_str_def string_args_def List.map_filter_simps priv_token_def plain_crypto_def
      encode_signature_def sample_exec_def child_replies_def sample_child_def sample_out_def sample_exit_def
      output_chunks_def sample_backend_def sample_host_def allowlist_load_def allowlist_permits_def)


theorem large_output_is_lost_witness:
  "priv_connect (sample_helper (replicate 2000000 CHR ''o'')) sample_backend
     (spawn_helper (sample_helper (replicate 2000000 CHR ''o'')) sample_host) ''t'' 3 sample_op = Some (Ok empty_batch)"
proof -
  let ?w = "replicate 2000000 CHR ''o''"
  have w: "length ?w = 2000000" by (rule length_replicate)
  have "?w \<noteq> ''q''" "?w \<noteq> ''x''" "hd ?w \<noteq> CHR ''z''"
    using w by (auto dest: arg_cong [of _ _ length])
  note laws = sample_helper_laws [OF this]
  show ?thesis
    using large_output_is_lost [of "sample_helper ?w" "''t''" sample_backend "''chaperone-helper''" sample_host
        _ sample_op "''/bin/ls''" sample_out "[sample_exit]" 3] laws w
    by (simp add: helper_max_frame_def)
qed

theorem helper_runs_only_pinned_witness:
  "\<exists>path al entry uid mode.
    allowlist_arg (remove1 ''--elevated'' [''--allowlist'', ''/etc/allow'']) = Some path \<and>
    allowlist_load (hh_toml sample_host) (hh_read sample_host path) = Ok al \<and>
    entry \<in> set al \<and> al_command entry = ''/bin/ls'' \<and> prefix (al_args entry) [''-l'', ''/tmp''] \<and>
    Some ''t'' \<notin> {None, Some []} \<and>
    (''--elevated'' \<notin> set [''--allowlist'', ''/etc/allow''] \<or>
       hh_stat sample_host path = Ok (uid, mode) \<and> uid = 0 \<and> mode AND 18 = 0)"
proof -
  let ?e = "sample_helper ''o''"
  let ?h = "sample_host\<lparr>hh_args := [''--allowlist'', ''/etc/allow''], hh_token := Some ''t'',
    hh_stdin := write_frame (he_print ?e sample_exec)\<rparr>"
  have "helper_main ?e ?h = helper_loop ?e ''t'' [\<lparr>al_command = ''/bin/ls'', al_args = [''-l'']\<rparr>] None []
      (write_frame (he_print ?e sample_exec))"
    by (simp add: helper_main_def sample_host_def allowlist_load_def)
  then have "snd (snd (helper_main ?e ?h)) = [(''/bin/ls'', [''-l'', ''/tmp''], None)]"
    using helper_serves_exec [of ?e "[\<lparr>al_command = ''/bin/ls'', al_args = [''-l'']\<rparr>]" "''/bin/ls''" "[''-l'', ''/tmp'']"
        "''t''" sample_op] sample_helper_laws [of "''o''"]
    by (simp add: helper_max_frame_def request_input_def)
  then show ?thesis using helper_runs_only_pinned [of "''/bin/ls''" "[''-l'', ''/tmp'']" None ?e ?h] by simp
qed

end
