(* ===== verification/Ordered_Map.thy ===== *)
theory Ordered_Map
  imports Prelude "HOL-Library.Char_ord" "HOL-Library.List_Lexorder"
begin

text \<open>
  Ordered maps (\<^verbatim>\<open>BTreeMap\<close> with string keys) as association lists in key order, and the
  interface that the stores of the gateway share: looking up after a write and after a
  deletion. \<open>key_value\<close> proves once that the last write of a key wins.
\<close>

section \<open>Ordered maps\<close>

fun bt_insert :: "'k::linorder \<Rightarrow> 'v \<Rightarrow> ('k \<times> 'v) list \<Rightarrow> ('k \<times> 'v) list" where
  "bt_insert k v [] = [(k, v)]"
| "bt_insert k v (kv # m) =
     (if k < fst kv then (k, v) # kv # m
      else if k = fst kv then (k, v) # m
      else kv # bt_insert k v m)"

definition bt_remove :: "'k \<Rightarrow> ('k \<times> 'v) list \<Rightarrow> ('k \<times> 'v) list" where
  "bt_remove k m = filter (\<lambda>kv. fst kv \<noteq> k) m"

definition bt_keys :: "('k \<times> 'v) list \<Rightarrow> 'k list" where
  "bt_keys m = map fst m"

definition bt_ok :: "('k::linorder \<times> 'v) list \<Rightarrow> bool" where
  "bt_ok m \<longleftrightarrow> sorted_wrt (<) (map fst m)"

lemma bt_ok_Nil [simp]: "bt_ok []"
  by (simp add: bt_ok_def)

lemma keys_bt_insert: "fst ` set (bt_insert k v m) = insert k (fst ` set m)"
  by (induction m) auto

lemma bt_ok_insert [simp, inv_intros]: "bt_ok m \<Longrightarrow> bt_ok (bt_insert k v m)"
proof (induction m)
  case (Cons kv m)
  then have "bt_ok (bt_insert k v m)" by (simp add: bt_ok_def)
  with Cons.prems show ?case
    using keys_bt_insert [of k v m] by (auto simp: bt_ok_def image_iff)
qed (simp add: bt_ok_def)

lemma map_of_bt_insert [simp]: "bt_ok m \<Longrightarrow> map_of (bt_insert k v m) = (map_of m)(k \<mapsto> v)"
proof (induction m)
  case (Cons kv m)
  then have "bt_ok m" by (simp add: bt_ok_def)
  moreover have "k < fst kv \<Longrightarrow> k \<notin> fst ` set m" using Cons.prems by (force simp: bt_ok_def)
  ultimately show ?case using Cons.IH by (auto simp: fun_eq_iff)
qed simp

lemma map_of_bt_remove [simp]: "map_of (bt_remove k m) = (map_of m)(k := None)"
  by (induction m) (auto simp: bt_remove_def fun_eq_iff)

lemma bt_ok_remove [simp, inv_intros]: "bt_ok m \<Longrightarrow> bt_ok (bt_remove k m)"
  by (induction m) (auto simp: bt_ok_def bt_remove_def)

lemma set_bt_keys: "set (bt_keys m) = dom (map_of m)"
  by (simp add: bt_keys_def dom_map_of_conv_image_fst)

lemma sorted_bt_keys: "bt_ok m \<Longrightarrow> sorted_wrt (<) (bt_keys m)"
  by (simp add: bt_ok_def bt_keys_def)

section \<open>Stores as an interface\<close>

datatype ('k, 'v) kv_write = Put 'k 'v | Del 'k

text \<open>What a key holds after a sequence of writes that started with \<open>v\<close>.\<close>

fun last_write :: "'k \<Rightarrow> 'v option \<Rightarrow> ('k, 'v) kv_write list \<Rightarrow> 'v option" where
  "last_write k v [] = v"
| "last_write k v (Put k' x # ws) = last_write k (if k' = k then Some x else v) ws"
| "last_write k v (Del k' # ws) = last_write k (if k' = k then None else v) ws"

locale key_value =
  fixes get :: "'s \<Rightarrow> 'k \<Rightarrow> 'v option"
    and write_to :: "'s \<Rightarrow> ('k, 'v) kv_write \<Rightarrow> 's"
    and ok :: "'s \<Rightarrow> bool"
  assumes get_put: "ok s \<Longrightarrow> get (write_to s (Put k v)) k' = (if k' = k then Some v else get s k')"
    and get_del: "ok s \<Longrightarrow> get (write_to s (Del k)) k' = (if k' = k then None else get s k')"
    and ok_write: "ok s \<Longrightarrow> ok (write_to s w)"
begin

lemma ok_writes: "ok s \<Longrightarrow> ok (foldl write_to s ws)"
  by (induction ws arbitrary: s) (simp_all add: ok_write)

lemma get_writes: "ok s \<Longrightarrow> get (foldl write_to s ws) k = last_write k (get s k) ws"
proof (induction ws arbitrary: s)
  case (Cons w ws)
  then show ?case
    by (cases w) (simp_all add: ok_write get_put get_del)
qed simp

end

text \<open>The ordered map itself is such a store.\<close>

fun bt_write :: "('k::linorder \<times> 'v) list \<Rightarrow> ('k, 'v) kv_write \<Rightarrow> ('k \<times> 'v) list" where
  "bt_write m (Put k v) = bt_insert k v m"
| "bt_write m (Del k) = bt_remove k m"

lemma bt_ok_write: "bt_ok m \<Longrightarrow> bt_ok (bt_write m w)"
  by (cases w) simp_all

interpretation ordered: key_value map_of bt_write bt_ok
  by unfold_locales (simp_all add: bt_ok_write)

end
