(* ===== verification/Vault.thy ===== *)
theory Vault
  imports Ordered_Map "HOL-Library.Countable"
begin

text \<open>
  The encrypted local vault (\<^verbatim>\<open>crates/vault/src/local.rs\<close>) with its passphrase sealer
  (\<^verbatim>\<open>sealer.rs\<close>), in the build without the optional keyring feature. AES-256-GCM, argon2id,
  base64url and the JSON of header and body are parameters; random bytes and the outcome of
  writing the file are arguments. The content of the vault file is part of the state. Error
  texts are abbreviated, except where the code inspects them.
\<close>

section \<open>Parameters\<close>

record kdf_params =
  kdf_salt_b64 :: string
  kdf_m_cost_kib :: nat
  kdf_t_cost :: nat
  kdf_p_cost :: nat

record vault_header =
  vh_version :: nat
  vh_sealer_name :: string
  vh_kdf :: kdf_params
  vh_sealed_dek_b64 :: string
  vh_body_nonce_b64 :: string
  vh_body_b64 :: string

type_synonym vault_entries = "(string \<times> string) list"

record vault_env =
  ve_encrypt :: "bytes \<Rightarrow> bytes \<Rightarrow> bytes \<Rightarrow> bytes option"
  ve_decrypt :: "bytes \<Rightarrow> bytes \<Rightarrow> bytes \<Rightarrow> bytes option"
  ve_argon2 :: "nat \<Rightarrow> nat \<Rightarrow> nat \<Rightarrow> bytes \<Rightarrow> string \<Rightarrow> (string, bytes) result"
  ve_b64 :: "bytes \<Rightarrow> string"
  ve_unb64 :: "string \<Rightarrow> (string, bytes) result"
  ve_header_write :: "vault_header \<Rightarrow> bytes"
  ve_header_read :: "bytes \<Rightarrow> vault_header option"
  ve_body_write :: "vault_entries \<Rightarrow> bytes"
  ve_body_read :: "bytes \<Rightarrow> vault_entries option"

text \<open>
  What the vault relies on: authenticated decryption inverts encryption and a ciphertext
  carries a tag of 16 bytes, argon2id gives 32 bytes for the recommended parameters, and the
  encodings read back what was written.
\<close>

definition vault_laws :: "vault_env \<Rightarrow> bool" where
  "vault_laws e \<longleftrightarrow>
     (\<forall>k n p. \<exists>ct. ve_encrypt e k n p = Some ct \<and> ve_decrypt e k n ct = Some p \<and> length ct = length p + 16) \<and>
     (\<forall>salt pass. \<exists>kek. ve_argon2 e 65536 3 1 salt pass = Ok kek \<and> length kek = 32) \<and>
     (\<forall>x. ve_unb64 e (ve_b64 e x) = Ok x) \<and>
     (\<forall>h. ve_header_read e (ve_header_write e h) = Some h) \<and>
     (\<forall>m. bt_ok m \<longrightarrow> ve_body_read e (ve_body_write e m) = Some m)"

section \<open>Sealing the data key\<close>

datatype sealer_error = Keyring string | Crypto string

definition argon_m_cost_kib :: nat where "argon_m_cost_kib = 65536"
definition argon_t_cost :: nat where "argon_t_cost = 3"
definition argon_p_cost :: nat where "argon_p_cost = 1"
definition nonce_len :: nat where "nonce_len = 12"

definition sealer_new :: "vault_env \<Rightarrow> bytes \<Rightarrow> kdf_params" where
  "sealer_new e salt = \<lparr>kdf_salt_b64 = ve_b64 e salt, kdf_m_cost_kib = argon_m_cost_kib,
     kdf_t_cost = argon_t_cost, kdf_p_cost = argon_p_cost\<rparr>"

definition derive_kek :: "vault_env \<Rightarrow> kdf_params \<Rightarrow> string \<Rightarrow> (sealer_error, bytes) result" where
  "derive_kek e ps passphrase =
     (case ve_unb64 e (kdf_salt_b64 ps) of
        Inl m \<Rightarrow> Err (Crypto (''base64: '' @ m))
      | Inr salt \<Rightarrow>
          (case ve_argon2 e (kdf_m_cost_kib ps) (kdf_t_cost ps) (kdf_p_cost ps) salt passphrase of
             Inl m \<Rightarrow> Err (Crypto (''argon2id: '' @ m))
           | Inr kek \<Rightarrow> Ok kek))"

definition sealer_wrap :: "vault_env \<Rightarrow> bytes \<Rightarrow> bytes \<Rightarrow> bytes \<Rightarrow> (sealer_error, bytes) result" where
  "sealer_wrap e kek nonce plaintext = ok_or (Crypto ''encrypt failed'') (ve_encrypt e kek nonce plaintext)"

definition sealer_unwrap :: "vault_env \<Rightarrow> bytes \<Rightarrow> bytes \<Rightarrow> bytes \<Rightarrow> (sealer_error, bytes) result" where
  "sealer_unwrap e kek nonce sealed = ok_or (Crypto ''authentication failed'') (ve_decrypt e kek nonce sealed)"

definition sealer_seal ::
    "vault_env \<Rightarrow> kdf_params \<Rightarrow> string \<Rightarrow> bytes \<Rightarrow> bytes \<Rightarrow> (sealer_error, bytes) result" where
  "sealer_seal e ps passphrase nonce dek =
     (case derive_kek e ps passphrase of
        Inl er \<Rightarrow> Err er
      | Inr kek \<Rightarrow> (case sealer_wrap e kek nonce dek of Inl er \<Rightarrow> Err er | Inr ct \<Rightarrow> Ok (nonce @ ct)))"

definition sealer_unseal ::
    "vault_env \<Rightarrow> kdf_params \<Rightarrow> string \<Rightarrow> bytes \<Rightarrow> (sealer_error, bytes) result" where
  "sealer_unseal e ps passphrase sealed =
     (if length sealed \<le> nonce_len then Err (Crypto ''sealed DEK too short'')
      else (case derive_kek e ps passphrase of
        Inl er \<Rightarrow> Err er
      | Inr kek \<Rightarrow>
          (case sealer_unwrap e kek (take nonce_len sealed) (drop nonce_len sealed) of
             Inl er \<Rightarrow> Err er
           | Inr plain \<Rightarrow> if length plain = 32 then Ok plain else Err (Crypto ''DEK is not 32 bytes''))))"

section \<open>The local vault\<close>

datatype vault_error =
    VaultIo
  | VaultCorrupt string
  | WrongPassphrase
  | VaultSeal sealer_error
  | VaultAlreadyExists

record local_vault =
  lv_sealer_name :: string
  lv_sealed_dek :: bytes
  lv_kdf :: kdf_params
  lv_dek :: bytes
  lv_body_nonce :: bytes
  lv_body_ciphertext :: bytes
  lv_file :: bytes

definition vault_magic :: bytes where "vault_magic = ''CHAPVAULT1''"

definition vault_b64 :: "vault_env \<Rightarrow> bytes \<Rightarrow> string" where
  "vault_b64 e data = ve_b64 e data"

definition vault_unb64 :: "vault_env \<Rightarrow> string \<Rightarrow> (vault_error, bytes) result" where
  "vault_unb64 e s = (case ve_unb64 e s of Inl m \<Rightarrow> Err (VaultCorrupt (''base64: '' @ m)) | Inr x \<Rightarrow> Ok x)"

definition encrypt_body :: "vault_env \<Rightarrow> bytes \<Rightarrow> bytes \<Rightarrow> vault_entries \<Rightarrow> (vault_error, bytes) result" where
  "encrypt_body e dek nonce body =
     ok_or (VaultCorrupt ''body encryption failed'') (ve_encrypt e dek nonce (ve_body_write e body))"

definition decrypt_body :: "vault_env \<Rightarrow> bytes \<Rightarrow> bytes \<Rightarrow> bytes \<Rightarrow> (vault_error, vault_entries) result" where
  "decrypt_body e dek nonce ct =
     (case ve_decrypt e dek nonce ct of
        None \<Rightarrow> Err (VaultCorrupt ''body authentication failed'')
      | Some plain \<Rightarrow> ok_or (VaultCorrupt ''body'') (ve_body_read e plain))"

definition header_of :: "vault_env \<Rightarrow> local_vault \<Rightarrow> vault_header" where
  "header_of e v = \<lparr>vh_version = 1, vh_sealer_name = lv_sealer_name v, vh_kdf = lv_kdf v,
     vh_sealed_dek_b64 = vault_b64 e (lv_sealed_dek v), vh_body_nonce_b64 = vault_b64 e (lv_body_nonce v),
     vh_body_b64 = vault_b64 e (lv_body_ciphertext v)\<rparr>"

text \<open>The file is replaced as a whole (temporary file and rename) or left as it is.\<close>

definition vault_persist :: "vault_env \<Rightarrow> bool \<Rightarrow> local_vault \<Rightarrow> (vault_error, unit) result \<times> local_vault" where
  "vault_persist e io v =
     (if io then (Ok (), v\<lparr>lv_file := vault_magic @ ve_header_write e (header_of e v)\<rparr>) else (Err VaultIo, v))"

definition vault_create ::
    "vault_env \<Rightarrow> bool \<Rightarrow> bool \<Rightarrow> string \<Rightarrow> string \<Rightarrow> bytes \<Rightarrow> bytes \<Rightarrow> bytes \<Rightarrow> bytes \<Rightarrow>
     (vault_error, local_vault) result" where
  "vault_create e present io sealer_choice passphrase salt dek seal_nonce body_nonce =
     (if present then Err VaultAlreadyExists
      else if sealer_choice \<noteq> ''passphrase'' then Err (VaultCorrupt ''unknown sealer'')
      else (case sealer_seal e (sealer_new e salt) passphrase seal_nonce dek of
        Inl er \<Rightarrow> Err (VaultSeal er)
      | Inr sealed \<Rightarrow>
          (case encrypt_body e dek body_nonce [] of
             Inl er \<Rightarrow> Err er
           | Inr body_ct \<Rightarrow>
               (case vault_persist e io
                       \<lparr>lv_sealer_name = ''passphrase'', lv_sealed_dek = sealed, lv_kdf = sealer_new e salt,
                        lv_dek = dek, lv_body_nonce = body_nonce, lv_body_ciphertext = body_ct, lv_file = []\<rparr> of
                  (Inl er, _) \<Rightarrow> Err er
                | (Inr _, v) \<Rightarrow> Ok v))))"

definition unseal_error :: "sealer_error \<Rightarrow> vault_error" where
  "unseal_error er =
     (case er of
        Crypto m \<Rightarrow> if contains_sub m ''authentication failed'' then WrongPassphrase else VaultSeal er
      | _ \<Rightarrow> VaultSeal er)"

definition read_header :: "vault_env \<Rightarrow> bytes option \<Rightarrow> (vault_error, vault_header) result" where
  "read_header e file =
     (case file of
        None \<Rightarrow> Err VaultIo
      | Some raw \<Rightarrow>
          if \<not> starts_with raw vault_magic then Err (VaultCorrupt ''not a chaperone vault file'')
          else ok_or (VaultCorrupt ''header'') (ve_header_read e (drop (length vault_magic) raw)))"

definition vault_open :: "vault_env \<Rightarrow> bytes option \<Rightarrow> string \<Rightarrow> (vault_error, local_vault) result" where
  "vault_open e file passphrase =
     bind_res (read_header e file) (\<lambda>h.
       if vh_version h \<noteq> 1 then Err (VaultCorrupt ''unknown vault version'')
       else bind_res (vault_unb64 e (vh_sealed_dek_b64 h)) (\<lambda>sealed.
         bind_res (vault_unb64 e (vh_body_nonce_b64 h)) (\<lambda>body_nonce.
           if length body_nonce \<noteq> nonce_len then Err (VaultCorrupt ''body nonce length'')
           else bind_res (vault_unb64 e (vh_body_b64 h)) (\<lambda>body_ct.
             if vh_sealer_name h \<noteq> ''passphrase'' then Err (VaultCorrupt ''this build cannot unseal it'')
             else (case sealer_unseal e (vh_kdf h) passphrase sealed of
               Inl er \<Rightarrow> Err (unseal_error er)
             | Inr dek \<Rightarrow>
                 (case decrypt_body e dek body_nonce body_ct of
                    Inl er \<Rightarrow> Err er
                  | Inr _ \<Rightarrow> Ok \<lparr>lv_sealer_name = vh_sealer_name h, lv_sealed_dek = sealed, lv_kdf = vh_kdf h,
                      lv_dek = dek, lv_body_nonce = body_nonce, lv_body_ciphertext = body_ct,
                      lv_file = the file\<rparr>))))))"

definition sealer_of :: "vault_env \<Rightarrow> bytes option \<Rightarrow> (vault_error, string) result" where
  "sealer_of e file = map_sum id vh_sealer_name (read_header e file)"

definition decrypt_entries :: "vault_env \<Rightarrow> local_vault \<Rightarrow> (vault_error, vault_entries) result" where
  "decrypt_entries e v = decrypt_body e (lv_dek v) (lv_body_nonce v) (lv_body_ciphertext v)"

text \<open>The nonce and the ciphertext in memory are replaced before the file is written.\<close>

definition rewrite ::
    "vault_env \<Rightarrow> bool \<Rightarrow> bytes \<Rightarrow> vault_entries \<Rightarrow> local_vault \<Rightarrow> (vault_error, unit) result \<times> local_vault" where
  "rewrite e io nonce body v =
     (let v1 = v\<lparr>lv_body_nonce := nonce\<rparr> in
      (case encrypt_body e (lv_dek v1) nonce body of
         Inl er \<Rightarrow> (Err er, v1)
       | Inr ct \<Rightarrow> vault_persist e io (v1\<lparr>lv_body_ciphertext := ct\<rparr>)))"

definition vault_set ::
    "vault_env \<Rightarrow> bool \<Rightarrow> bytes \<Rightarrow> string \<Rightarrow> string \<Rightarrow> local_vault \<Rightarrow> (vault_error, unit) result \<times> local_vault"
  where
  "vault_set e io nonce entry_path secret v =
     (case decrypt_entries e v of
        Inl er \<Rightarrow> (Err er, v)
      | Inr body \<Rightarrow> rewrite e io nonce (bt_insert entry_path secret body) v)"

definition vault_get :: "vault_env \<Rightarrow> local_vault \<Rightarrow> string \<Rightarrow> (vault_error, string option) result" where
  "vault_get e v entry_path = map_sum id (\<lambda>body. map_of body entry_path) (decrypt_entries e v)"

definition vault_delete ::
    "vault_env \<Rightarrow> bool \<Rightarrow> bytes \<Rightarrow> string \<Rightarrow> local_vault \<Rightarrow> (vault_error, bool) result \<times> local_vault" where
  "vault_delete e io nonce entry_path v =
     (case decrypt_entries e v of
        Inl er \<Rightarrow> (Err er, v)
      | Inr body \<Rightarrow>
          if map_of body entry_path = None then (Ok False, v)
          else (case rewrite e io nonce (bt_remove entry_path body) v of
                  (Inl er, v') \<Rightarrow> (Err er, v')
                | (Inr _, v') \<Rightarrow> (Ok True, v')))"

definition vault_list :: "vault_env \<Rightarrow> local_vault \<Rightarrow> (vault_error, string list) result" where
  "vault_list e v = map_sum id bt_keys (decrypt_entries e v)"

section \<open>Invariant\<close>

text \<open>
  An opened vault: the sealed key opens under the passphrase to the key in memory, the body
  decrypts to an ordered map, and the file holds exactly what is in memory.
\<close>

definition vault_ok :: "vault_env \<Rightarrow> string \<Rightarrow> local_vault \<Rightarrow> bool" where
  "vault_ok e passphrase v \<longleftrightarrow>
     vault_laws e \<and> lv_sealer_name v = ''passphrase'' \<and> length (lv_body_nonce v) = nonce_len \<and>
     sealer_unseal e (lv_kdf v) passphrase (lv_sealed_dek v) = Ok (lv_dek v) \<and>
     (\<exists>m. decrypt_entries e v = Ok m \<and> bt_ok m) \<and>
     lv_file v = vault_magic @ ve_header_write e (header_of e v)"

text \<open>The abstract content: a finite map from entry paths to secrets.\<close>

definition vault_content :: "vault_env \<Rightarrow> local_vault \<Rightarrow> string \<rightharpoonup> string" where
  "vault_content e v = (case decrypt_entries e v of Inr m \<Rightarrow> map_of m | Inl _ \<Rightarrow> Map.empty)"

lemma vault_lawsD:
  assumes "vault_laws e"
  shows "\<exists>ct. ve_encrypt e k n p = Some ct \<and> ve_decrypt e k n ct = Some p \<and> length ct = length p + 16"
    and "\<exists>kek. ve_argon2 e 65536 3 1 salt pass = Ok kek \<and> length kek = 32"
    and "ve_unb64 e (ve_b64 e x) = Ok x" and "ve_header_read e (ve_header_write e h) = Some h"
    and "bt_ok m \<Longrightarrow> ve_body_read e (ve_body_write e m) = Some m"
  using assms unfolding vault_laws_def by blast+

lemma rewrite_ok:
  assumes "vault_laws e" "bt_ok m"
  obtains ct where
    "rewrite e io nonce m v = vault_persist e io (v\<lparr>lv_body_nonce := nonce, lv_body_ciphertext := ct\<rparr>)"
    "decrypt_body e (lv_dek v) nonce ct = Ok m"
proof -
  obtain ct where ct: "ve_encrypt e (lv_dek v) nonce (ve_body_write e m) = Some ct"
      "ve_decrypt e (lv_dek v) nonce ct = Some (ve_body_write e m)"
    using vault_lawsD(1) [OF assms(1)] by blast
  show thesis
    by (rule that [of ct]) (simp_all add: rewrite_def encrypt_body_def decrypt_body_def ct
      vault_lawsD(5) [OF assms])
qed

lemma decrypt_entries_cong:
  "lv_dek v' = lv_dek v \<Longrightarrow> lv_body_nonce v' = n \<Longrightarrow> lv_body_ciphertext v' = ct \<Longrightarrow>
   decrypt_entries e v' = decrypt_body e (lv_dek v) n ct"
  by (simp add: decrypt_entries_def)

lemma rewrite_keeps:
  assumes "vault_ok e pass v" "bt_ok m" "length nonce = nonce_len"
  shows "fst (rewrite e True nonce m v) = Ok ()" "vault_ok e pass (snd (rewrite e True nonce m v))"
    "vault_content e (snd (rewrite e True nonce m v)) = map_of m"
proof -
  have laws: "vault_laws e" using assms(1) by (simp add: vault_ok_def)
  obtain ct where rw: "rewrite e True nonce m v =
      vault_persist e True (v\<lparr>lv_body_nonce := nonce, lv_body_ciphertext := ct\<rparr>)"
      and dec: "decrypt_body e (lv_dek v) nonce ct = Ok m"
    by (rule rewrite_ok [OF laws assms(2)])
  let ?v = "snd (rewrite e True nonce m v)"
  have "decrypt_entries e ?v = Ok m"
    using dec by (simp add: rw vault_persist_def decrypt_entries_def)
  then show "vault_content e ?v = map_of m" by (simp add: vault_content_def)
  show "fst (rewrite e True nonce m v) = Ok ()" by (simp add: rw vault_persist_def)
  show "vault_ok e pass ?v"
    using assms dec by (simp add: vault_ok_def rw vault_persist_def decrypt_entries_def header_of_def)
qed

lemma vault_ok_entries:
  assumes "vault_ok e pass v"
  obtains m where "decrypt_entries e v = Ok m" "bt_ok m" "vault_content e v = map_of m"
  using assms by (auto simp: vault_ok_def vault_content_def)

lemma vault_set_ok:
  assumes "vault_ok e pass v" "length nonce = nonce_len"
  shows "fst (vault_set e True nonce p s v) = Ok ()" "vault_ok e pass (snd (vault_set e True nonce p s v))"
    "vault_content e (snd (vault_set e True nonce p s v)) = (vault_content e v)(p \<mapsto> s)"
proof -
  obtain m where m: "decrypt_entries e v = Ok m" "bt_ok m" "vault_content e v = map_of m"
    using assms(1) by (rule vault_ok_entries)
  with rewrite_keeps [OF assms(1) bt_ok_insert [OF m(2)] assms(2)] show
    "fst (vault_set e True nonce p s v) = Ok ()" "vault_ok e pass (snd (vault_set e True nonce p s v))"
    "vault_content e (snd (vault_set e True nonce p s v)) = (vault_content e v)(p \<mapsto> s)"
    by (simp_all add: vault_set_def)
qed

lemma vault_delete_ok:
  assumes "vault_ok e pass v" "length nonce = nonce_len"
  shows "fst (vault_delete e True nonce p v) = Ok (vault_content e v p \<noteq> None)"
    "vault_ok e pass (snd (vault_delete e True nonce p v))"
    "vault_content e (snd (vault_delete e True nonce p v)) = (vault_content e v)(p := None)"
proof -
  obtain m where m: "decrypt_entries e v = Ok m" "bt_ok m" "vault_content e v = map_of m"
    using assms(1) by (rule vault_ok_entries)
  with rewrite_keeps [OF assms(1) bt_ok_remove [OF m(2)] assms(2), of p] assms(1) show
    "fst (vault_delete e True nonce p v) = Ok (vault_content e v p \<noteq> None)"
    "vault_ok e pass (snd (vault_delete e True nonce p v))"
    "vault_content e (snd (vault_delete e True nonce p v)) = (vault_content e v)(p := None)"
    by (auto simp: vault_delete_def fun_upd_idem_iff split: prod.split sum.split)
qed

lemma vault_get_ok: "vault_ok e pass v \<Longrightarrow> vault_get e v p = Ok (vault_content e v p)"
  by (auto simp: vault_get_def elim: vault_ok_entries)

lemma sealer_unseal_seal:
  assumes "vault_laws e" "length nonce = nonce_len" "length dek = 32"
  obtains sealed where "sealer_seal e (sealer_new e salt) pass nonce dek = Ok sealed"
    "sealer_unseal e (sealer_new e salt) pass sealed = Ok dek"
proof -
  obtain kek where kek: "ve_argon2 e 65536 3 1 salt pass = Ok kek"
    using vault_lawsD(2) [OF assms(1)] by blast
  then have dk: "derive_kek e (sealer_new e salt) pass = Ok kek"
    by (simp add: derive_kek_def sealer_new_def vault_lawsD(3) [OF assms(1)] argon_m_cost_kib_def
      argon_t_cost_def argon_p_cost_def)
  obtain ct where ct: "ve_encrypt e kek nonce dek = Some ct" "ve_decrypt e kek nonce ct = Some dek"
      "length ct = length dek + 16"
    using vault_lawsD(1) [OF assms(1)] by blast
  show thesis
    by (rule that [of "nonce @ ct"])
      (use assms ct dk in \<open>simp_all add: sealer_seal_def sealer_unseal_def sealer_wrap_def sealer_unwrap_def\<close>)
qed

lemma vault_create_ok:
  assumes "vault_laws e" "length seal_nonce = nonce_len" "length body_nonce = nonce_len" "length dek = 32"
  obtains v where "vault_create e False True ''passphrase'' pass salt dek seal_nonce body_nonce = Ok v"
    "vault_ok e pass v" "vault_content e v = Map.empty"
proof -
  obtain sealed where s: "sealer_seal e (sealer_new e salt) pass seal_nonce dek = Ok sealed"
      "sealer_unseal e (sealer_new e salt) pass sealed = Ok dek"
    by (rule sealer_unseal_seal [OF assms(1,2,4)])
  obtain ct where ct: "ve_encrypt e dek body_nonce (ve_body_write e []) = Some ct"
      "ve_decrypt e dek body_nonce ct = Some (ve_body_write e [])"
    using vault_lawsD(1) [OF assms(1)] by blast
  define v0 where "v0 = \<lparr>lv_sealer_name = ''passphrase'', lv_sealed_dek = sealed, lv_kdf = sealer_new e salt,
     lv_dek = dek, lv_body_nonce = body_nonce, lv_body_ciphertext = ct, lv_file = []\<rparr>"
  define v where "v = snd (vault_persist e True v0)"
  have "decrypt_entries e v = Ok []"
    using ct vault_lawsD(5) [OF assms(1), of "[]"]
    by (simp add: v_def v0_def vault_persist_def decrypt_entries_def decrypt_body_def)
  then show thesis
    using s ct assms
    by (intro that [of v])
      (simp_all add: v_def v0_def vault_persist_def vault_create_def encrypt_body_def vault_ok_def
        vault_content_def header_of_def)
qed

section \<open>Properties\<close>

text \<open>The writes of an operator, each with the nonce that \<open>rng\<close> draws and a successful file write.\<close>

fun vault_write :: "vault_env \<Rightarrow> (local_vault \<Rightarrow> bytes) \<Rightarrow> local_vault \<Rightarrow> (string, string) kv_write \<Rightarrow> local_vault"
  where
  "vault_write e rng v (Put p s) = snd (vault_set e True (rng v) p s v)"
| "vault_write e rng v (Del p) = snd (vault_delete e True (rng v) p v)"

interpretation vault_store: key_value "vault_content e" "vault_write e rng"
  "\<lambda>v. vault_ok e pass v \<and> (\<forall>x. length (rng x) = nonce_len)"
  for e pass rng
proof
  fix v :: local_vault and w :: "(string, string) kv_write" and k k' s
  assume ok: "vault_ok e pass v \<and> (\<forall>x. length (rng x) = nonce_len)"
  show "vault_content e (vault_write e rng v (Put k s)) k' = (if k' = k then Some s else vault_content e v k')"
    using ok vault_set_ok(3) [of e pass v "rng v"] by simp
  show "vault_content e (vault_write e rng v (Del k)) k' = (if k' = k then None else vault_content e v k')"
    using ok vault_delete_ok(3) [of e pass v "rng v"] by simp
  show "vault_ok e pass (vault_write e rng v w) \<and> (\<forall>x. length (rng x) = nonce_len)"
    using ok vault_set_ok(2) [of e pass v "rng v"] vault_delete_ok(2) [of e pass v "rng v"]
    by (cases w) simp_all
qed

lemma vault_open_ok:
  assumes "vault_ok e pass v"
  shows "vault_open e (Some (lv_file v)) pass = Ok v"
proof -
  have laws: "vault_laws e" and lvf: "lv_file v = vault_magic @ ve_header_write e (header_of e v)"
    using assms by (auto simp: vault_ok_def)
  have hdr: "read_header e (Some (lv_file v)) = Ok (header_of e v)"
    using vault_lawsD(4) [OF laws] by (simp add: read_header_def lvf)
  obtain m where "decrypt_body e (lv_dek v) (lv_body_nonce v) (lv_body_ciphertext v) = Ok m"
    using assms by (auto simp: vault_ok_def decrypt_entries_def)
  with assms vault_lawsD(3) [OF laws] show ?thesis
    unfolding vault_open_def hdr
    by (simp add: header_of_def vault_unb64_def vault_b64_def vault_ok_def)
qed


text \<open>
  A write that fails is not undone in memory: when the file cannot be written, \<^verbatim>\<open>set\<close>
  returns the I/O error, yet the running gateway resolves the new value from then on, while
  the file still opens to the old one.
\<close>

theorem failed_set_is_visible:
  assumes "vault_ok e pass v"
  shows "let (r, v') = vault_set e False nonce p s v
         in r = Err VaultIo \<and> vault_get e v' p = Ok (Some s) \<and> vault_open e (Some (lv_file v')) pass = Ok v"
proof -
  obtain m where m: "decrypt_entries e v = Ok m" "bt_ok m" using assms by (rule vault_ok_entries)
  have laws: "vault_laws e" using assms by (simp add: vault_ok_def)
  obtain ct where rw: "rewrite e False nonce (bt_insert p s m) v =
      vault_persist e False (v\<lparr>lv_body_nonce := nonce, lv_body_ciphertext := ct\<rparr>)"
      and dec: "decrypt_body e (lv_dek v) nonce ct = Ok (bt_insert p s m)"
    by (rule rewrite_ok [OF laws bt_ok_insert [OF m(2)]])
  show ?thesis
    using m dec vault_open_ok [OF assms]
    by (simp add: vault_set_def rw vault_persist_def vault_get_def decrypt_entries_def)
qed

section \<open>A concrete instance\<close>

text \<open>
  The tag is sixteen letters in front of the plaintext, and headers and bodies are written as
  that many letters. It meets the laws, so the theorems above are not vacuous.
\<close>

definition header_tuple :: "vault_header \<Rightarrow> nat \<times> string \<times> (string \<times> nat \<times> nat \<times> nat) \<times> string \<times> string \<times> string" where
  "header_tuple h = (vh_version h, vh_sealer_name h,
     (kdf_salt_b64 (vh_kdf h), kdf_m_cost_kib (vh_kdf h), kdf_t_cost (vh_kdf h), kdf_p_cost (vh_kdf h)),
     vh_sealed_dek_b64 h, vh_body_nonce_b64 h, vh_body_b64 h)"

definition tuple_header :: "nat \<times> string \<times> (string \<times> nat \<times> nat \<times> nat) \<times> string \<times> string \<times> string \<Rightarrow> vault_header" where
  "tuple_header x = (case x of (ver, name, (salt, m, t, p), a, b, c) \<Rightarrow>
     \<lparr>vh_version = ver, vh_sealer_name = name,
      vh_kdf = \<lparr>kdf_salt_b64 = salt, kdf_m_cost_kib = m, kdf_t_cost = t, kdf_p_cost = p\<rparr>,
      vh_sealed_dek_b64 = a, vh_body_nonce_b64 = b, vh_body_b64 = c\<rparr>)"

lemma tuple_header_tuple: "tuple_header (header_tuple h) = h"
  by (simp add: header_tuple_def tuple_header_def)

definition sample_vault_env :: vault_env where
  "sample_vault_env = \<lparr>
     ve_encrypt = (\<lambda>k n p. Some (replicate 16 CHR ''t'' @ p)),
     ve_decrypt = (\<lambda>k n ct. Some (drop 16 ct)),
     ve_argon2 = (\<lambda>m t p salt pass. Ok (replicate 32 CHR ''k'')),
     ve_b64 = (\<lambda>x. x),
     ve_unb64 = (\<lambda>x. Ok x),
     ve_header_write = (\<lambda>h. replicate (to_nat (header_tuple h)) CHR ''h''),
     ve_header_read = (\<lambda>s. Some (tuple_header (from_nat (length s)))),
     ve_body_write = (\<lambda>m. replicate (to_nat m) CHR ''b''),
     ve_body_read = (\<lambda>s. Some (from_nat (length s)))\<rparr>"

lemma sample_vault_laws: "vault_laws sample_vault_env"
  by (simp add: vault_laws_def sample_vault_env_def tuple_header_tuple)

definition sample_dek :: bytes where "sample_dek = replicate 32 CHR ''d''"
definition sample_nonce :: bytes where "sample_nonce = replicate 12 CHR ''n''"

lemma sample_vault:
  obtains v where "vault_create sample_vault_env False True ''passphrase'' ''pw'' ''salt'' sample_dek sample_nonce
      sample_nonce = Ok v" "vault_ok sample_vault_env ''pw'' v" "vault_content sample_vault_env v = Map.empty"
  by (rule vault_create_ok [OF sample_vault_laws, of sample_nonce sample_nonce sample_dek "''pw''" "''salt''"])
    (auto simp: sample_nonce_def sample_dek_def nonce_len_def)


theorem failed_set_is_visible_witness:
  "\<exists>v. vault_ok sample_vault_env ''pw'' v \<and>
     (let (r, v') = vault_set sample_vault_env False sample_nonce ''a'' ''1'' v
      in r = Err VaultIo \<and> vault_get sample_vault_env v' ''a'' = Ok (Some ''1'') \<and>
         vault_open sample_vault_env (Some (lv_file v')) ''pw'' = Ok v)"
proof -
  obtain v where v: "vault_ok sample_vault_env ''pw'' v" by (rule sample_vault)
  from failed_set_is_visible [OF v, of sample_nonce "''a''" "''1''"] v show ?thesis by blast
qed

end
