(* ===== verification/Credentials.thy ===== *)
theory Credentials
  imports Vault Json
begin

text \<open>
  Resolving credential references (\<^verbatim>\<open>crates/vault/src/provider.rs\<close>): the router, the shared
  local vault behind the \<^verbatim>\<open>local\<close> scheme (\<^verbatim>\<open>shared.rs\<close>) and the HashiCorp KV reader
  (\<^verbatim>\<open>hashicorp.rs\<close>), whose HTTP exchange is a parameter.
\<close>

section \<open>Providers and the router\<close>

datatype resolve_error =
    MalformedCredRef string
  | UnsupportedScheme string "string list"
  | EntryNotFound string
  | UnsetPlaceholder string
  | Backend string

text \<open>The text of an error; a malformed reference is not repeated in it.\<close>

fun resolve_error_text :: "resolve_error \<Rightarrow> string" where
  "resolve_error_text (MalformedCredRef _) = ''cred_ref must look like scheme://entry-path''"
| "resolve_error_text (UnsupportedScheme scheme supported) =
     ''no provider for scheme '' @ debug_str scheme @ '' (supported: '' @ join_with '', '' supported @ '')''"
| "resolve_error_text (EntryNotFound path) = ''credential '' @ debug_str path @ '' does not exist''"
| "resolve_error_text (UnsetPlaceholder path) =
     ''credential '' @ debug_str path @ '' is unset (placeholder); set a real value before use''"
| "resolve_error_text (Backend e) = ''vault backend: '' @ e"

type_synonym provider = "string \<Rightarrow> (resolve_error, string) result"

text \<open>The default of \<^verbatim>\<open>Provider::mint\<close>: static backends do not mint.\<close>

definition provider_mint :: "string \<Rightarrow> nat \<Rightarrow> (resolve_error, string) result" where
  "provider_mint entry ttl_secs = Err (Backend ''backend does not support short-lived minting'')"

type_synonym vault_router = "(string \<times> provider) list"

definition router_new :: vault_router where
  "router_new = []"

definition router_register :: "string \<Rightarrow> provider \<Rightarrow> vault_router \<Rightarrow> vault_router" where
  "router_register scheme prov r = bt_insert scheme prov r"

definition router_schemes :: "vault_router \<Rightarrow> string list" where
  "router_schemes r = bt_keys r"

definition router_dispatch :: "vault_router \<Rightarrow> string \<Rightarrow> (resolve_error, provider \<times> string) result" where
  "router_dispatch r cred_ref =
     (case split_once cred_ref ''://'' of
        None \<Rightarrow> Err (MalformedCredRef cred_ref)
      | Some (scheme, entry) \<Rightarrow>
          if scheme = [] \<or> entry = [] then Err (MalformedCredRef cred_ref)
          else (case map_of r scheme of
            None \<Rightarrow> Err (UnsupportedScheme scheme (router_schemes r))
          | Some prov \<Rightarrow> Ok (prov, entry)))"

definition router_resolve :: "vault_router \<Rightarrow> string \<Rightarrow> (resolve_error, string) result" where
  "router_resolve r cred_ref =
     (case router_dispatch r cred_ref of Inl e \<Rightarrow> Err e | Inr (prov, entry) \<Rightarrow> prov entry)"

section \<open>The local vault as a provider\<close>

text \<open>\<^verbatim>\<open>Display\<close> of a vault error.\<close>

fun sealer_error_text :: "sealer_error \<Rightarrow> string" where
  "sealer_error_text (Keyring e) = ''platform key store: '' @ e"
| "sealer_error_text (Crypto e) = ''crypto failure in sealer: '' @ e"

fun vault_error_text :: "vault_error \<Rightarrow> string" where
  "vault_error_text VaultIo = ''vault i/o''"
| "vault_error_text (VaultCorrupt e) = ''vault corrupt: '' @ e"
| "vault_error_text WrongPassphrase = ''passphrase does not open this vault''"
| "vault_error_text (VaultSeal e) = sealer_error_text e"
| "vault_error_text VaultAlreadyExists = ''a vault already exists''"

definition local_resolve :: "vault_env \<Rightarrow> local_vault \<Rightarrow> provider" where
  "local_resolve e v entry =
     (case vault_get e v entry of
        Inl er \<Rightarrow> Err (Backend (vault_error_text er))
      | Inr None \<Rightarrow> Err (EntryNotFound entry)
      | Inr (Some secret) \<Rightarrow> Ok secret)"

definition ca_namespace :: string where
  "ca_namespace = ''chaperone/ca/''"

definition placeholder_entry_value :: string where
  "placeholder_entry_value = ''<chaperone:unset>''"

definition shared_resolve :: "vault_env \<Rightarrow> local_vault \<Rightarrow> provider" where
  "shared_resolve e v entry =
     (if starts_with entry ca_namespace
      then Err (Backend ''the SSH CA key is non-exportable; minting is the only operation it serves'')
      else (case local_resolve e v entry of
              Inl er \<Rightarrow> Err er
            | Inr secret \<Rightarrow>
                if secret = placeholder_entry_value then Err (UnsetPlaceholder entry) else Ok secret))"

section \<open>HashiCorp KV version 2\<close>

record vault_kv2 =
  kv_endpoint :: string
  kv_mount :: string
  kv_token :: string

definition trim_start_char :: "char \<Rightarrow> string \<Rightarrow> string" where
  "trim_start_char ch s = dropWhile (\<lambda>x. x = ch) s"

definition trim_end_char :: "char \<Rightarrow> string \<Rightarrow> string" where
  "trim_end_char ch s = rev (dropWhile (\<lambda>x. x = ch) (rev s))"

text \<open>\<open>client\<close>: the HTTP client could be built.\<close>

definition kv2_new :: "bool \<Rightarrow> string \<Rightarrow> string \<Rightarrow> string \<Rightarrow> (string, vault_kv2) result" where
  "kv2_new client base_url mount token =
     (let base = trim_end_char CHR ''/'' base_url in
      if \<not> starts_with base ''http://'' \<and> \<not> starts_with base ''https://''
      then Err ''vault base_url must be http(s)://''
      else (let mount = trim_end_char CHR ''/'' (trim_start_char CHR ''/'' mount) in
        if mount = [] \<or> contains_sub mount ''..'' then Err ''vault mount must be a non-empty path segment''
        else if \<not> client then Err ''client''
        else Ok \<lparr>kv_endpoint = base @ ''/v1/'' @ mount @ ''/data'', kv_mount = mount, kv_token = token\<rparr>))"

text \<open>The answer to the GET request: an error, or a status and the JSON of the body.\<close>

datatype kv2_reply = Unreachable string | Replied nat "(string, json) result"

definition kv2_data :: "json \<Rightarrow> (string \<times> json) list option" where
  "kv2_data body = Option.bind (Option.bind (json_get body ''data'') (\<lambda>d. json_get d ''data'')) as_object"

definition kv2_select :: "string \<Rightarrow> (string \<times> json) list \<Rightarrow> (resolve_error, string) result" where
  "kv2_select entry kvs =
     (case split_once entry ''#'' of
        Some (_, key) \<Rightarrow>
          (case Option.bind (map_of kvs key) as_str of
             None \<Rightarrow> Err (Backend (''key '' @ debug_str key @ '' not present in secret''))
           | Some s \<Rightarrow> Ok s)
      | None \<Rightarrow>
          if length kvs = 1 then
            (case as_str (snd (hd kvs)) of
               None \<Rightarrow> Err (Backend ''single-key secret value is not a string'')
             | Some s \<Rightarrow> Ok s)
          else Err (Backend (''secret has '' @ dec_of_nat (length kvs) @ '' keys; select one with path#key'')))"

definition kv2_resolve :: "(string \<Rightarrow> string \<Rightarrow> kv2_reply) \<Rightarrow> vault_kv2 \<Rightarrow> provider" where
  "kv2_resolve fetch kv entry =
     (if entry = [] \<or> contains_sub entry ''..'' then Err (EntryNotFound entry)
      else (case fetch (kv_endpoint kv @ ''/'' @ trim_start_char CHR ''/'' entry) (kv_token kv) of
        Unreachable e \<Rightarrow> Err (Backend (''vault unreachable: '' @ e))
      | Replied status body \<Rightarrow>
          if status = 403 \<or> status = 401 then Err (Backend ''vault rejected the token'')
          else if status = 404 then Err (EntryNotFound entry)
          else if status \<noteq> 200 then Err (Backend (''vault returned '' @ dec_of_nat status))
          else (case body of
            Inl e \<Rightarrow> Err (Backend (''vault body: '' @ e))
          | Inr v \<Rightarrow> (case kv2_data v of
              None \<Rightarrow> Err (Backend ''vault response missing data.data'')
            | Some kvs \<Rightarrow> kv2_select entry kvs))))"

section \<open>Properties\<close>

lemma router_resolve_Ok_iff:
  "router_resolve r cred_ref = Ok s \<longleftrightarrow>
     (\<exists>scheme entry prov. split_once cred_ref ''://'' = Some (scheme, entry) \<and> scheme \<noteq> [] \<and> entry \<noteq> [] \<and>
        map_of r scheme = Some prov \<and> prov entry = Ok s)"
  by (auto simp: router_resolve_def router_dispatch_def split: option.splits if_splits)

text \<open>
  What an intent can get out of the local vault: \<^verbatim>\<open>local://\<close> resolves to the value that
  the vault holds for the entry at that moment, except that the key material of the SSH
  authority and the unset placeholder are never handed out; every other scheme of a gateway
  with only the local vault is refused.
\<close>

theorem local_resolve_exactly:
  assumes "vault_ok e pass v"
  shows "router_resolve (router_register ''local'' (shared_resolve e v) router_new) cred_ref = Ok s \<longleftrightarrow>
    (\<exists>entry. cred_ref = ''local://'' @ entry \<and> entry \<noteq> [] \<and> \<not> prefix ca_namespace entry \<and>
       vault_content e v entry = Some s \<and> s \<noteq> placeholder_entry_value)"
proof -
  have res: "shared_resolve e v entry = Ok s \<longleftrightarrow> \<not> prefix ca_namespace entry \<and>
      vault_content e v entry = Some s \<and> s \<noteq> placeholder_entry_value" for entry
    using vault_get_ok [OF assms]
    by (auto simp: shared_resolve_def local_resolve_def str_simps split: option.splits)
  have "split_once (''local://'' @ entry) ''://'' = Some (''local'', entry)" for entry
    by (simp add: split_once_def)
  moreover have "split_once cred_ref ''://'' = Some (''local'', entry) \<Longrightarrow> cred_ref = ''local://'' @ entry" for entry
    by (drule split_once_Some) simp
  ultimately show ?thesis
    by (auto simp: router_resolve_Ok_iff router_register_def router_new_def res split: if_splits)
qed

theorem local_resolve_exactly_witness:
  "\<exists>v. vault_ok sample_vault_env ''pw'' v \<and>
     router_resolve (router_register ''local'' (shared_resolve sample_vault_env v) router_new) ''local://chaperone/ca/ssh''
       \<noteq> Ok ''key''"
proof -
  obtain v where v: "vault_ok sample_vault_env ''pw'' v" by (rule sample_vault)
  have "\<not> (\<exists>entry. ''local://chaperone/ca/ssh'' = ''local://'' @ entry \<and> entry \<noteq> [] \<and> \<not> prefix ca_namespace entry \<and>
       vault_content sample_vault_env v entry = Some ''key'' \<and> ''key'' \<noteq> placeholder_entry_value)"
    by (auto simp: ca_namespace_def)
  with local_resolve_exactly [OF v, of "''local://chaperone/ca/ssh''" "''key''"] v show ?thesis by blast
qed

text \<open>
  A KV reader never leaves its mount: an entry that names a parent directory is refused
  before any request is made, and every request goes below the endpoint of the mount.
\<close>

lemma kv2_stays_in_mount:
  assumes "kv2_resolve fetch kv entry = Ok s"
  shows "\<not> contains_sub entry ''..'' \<and>
    (\<exists>path body. fetch (kv_endpoint kv @ ''/'' @ path) (kv_token kv) = Replied 200 (Ok body))"
  using assms by (auto simp: kv2_resolve_def split: if_splits kv2_reply.splits sum.splits)

end
