(* ===== verification/Ssh_Ca.thy ===== *)
theory Ssh_Ca
  imports Credentials Enrollment Protocol
begin

text \<open>
  The SSH certificate authority: the signer (\<^verbatim>\<open>crates/gateway-core/src/ssh_ca.rs\<close>), the provider
  for \<^verbatim>\<open>ca://\<close> references (\<^verbatim>\<open>ssh_ca_provider.rs\<close>) and its context over the local vault and the
  enrollment store (\<^verbatim>\<open>ssh_ca_gateway.rs\<close>). The SSH key library is a parameter: parsing and
  printing of keys, and building and signing a certificate from the fields that the code sets.
\<close>

section \<open>Signing\<close>

text \<open>The fields that the certificate builder is given.\<close>

record cert_fields =
  cf_nonce :: bytes
  cf_subject :: bytes
  cf_valid_after :: nat
  cf_valid_before :: nat
  cf_key_id :: string
  cf_principals :: "string list"
  cf_extensions :: "(string \<times> string) list"

text \<open>
  \<open>sk_sign\<close> builds and signs a user certificate and prints it; every error of the builder is
  reported alike.
\<close>

record ssh_env =
  sk_crypto :: crypto
  sk_from_openssh :: "string \<Rightarrow> bytes option"
  sk_to_openssh :: "bytes \<Rightarrow> string option"
  sk_public_line :: "bytes \<Rightarrow> string option"
  sk_sign :: "cert_fields \<Rightarrow> bytes \<Rightarrow> string option"

record minted_cert =
  mc_cert_openssh :: string
  mc_key_id :: string

record mint_request =
  mr_agent_id :: string
  mr_msg_id :: string
  mr_username :: string
  mr_host :: string
  mr_want_pty :: bool
  mr_ttl_secs :: nat

definition ttl_ceiling_secs :: nat where
  "ttl_ceiling_secs = 3600"

definition host_extension :: string where
  "host_extension = ''host@chaperone''"

datatype mint_error = TtlAboveCeiling | BadAgentKey | EmptyField | BadCaKey

fun mint_error_detail :: "mint_error \<Rightarrow> string" where
  "mint_error_detail TtlAboveCeiling = ''requested TTL exceeds the ruled ceiling''"
| "mint_error_detail BadAgentKey = ''agent key is not a parseable Ed25519 public key''"
| "mint_error_detail EmptyField = ''agent id, username, and host are all required''"
| "mint_error_detail BadCaKey = ''CA key material did not parse''"

text \<open>The private key is the seed; its public half is derived.\<close>

definition generate_ca :: "ssh_env \<Rightarrow> bytes \<Rightarrow> (mint_error, string \<times> string) result" where
  "generate_ca e seed =
     bind_res (ok_or BadCaKey (sk_to_openssh e seed)) (\<lambda>private_text.
     bind_res (ok_or BadCaKey (sk_public_line e seed)) (\<lambda>public_line.
     Ok (private_text, public_line)))"

definition ca_public_line :: "ssh_env \<Rightarrow> string \<Rightarrow> string option" where
  "ca_public_line e private_text = Option.bind (sk_from_openssh e private_text) (sk_public_line e)"

text \<open>The sum is checked in the source; seconds since the epoch are far below the limit of 64 bits.\<close>

definition cert_of :: "mint_request \<Rightarrow> bytes \<Rightarrow> bytes \<Rightarrow> nat \<Rightarrow> cert_fields" where
  "cert_of req nonce subject anchor = \<lparr>
     cf_nonce = nonce, cf_subject = subject,
     cf_valid_after = anchor - 60, cf_valid_before = anchor + mr_ttl_secs req,
     cf_key_id = ''chaperone:'' @ trim (mr_agent_id req) @ '':'' @ trim (mr_msg_id req),
     cf_principals = [trim (mr_username req)],
     cf_extensions = (host_extension, trim (mr_host req)) #
       (if mr_want_pty req then [(''permit-pty'', [])] else [])\<rparr>"

definition sign_crt_at ::
    "ssh_env \<Rightarrow> bytes \<Rightarrow> bytes \<Rightarrow> string \<Rightarrow> mint_request \<Rightarrow> nat \<Rightarrow> (mint_error, minted_cert) result" where
  "sign_crt_at e nonce ca_key agent_key req anchor =
     (if mr_ttl_secs req = 0 \<or> ttl_ceiling_secs < mr_ttl_secs req then Err TtlAboveCeiling
      else if is_blank (mr_agent_id req) \<or> is_blank (mr_username req) \<or> is_blank (mr_host req) \<or>
              is_blank (mr_msg_id req) then Err EmptyField
      else (case b64u_decode (sk_crypto e) (trim agent_key) of
        None \<Rightarrow> Err BadAgentKey
      | Some raw \<Rightarrow>
          if length raw \<noteq> 32 then Err BadAgentKey
          else (let fields = cert_of req nonce raw anchor in
            (case sk_sign e fields ca_key of
               None \<Rightarrow> Err BadCaKey
             | Some cert \<Rightarrow> Ok \<lparr>mc_cert_openssh = cert, mc_key_id = cf_key_id fields\<rparr>))))"

text \<open>\<open>now\<close> is \<open>None\<close> when the clock is before the epoch.\<close>

definition sign_crt ::
    "ssh_env \<Rightarrow> bytes \<Rightarrow> nat option \<Rightarrow> bytes \<Rightarrow> string \<Rightarrow> mint_request \<Rightarrow> (mint_error, minted_cert) result" where
  "sign_crt e nonce now ca_key agent_key req =
     (case now of None \<Rightarrow> Err BadCaKey | Some t \<Rightarrow> sign_crt_at e nonce ca_key agent_key req t)"

section \<open>The provider\<close>

definition ca_entry :: string where
  "ca_entry = ''chaperone/ca/ssh''"

definition ca_scheme :: string where
  "ca_scheme = ''ca''"

datatype ca_error = NotInitialized | CaUnreadable | CaKeyInvalid | BadCredRef | AgentNotEnrolled | Mint mint_error

fun ca_error_text :: "ca_error \<Rightarrow> string" where
  "ca_error_text NotInitialized = ''the SSH CA has not been initialized; run chaperone ca-init first''"
| "ca_error_text CaUnreadable = ''the CA key could not be read from the vault''"
| "ca_error_text CaKeyInvalid = ''the stored CA key is not a parseable SSH private key''"
| "ca_error_text BadCredRef = ''ca:// references take exactly one host''"
| "ca_error_text AgentNotEnrolled = ''the agent is not enrolled; no key to certify''"
| "ca_error_text (Mint m) = mint_error_detail m"

fun ca_error_detail :: "ca_error \<Rightarrow> string" where
  "ca_error_detail NotInitialized = ''SSH CA not initialized; run chaperone ca-init first''"
| "ca_error_detail CaUnreadable = ''CA key unreadable from the vault''"
| "ca_error_detail CaKeyInvalid = ''stored CA key is not a parseable SSH private key''"
| "ca_error_detail BadCredRef = ''ca:// references take exactly one host''"
| "ca_error_detail AgentNotEnrolled = ''agent not enrolled; no key to certify''"
| "ca_error_detail (Mint m) = mint_error_detail m"

record mint_intent =
  mi_agent_id :: string
  mi_msg_id :: string
  mi_username :: string
  mi_want_pty :: bool
  mi_ttl_secs :: nat

record agent_identity =
  ai_agent_id :: string
  ai_public_key_b64url :: string
  ai_sponsor_id :: string

text \<open>The context: the opened local vault, if there is one, and the enrollment store.\<close>

record ca_context =
  cc_vault_env :: vault_env
  cc_vault :: "local_vault option"
  cc_enrollment :: enrollment_store

definition read_ca_text :: "ca_context \<Rightarrow> (ca_error, string option) result" where
  "read_ca_text ctx =
     (case cc_vault ctx of
        None \<Rightarrow> Ok None
      | Some v \<Rightarrow>
          (case vault_list (cc_vault_env ctx) v of
             Inl _ \<Rightarrow> Err CaUnreadable
           | Inr paths \<Rightarrow>
               if ca_entry \<notin> set paths then Ok None
               else (case vault_get (cc_vault_env ctx) v ca_entry of
                 Inl _ \<Rightarrow> Err CaUnreadable
               | Inr None \<Rightarrow> Err CaUnreadable
               | Inr (Some s) \<Rightarrow> Ok (Some s))))"

definition write_ca_text :: "bool \<Rightarrow> bytes \<Rightarrow> string \<Rightarrow> ca_context \<Rightarrow> (ca_error, unit) result \<times> ca_context" where
  "write_ca_text io nonce pem ctx =
     (case cc_vault ctx of
        None \<Rightarrow> (Err CaUnreadable, ctx)
      | Some v \<Rightarrow>
          (case vault_set (cc_vault_env ctx) io nonce ca_entry pem v of
             (Inl _, v') \<Rightarrow> (Err CaUnreadable, ctx\<lparr>cc_vault := Some v'\<rparr>)
           | (Inr _, v') \<Rightarrow> (Ok (), ctx\<lparr>cc_vault := Some v'\<rparr>)))"

definition ca_agent_identity :: "ssh_env \<Rightarrow> ca_context \<Rightarrow> string \<Rightarrow> (ca_error, agent_identity option) result" where
  "ca_agent_identity e ctx agent_id =
     (case lookup (cc_enrollment ctx) agent_id of
        None \<Rightarrow> Ok None
      | Some key \<Rightarrow> Ok (Some \<lparr>ai_agent_id = agent_id,
          ai_public_key_b64url = encode_signature (sk_crypto e) key,
          ai_sponsor_id = (case sponsor_id_of (cc_enrollment ctx) agent_id of None \<Rightarrow> [] | Some s \<Rightarrow> s)\<rparr>))"

definition mint_for ::
    "ssh_env \<Rightarrow> bytes \<Rightarrow> nat option \<Rightarrow> ca_context \<Rightarrow> string \<Rightarrow> agent_identity \<Rightarrow> mint_intent \<Rightarrow>
     (ca_error, minted_cert) result" where
  "mint_for e nonce now ctx cred_ref identity intent =
     (case strip_prefix cred_ref ''ca://'' of
        None \<Rightarrow> Err BadCredRef
      | Some rest \<Rightarrow>
          (let host = trim rest in
           if host = [] \<or> CHR '':'' \<in> set host \<or> CHR ''/'' \<in> set host then Err BadCredRef
           else bind_res (read_ca_text ctx) (\<lambda>found.
             bind_res (ok_or NotInitialized found) (\<lambda>ca_text.
             bind_res (ok_or CaKeyInvalid (sk_from_openssh e ca_text)) (\<lambda>ca_key.
             (case sign_crt e nonce now ca_key (ai_public_key_b64url identity)
                     \<lparr>mr_agent_id = mi_agent_id intent, mr_msg_id = mi_msg_id intent,
                      mr_username = mi_username intent, mr_host = host,
                      mr_want_pty = mi_want_pty intent, mr_ttl_secs = mi_ttl_secs intent\<rparr> of
                Inl m \<Rightarrow> Err (Mint m)
              | Inr cert \<Rightarrow> Ok cert))))))"

definition ca_initialized :: "ca_context \<Rightarrow> (ca_error, bool) result" where
  "ca_initialized ctx = map_sum id (\<lambda>found. found \<noteq> None) (read_ca_text ctx)"

definition ca_init :: "ssh_env \<Rightarrow> bytes \<Rightarrow> bool \<Rightarrow> bytes \<Rightarrow> ca_context \<Rightarrow> (ca_error, unit) result \<times> ca_context" where
  "ca_init e seed io nonce ctx =
     (case ca_initialized ctx of
        Inl er \<Rightarrow> (Err er, ctx)
      | Inr True \<Rightarrow> (Ok (), ctx)
      | Inr False \<Rightarrow>
          (case sk_to_openssh e seed of
             None \<Rightarrow> (Err CaUnreadable, ctx)
           | Some pem \<Rightarrow> write_ca_text io nonce pem ctx))"

definition ca_resolve :: provider where
  "ca_resolve entry = Err (Backend ''the SSH CA key is non-exportable; minting is the only operation it serves'')"

section \<open>Properties\<close>

lemma ok_or_Ok [simp]: "ok_or er x = Ok y \<longleftrightarrow> x = Some y"
  by (cases x) simp_all

lemma relabel_Ok [simp]: "(case x of Inl a \<Rightarrow> Err (f a) | Inr b \<Rightarrow> Ok b) = Ok y \<longleftrightarrow> x = Ok y"
  by (cases x) simp_all

lemma cert_of_fields [simp]:
  "cf_subject (cert_of req nonce raw t) = raw" "cf_principals (cert_of req nonce raw t) = [trim (mr_username req)]"
  "cf_key_id (cert_of req nonce raw t) = ''chaperone:'' @ trim (mr_agent_id req) @ '':'' @ trim (mr_msg_id req)"
  by (simp_all add: cert_of_def)

lemma sign_crt_Ok:
  assumes "sign_crt e nonce now ca_key agent_key req = Ok cert"
  obtains t raw where "now = Some t" "b64u_decode (sk_crypto e) (trim agent_key) = Some raw" "length raw = 32"
    "0 < mr_ttl_secs req" "mr_ttl_secs req \<le> ttl_ceiling_secs" "\<not> is_blank (mr_username req)"
    "sk_sign e (cert_of req nonce raw t) ca_key = Some (mc_cert_openssh cert)"
    "mc_key_id cert = cf_key_id (cert_of req nonce raw t)"
  using assms unfolding sign_crt_def sign_crt_at_def
  by (auto simp: Let_def split: option.splits if_splits)

text \<open>
  (C19) A minted certificate says what was ruled and nothing more: it certifies the key that
  the agent is enrolled with, under exactly one principal, which is not blank, bound to the one
  host that the reference names; it carries no extension but that binding and the terminal, so
  never forwarding; it is signed by the key in the vault, and it expires within an hour of the
  moment it is made.
\<close>

theorem mint_certifies_enrolled_key:
  assumes "b64u_reads_back (sk_crypto e)" "b64u_trimmed (sk_crypto e)"
    and "ca_agent_identity e ctx a = Ok (Some identity)"
    and "mint_for e nonce (Some t) ctx cred_ref identity intent = Ok cert"
  shows "\<exists>fields pem ca_key host rest.
    read_ca_text ctx = Ok (Some pem) \<and> sk_from_openssh e pem = Some ca_key \<and>
    sk_sign e fields ca_key = Some (mc_cert_openssh cert) \<and>
    lookup (cc_enrollment ctx) a = Some (cf_subject fields) \<and>
    cf_principals fields = [trim (mi_username intent)] \<and> \<not> is_blank (mi_username intent) \<and>
    cred_ref = ''ca://'' @ rest \<and> host = trim rest \<and> CHR ''/'' \<notin> set host \<and> CHR '':'' \<notin> set host \<and>
    map_of (cf_extensions fields) host_extension = Some (trim host) \<and>
    set (map fst (cf_extensions fields)) \<subseteq> {host_extension, ''permit-pty''} \<and>
    cf_valid_before fields \<le> t + 3600 \<and> t < cf_valid_before fields \<and>
    mc_key_id cert = ''chaperone:'' @ trim (mi_agent_id intent) @ '':'' @ trim (mi_msg_id intent)"
proof -
  obtain key where key: "lookup (cc_enrollment ctx) a = Some key"
      "ai_public_key_b64url identity = b64u_encode (sk_crypto e) key"
    using assms(3) by (auto simp: ca_agent_identity_def encode_signature_def split: option.splits)
  obtain rest where rest: "strip_prefix cred_ref ''ca://'' = Some rest" "CHR '':'' \<notin> set (trim rest)" "CHR ''/'' \<notin> set (trim rest)"
    using assms(4) by (auto simp: mint_for_def Let_def split: option.splits if_splits)
  let ?req = "\<lparr>mr_agent_id = mi_agent_id intent, mr_msg_id = mi_msg_id intent, mr_username = mi_username intent,
    mr_host = trim rest, mr_want_pty = mi_want_pty intent, mr_ttl_secs = mi_ttl_secs intent\<rparr>"
  obtain pem ca_key where ca: "read_ca_text ctx = Ok (Some pem)" "sk_from_openssh e pem = Some ca_key"
    and signed: "sign_crt e nonce (Some t) ca_key (ai_public_key_b64url identity) ?req = Ok cert"
    using assms(4) rest
    by (auto simp: mint_for_def Let_def split: if_splits)
  from signed obtain raw where raw: "b64u_decode (sk_crypto e) (trim (ai_public_key_b64url identity)) = Some raw"
    and ttl: "0 < mi_ttl_secs intent" "mi_ttl_secs intent \<le> 3600" and user: "\<not> is_blank (mi_username intent)"
    and cert: "sk_sign e (cert_of ?req nonce raw t) ca_key = Some (mc_cert_openssh cert)"
      "mc_key_id cert = cf_key_id (cert_of ?req nonce raw t)"
    by (rule sign_crt_Ok) (auto simp: ttl_ceiling_secs_def)
  define fields where "fields = cert_of ?req nonce raw t"
  have "raw = key" using raw assms(1,2) key(2) by (simp add: b64u_reads_back_def b64u_trimmed_def)
  then have "lookup (cc_enrollment ctx) a = Some (cf_subject fields)" using key(1) by (simp add: fields_def)
  moreover have "cred_ref = ''ca://'' @ rest" using rest(1) by (simp add: strip_prefix_eq_Some)
  moreover have "cf_valid_before fields \<le> t + 3600 \<and> t < cf_valid_before fields"
    using ttl by (simp add: fields_def cert_of_def)
  moreover have "map_of (cf_extensions fields) host_extension = Some (trim (trim rest))"
      "set (map fst (cf_extensions fields)) \<subseteq> {host_extension, ''permit-pty''}"
    by (auto simp: fields_def cert_of_def)
  moreover have "cf_principals fields = [trim (mi_username intent)]"
      "mc_key_id cert = ''chaperone:'' @ trim (mi_agent_id intent) @ '':'' @ trim (mi_msg_id intent)"
    using cert(2) by (simp_all add: fields_def)
  moreover have "sk_sign e fields ca_key = Some (mc_cert_openssh cert)" using cert(1) by (simp add: fields_def)
  ultimately show ?thesis using rest(2,3) ca user by blast
qed

definition ssh_key_laws :: "ssh_env \<Rightarrow> bool" where
  "ssh_key_laws e \<longleftrightarrow> (\<forall>seed. \<exists>pem. sk_to_openssh e seed = Some pem \<and> sk_from_openssh e pem = Some seed)"


section \<open>A concrete authority\<close>

definition sample_ssh :: ssh_env where
  "sample_ssh = \<lparr>sk_crypto = sample_crypto, sk_from_openssh = Some, sk_to_openssh = Some, sk_public_line = Some,
     sk_sign = (\<lambda>fields key. Some (cf_key_id fields))\<rparr>"

definition sample_mint :: mint_intent where
  "sample_mint = \<lparr>mi_agent_id = ''a'', mi_msg_id = ''m'', mi_username = ''u'', mi_want_pty = False, mi_ttl_secs = 300\<rparr>"


lemma sample_names: "trim ''a'' = ''a''" "trim ''m'' = ''m''" "trim ''u'' = ''u''" "trim ''h'' = ''h''"
  by code_simp+

theorem mint_certifies_enrolled_key_witness:
  "\<exists>ctx identity cert fields ca_key.
     mint_for sample_ssh [] (Some 1000) ctx ''ca://h'' identity sample_mint = Ok cert \<and>
     sk_sign sample_ssh fields ca_key = Some (mc_cert_openssh cert) \<and>
     lookup (cc_enrollment ctx) ''a'' = Some (cf_subject fields) \<and> cf_principals fields = [''u'']"
proof -
  let ?st = "operator_run sample_crypto sample_store_codec enrollment_in_memory sample_acts"
  obtain v where v: "vault_ok sample_vault_env ''pw'' v" by (rule sample_vault)
  have nonce: "length sample_nonce = nonce_len" by (simp add: sample_nonce_def nonce_len_def)
  let ?v = "snd (vault_set sample_vault_env True sample_nonce ca_entry ''k'' v)"
  note set_ok = vault_set_ok [OF v nonce, of ca_entry "''k''"]
  let ?ctx = "\<lparr>cc_vault_env = sample_vault_env, cc_vault = Some ?v, cc_enrollment = ?st\<rparr>"
  obtain m where "decrypt_entries sample_vault_env ?v = Ok m" "vault_content sample_vault_env ?v = map_of m"
    by (rule vault_ok_entries [OF set_ok(2)])
  moreover have "vault_content sample_vault_env ?v ca_entry = Some ''k''" by (simp add: set_ok(3))
  ultimately obtain ks where "vault_list sample_vault_env ?v = Ok ks" "ca_entry \<in> set ks"
    by (auto simp: vault_list_def set_bt_keys dom_def)
  then have ca: "read_ca_text ?ctx = Ok (Some ''k'')"
    using vault_get_ok [OF set_ok(2)] set_ok(3) by (simp add: read_ca_text_def)
  obtain identity where identity: "ca_agent_identity sample_ssh ?ctx ''a'' = Ok (Some identity)"
      "ai_public_key_b64url identity = b64u_encode sample_crypto sample_key"
    using sample_lookup by (simp add: ca_agent_identity_def sample_ssh_def encode_signature_def)
  have "b64u_decode sample_crypto (trim (b64u_encode sample_crypto sample_key)) = Some sample_key" "length sample_key = 32"
    using sample_crypto_ok(3,5) by (simp_all add: b64u_reads_back_def b64u_trimmed_def sample_key_def sample_seed_def)
  moreover have "strip_prefix ''ca://h'' ''ca://'' = Some ''h''" by (simp add: strip_prefix_def)
  ultimately obtain cert where cert: "mint_for sample_ssh [] (Some 1000) ?ctx ''ca://h'' identity sample_mint = Ok cert"
    using ca identity(2)
    by (auto simp: mint_for_def sample_names sample_ssh_def sample_mint_def sign_crt_def sign_crt_at_def is_blank_def
        ttl_ceiling_secs_def Let_def)
  have "b64u_reads_back (sk_crypto sample_ssh)" "b64u_trimmed (sk_crypto sample_ssh)"
    using sample_crypto_ok(3,5) by (simp_all add: sample_ssh_def)
  from mint_certifies_enrolled_key [OF this identity(1) cert] cert show ?thesis
    by (fastforce simp: sample_mint_def sample_names)
qed

end
