(* ===== verification/Database.thy ===== *)
theory Database
  imports Wire Sessions Codec
begin

text \<open>
  The \<^verbatim>\<open>db-scram\<close> mechanism of \<^verbatim>\<open>crates/gateway-core/src/db.rs\<close>: the connection settings drawn
  from a signed intent, one-shot statements, and the channel of a database session. The
  PostgreSQL client is a parameter: connecting, the simple and the extended query protocol.
\<close>

section \<open>The client\<close>

record pg_config =
  pc_host :: string
  pc_port :: nat
  pc_dbname :: string
  pc_user :: string
  pc_password :: string

text \<open>
  The simple protocol gives every cell as text or null. In the extended protocol a cell also
  has a type, and reading it as text fails (\<open>PgTyped\<close>) unless the type is textual.
\<close>

datatype pg_message = PgRow "string option list" | PgComplete nat | PgOtherMessage

datatype pg_cell = PgNull | PgText string | PgTyped string

text \<open>
  \<open>pg_connect\<close> fails with the displays of the error and of its sources, outermost first;
  \<open>pg_prepare\<close> gives the names of the result columns.
\<close>

record pg_env =
  pg_connect :: "pg_config \<Rightarrow> (string list, nat) result"
  pg_simple :: "nat \<Rightarrow> string \<Rightarrow> (string, pg_message list) result"
  pg_prepare :: "nat \<Rightarrow> string \<Rightarrow> (string, string list) result"
  pg_query :: "nat \<Rightarrow> string \<Rightarrow> string list \<Rightarrow> (string, pg_cell list list) result"
  pg_to_vec :: "json \<Rightarrow> bytes"

definition error_chain :: "string list \<Rightarrow> string" where
  "error_chain displays = join_with '': '' displays"

section \<open>Connection settings\<close>

definition choose_database :: "string \<Rightarrow> string option \<Rightarrow> (string, string) result" where
  "choose_database uri_db op_db =
     (case op_db of
        None \<Rightarrow> if uri_db \<noteq> [] then Ok uri_db else Err ''no database: put one in target.uri or operation''
      | Some db \<Rightarrow>
          if uri_db \<noteq> [] then
            (if uri_db \<noteq> db then
               Err (''operation.database '' @ debug_str db @ '' contradicts target URI database '' @ debug_str uri_db)
             else Ok uri_db)
          else Ok db)"

definition choose_user :: "string option \<Rightarrow> string \<Rightarrow> (string, string) result" where
  "choose_user op_user uri_user =
     ok_or ''no user: put one in target.uri userinfo or operation.username''
       (case op_user of
          Some u \<Rightarrow> if u \<noteq> [] then Some u else if uri_user \<noteq> [] then Some uri_user else None
        | None \<Rightarrow> if uri_user \<noteq> [] then Some uri_user else None)"

definition build_config :: "string \<Rightarrow> json \<Rightarrow> string \<Rightarrow> (string, pg_config \<times> string) result" where
  "build_config target_uri operation secret =
     bind_res (parse_pg_uri target_uri) (\<lambda>ep.
     let engine = (case get_str operation ''engine'' of None \<Rightarrow> [] | Some s \<Rightarrow> s) in
     if engine \<noteq> [] \<and> engine \<noteq> ''postgres'' then
       Err (''engine '' @ debug_str engine @ '' unsupported; only '' @ [CHR 39] @ ''postgres'' @ [CHR 39])
     else
       bind_res (choose_database (pg_database ep) (get_str operation ''database'')) (\<lambda>db.
       bind_res (choose_user (get_str operation ''username'') (pg_user ep)) (\<lambda>user.
       Ok (\<lparr>pc_host = pg_host ep, pc_port = pg_port ep, pc_dbname = db, pc_user = user, pc_password = secret\<rparr>,
           user))))"

section \<open>One-shot statements\<close>

definition cell_text :: "string option \<Rightarrow> json" where
  "cell_text x = (case x of None \<Rightarrow> JNull | Some s \<Rightarrow> JStr s)"

fun message_rows :: "pg_message \<Rightarrow> json list" where
  "message_rows (PgRow cells) = [JArr (map cell_text cells)]"
| "message_rows (PgComplete n) = (if 0 < n then [JObj [(''rows_affected'', JInt (int n))]] else [])"
| "message_rows PgOtherMessage = []"

definition run_simple :: "pg_env \<Rightarrow> nat \<Rightarrow> string \<Rightarrow> (string, json) result" where
  "run_simple pg client statement =
     (case pg_simple pg client statement of
        Inl e \<Rightarrow> Err (''execution failed: '' @ e)
      | Inr msgs \<Rightarrow>
          Ok (JObj [(''type'', JStr ''result''), (''rows'', JArr (concat (map message_rows msgs)))]))"

definition try_get_text :: "pg_cell list \<Rightarrow> nat \<Rightarrow> string option" where
  "try_get_text row i =
     (if i < length row then (case row ! i of PgText s \<Rightarrow> Some s | PgNull \<Rightarrow> None | PgTyped _ \<Rightarrow> None) else None)"

definition run_parameterized :: "pg_env \<Rightarrow> nat \<Rightarrow> string \<Rightarrow> string list \<Rightarrow> (string, json) result" where
  "run_parameterized pg client statement params =
     (case pg_prepare pg client statement of
        Inl e \<Rightarrow> Err (''prepare failed: '' @ e)
      | Inr columns \<Rightarrow>
          (case pg_query pg client statement params of
             Inl e \<Rightarrow> Err (''execution failed: '' @ e)
           | Inr rows \<Rightarrow>
               Ok (JObj [(''type'', JStr ''result''), (''columns'', JArr (map JStr columns)),
                 (''rows'', JArr (map (\<lambda>row. JArr (map (\<lambda>i. cell_text (try_get_text row i)) [0..<length columns])) rows))])))"

definition text_params :: "json \<Rightarrow> string list" where
  "text_params operation =
     (case Option.bind (json_get operation ''params'') as_array of
        None \<Rightarrow> []
      | Some a \<Rightarrow> List.map_filter as_str a)"

definition pg_dial :: "pg_env \<Rightarrow> pg_config \<Rightarrow> (string, nat) result" where
  "pg_dial pg config =
     (case pg_connect pg config of
        Inl displays \<Rightarrow> Err (''connect failed (auth or network): '' @ error_chain displays)
      | Inr client \<Rightarrow> Ok client)"

definition execute_one_shot :: "pg_env \<Rightarrow> string \<Rightarrow> json \<Rightarrow> string \<Rightarrow> (string, json) result" where
  "execute_one_shot pg target_uri operation secret =
     bind_res (build_config target_uri operation secret) (\<lambda>(config, _).
     bind_res (ok_or ''one-shot requires operation.statement''
       (case get_str operation ''statement'' of
          None \<Rightarrow> None | Some s \<Rightarrow> if trim s = [] then None else Some s)) (\<lambda>statement.
     bind_res (pg_dial pg config) (\<lambda>client.
     if text_params operation = [] then run_simple pg client statement
     else run_parameterized pg client statement (text_params operation))))"

section \<open>Database sessions\<close>

record db_channel =
  dc_client :: nat
  dc_pending :: "json list"

definition db_backend_connect :: "pg_env \<Rightarrow> string \<Rightarrow> json \<Rightarrow> string \<Rightarrow> (string, db_channel) result" where
  "db_backend_connect pg target_uri operation secret =
     (if get_str operation ''statement'' \<noteq> None then
        Err ''openers must omit statement; use one-shot intents for single queries''
      else
        bind_res (build_config target_uri operation secret) (\<lambda>(config, _).
        bind_res (pg_dial pg config) (\<lambda>client. Ok \<lparr>dc_client = client, dc_pending = []\<rparr>)))"

definition db_write :: "pg_env \<Rightarrow> bytes \<Rightarrow> db_channel \<Rightarrow> (string, unit) result \<times> db_channel" where
  "db_write pg data ch =
     (if \<not> utf8_valid data then (Err ''input is not UTF-8 SQL'', ch)
      else (case pg_simple pg (dc_client ch) (trim data) of
        Inl e \<Rightarrow> (Err (''execution failed: '' @ e), ch)
      | Inr msgs \<Rightarrow> (Ok (), ch\<lparr>dc_pending := dc_pending ch @ concat (map message_rows msgs)\<rparr>)))"

text \<open>The reader polls every 25 milliseconds until something is pending or the wait is over.\<close>

function db_read_from :: "pg_env \<Rightarrow> nat \<Rightarrow> nat \<Rightarrow> db_channel \<Rightarrow> output_batch \<times> db_channel" where
  "db_read_from pg now deadline ch =
     (if dc_pending ch \<noteq> [] then
        (\<lparr>ob_chunks = [\<lparr>oc_stream = ''stdout'', oc_data = pg_to_vec pg (JArr (dc_pending ch))\<rparr>],
          ob_closed = False, ob_exit_code = None\<rparr>, ch\<lparr>dc_pending := []\<rparr>)
      else if deadline \<le> now then (\<lparr>ob_chunks = [], ob_closed = False, ob_exit_code = None\<rparr>, ch)
      else db_read_from pg (now + 25) deadline ch)"
  by pat_completeness auto
termination
  by (relation "measure (\<lambda>(pg, now, deadline, ch). deadline - now)") auto

declare db_read_from.simps [simp del]

definition db_read_batch :: "pg_env \<Rightarrow> nat \<Rightarrow> nat \<Rightarrow> db_channel \<Rightarrow> output_batch \<times> db_channel" where
  "db_read_batch pg now max_wait ch = db_read_from pg now (now + max_wait) ch"

section \<open>Specification\<close>

text \<open>What the pieces of a signed intent must say for a connection to be attempted.\<close>

definition settings_agree :: "pg_endpoint \<Rightarrow> json \<Rightarrow> string \<Rightarrow> pg_config \<Rightarrow> bool" where
  "settings_agree ep operation secret cfg \<longleftrightarrow>
     get_str operation ''engine'' \<in> {None, Some [], Some ''postgres''} \<and>
     pc_host cfg = pg_host ep \<and> pc_port cfg = pg_port ep \<and> pc_password cfg = secret \<and>
     (pg_database ep = [] \<longrightarrow> get_str operation ''database'' = Some (pc_dbname cfg)) \<and>
     (pg_database ep \<noteq> [] \<longrightarrow> pc_dbname cfg = pg_database ep \<and>
        get_str operation ''database'' \<in> {None, Some (pc_dbname cfg)}) \<and>
     pc_user cfg \<noteq> [] \<and>
     (if get_str operation ''username'' \<in> {None, Some []} then pc_user cfg = pg_user ep
      else get_str operation ''username'' = Some (pc_user cfg))"

text \<open>A history of one session: SQL frames and reads, in any order.\<close>

datatype db_event = SqlFrame bytes | ReadWindow nat nat

fun db_session :: "pg_env \<Rightarrow> db_event list \<Rightarrow> db_channel \<Rightarrow> output_batch list \<times> db_channel" where
  "db_session pg [] ch = ([], ch)"
| "db_session pg (SqlFrame data # evs) ch = db_session pg evs (snd (db_write pg data ch))"
| "db_session pg (ReadWindow now wait # evs) ch =
     (case db_read_batch pg now wait ch of
        (batch, ch1) \<Rightarrow> (case db_session pg evs ch1 of (batches, ch2) \<Rightarrow> (batch # batches, ch2)))"

fun produced_rows :: "pg_env \<Rightarrow> nat \<Rightarrow> db_event \<Rightarrow> json list" where
  "produced_rows pg client (SqlFrame data) =
     (if utf8_valid data then
        (case pg_simple pg client (trim data) of Inl _ \<Rightarrow> [] | Inr msgs \<Rightarrow> concat (map message_rows msgs)) else [])"
| "produced_rows pg client (ReadWindow now wait) = []"

definition batch_of :: "pg_env \<Rightarrow> json list \<Rightarrow> output_batch" where
  "batch_of pg rs = \<lparr>ob_chunks = (if rs = [] then [] else [\<lparr>oc_stream = ''stdout'', oc_data = pg_to_vec pg (JArr rs)\<rparr>]),
     ob_closed = False, ob_exit_code = None\<rparr>"

section \<open>Properties\<close>

lemma choose_database_Ok:
  "choose_database u d = Ok x \<longleftrightarrow> (if u = [] then d = Some x else x = u \<and> d \<in> {None, Some x})"
  by (auto simp: choose_database_def split: option.splits)

lemma choose_user_Ok:
  "choose_user u d = Ok x \<longleftrightarrow> x \<noteq> [] \<and> (if u \<in> {None, Some []} then x = d else u = Some x)"
  by (auto simp: choose_user_def split: option.splits)

lemma build_config_iff:
  "build_config uri operation secret = Ok (cfg, user) \<longleftrightarrow>
     user = pc_user cfg \<and> (\<exists>ep. parse_pg_uri uri = Ok ep \<and> settings_agree ep operation secret cfg)"
  unfolding build_config_def
  by (cases cfg; cases "parse_pg_uri uri")
    (auto simp: settings_agree_def choose_database_Ok choose_user_Ok Let_def split: option.splits if_splits)

lemma db_read_from_eq: "db_read_from pg now deadline ch = (batch_of pg (dc_pending ch), ch\<lparr>dc_pending := []\<rparr>)"
proof (induction pg now deadline ch rule: db_read_from.induct)
  case (1 pg now deadline ch)
  then show ?case by (cases ch) (simp add: db_read_from.simps [of pg now] batch_of_def)
qed

lemma db_write_pending:
  "snd (db_write pg data ch) = ch\<lparr>dc_pending := dc_pending ch @ produced_rows pg (dc_client ch) (SqlFrame data)\<rparr>"
  by (cases ch) (simp add: db_write_def split: sum.split)

lemma db_session_rows:
  "\<exists>rss. fst (db_session pg evs ch) = map (batch_of pg) rss \<and>
     concat rss @ dc_pending (snd (db_session pg evs ch)) =
       dc_pending ch @ concat (map (produced_rows pg (dc_client ch)) evs)"
proof (induction pg evs ch rule: db_session.induct)
  case (2 pg data evs ch)
  then show ?case by (simp add: db_write_pending del: produced_rows.simps)
next
  case (3 pg now wait evs ch)
  let ?ch = "ch\<lparr>dc_pending := []\<rparr>"
  have rd: "db_read_batch pg now wait ch = (batch_of pg (dc_pending ch), ?ch)"
    by (simp add: db_read_batch_def db_read_from_eq)
  obtain rss where "fst (db_session pg evs ?ch) = map (batch_of pg) rss"
    "concat rss @ dc_pending (snd (db_session pg evs ?ch)) = concat (map (produced_rows pg (dc_client ch)) evs)"
    using 3 [OF rd [symmetric]] by auto
  then show ?case
    using rd by (intro exI [of _ "dc_pending ch # rss"]) (simp add: case_prod_beta)
qed simp

text \<open>
  Connection settings: a connection is configured exactly when the target URI parses, the
  engine is absent or PostgreSQL, the database named by the URI and the one named by the
  operation do not contradict each other, and a user is named; the settings are then
  determined by those pieces and the password is the resolved secret.
\<close>

theorem build_config_accepts_iff:
  "build_config uri operation secret = Ok (cfg, user) \<longleftrightarrow>
     user = pc_user cfg \<and> (\<exists>ep. parse_pg_uri uri = Ok ep \<and> settings_agree ep operation secret cfg)"
  by (rule build_config_iff)

text \<open>
  A database session relays every result row exactly once and in order: over any
  interleaving of SQL frames and reads, the rows handed out in the batches followed by those
  still pending are the rows pending at first followed by the rows the frames produced. Every
  read returns, whatever its wait.
\<close>

theorem db_session_relays_rows:
  "\<exists>rss. fst (db_session pg evs ch) = map (batch_of pg) rss \<and>
     concat rss @ dc_pending (snd (db_session pg evs ch)) =
       dc_pending ch @ concat (map (produced_rows pg (dc_client ch)) evs)"
  by (rule db_session_rows)

text \<open>
  A statement with parameters answers null for every value whose type is not textual: two
  results that differ only in such values give the same response, which is also the response
  for nulls.
\<close>

theorem typed_values_are_lost:
  assumes "pg_prepare pg client statement = Ok columns"
    and "pg_query pg client statement params = Ok rows"
    and "pg_query pg' client statement params =
      Ok (map (map (\<lambda>cell. case cell of PgTyped _ \<Rightarrow> PgNull | _ \<Rightarrow> cell)) rows)"
    and "pg_prepare pg' client statement = Ok columns"
  shows "run_parameterized pg client statement params = run_parameterized pg' client statement params"
proof -
  have "try_get_text (map (\<lambda>cell. case cell of PgTyped _ \<Rightarrow> PgNull | _ \<Rightarrow> cell) row) i = try_get_text row i" for row i
    by (simp add: try_get_text_def split: pg_cell.split)
  then show ?thesis using assms by (simp add: run_parameterized_def o_def)
qed

definition sample_pg :: "pg_cell \<Rightarrow> pg_env" where
  "sample_pg cell = \<lparr>pg_connect = (\<lambda>cfg. if pc_password cfg = ''hunter2'' then Ok 1 else Err [''db error'', ''password authentication failed'']),
     pg_simple = (\<lambda>client sql. Ok [PgRow [Some sql], PgComplete 1]),
     pg_prepare = (\<lambda>client sql. Ok [''n'']),
     pg_query = (\<lambda>client sql params. Ok [[cell]]), pg_to_vec = (\<lambda>v. [])\<rparr>"

theorem typed_values_are_lost_witness:
  "run_parameterized (sample_pg (PgTyped ''int4'')) 1 ''select $1::int'' [''7''] =
     Ok (JObj [(''type'', JStr ''result''), (''columns'', JArr [JStr ''n'']), (''rows'', JArr [JArr [JNull]])])"
  using typed_values_are_lost [of "sample_pg (PgTyped ''int4'')" 1 "''select $1::int''" "[''n'']" "[''7'']"
      "[[PgTyped ''int4'']]" "sample_pg PgNull"]
  by (simp add: sample_pg_def run_parameterized_def try_get_text_def cell_text_def)

end
