(* ===== verification/Gateway.thy ===== *)
theory Gateway
  imports Wire Policy Attestation Audit_Journal Http_Injector Sessions Privilege Ssh_Ca Database
begin

text \<open>
  The gateway (\<^verbatim>\<open>crates/gateway-core/src/lib.rs\<close>): one handler per message type, composed of the
  components that the other theories model. The state is a record; what a handler does to the
  outside world (asking the human, reaching into the vault, spending a secret, writing the
  journal, telling the event feed, driving a channel) is appended to \<open>gw_effects\<close> in the order in
  which it happens. A handler that panics gives no response. Messages are handled one at a time.
\<close>

section \<open>Configuration and confirmation\<close>

record gateway_config =
  gc_default_max_response_bytes :: u64
  gc_default_session_ttl_secs :: u64
  gc_default_timeout_secs :: u64
  gc_session_heartbeat_secs :: u64

definition gateway_config_default :: gateway_config where
  "gateway_config_default = \<lparr>gc_default_max_response_bytes = 1048576, gc_default_session_ttl_secs = 300,
     gc_default_timeout_secs = 30, gc_session_heartbeat_secs = 300\<rparr>"

datatype confirm_outcome = Approved | Refused | TimedOut

record confirm_context =
  cx_agent_id :: string
  cx_target_label :: string
  cx_target_uri :: string
  cx_mechanism :: string
  cx_summary :: string

definition always_timeout :: "confirm_context \<Rightarrow> confirm_outcome" where
  "always_timeout ctx = TimedOut"

definition operator_render :: "confirm_context \<Rightarrow> string" where
  "operator_render ctx =
     [newline] @ ''CHAPERONE CONFIRMATION'' @ [newline] @
     ''  agent:     '' @ cx_agent_id ctx @ [newline] @
     ''  target:    '' @ cx_target_label ctx @ '' ('' @ cx_target_uri ctx @ '')'' @ [newline] @
     ''  mechanism: '' @ cx_mechanism ctx @ [newline] @
     ''  action:    '' @ cx_summary ctx @ [newline] @ ''Approve? [y/N]: ''"

definition operator_parse :: "string option \<Rightarrow> confirm_outcome" where
  "operator_parse answer =
     (case map_option (\<lambda>a. to_ascii_lowercase (trim a)) answer of
        Some a \<Rightarrow> if a = ''y'' \<or> a = ''yes'' then Approved else Refused
      | None \<Rightarrow> Refused)"

text \<open>
  The operator's channel: writing the prompt may fail, and an answer, an end of input
  (\<open>Some (Ok None)\<close>), an error or nothing at all comes back in time.
\<close>

definition operator_confirm ::
    "(string \<Rightarrow> bool) \<Rightarrow> (string, string option) result option \<Rightarrow> confirm_context \<Rightarrow> confirm_outcome" where
  "operator_confirm write_prompt answer ctx =
     (if \<not> write_prompt (operator_render ctx) then Refused
      else (case answer of
        None \<Rightarrow> TimedOut
      | Some (Inl _) \<Rightarrow> Refused
      | Some (Inr a) \<Rightarrow> operator_parse a))"

section \<open>The gateway and its surroundings\<close>

datatype gateway_effect =
    EffConfirm confirm_context confirm_outcome
  | EffResolve string
  | EffMint string
  | EffConnect string string json string
  | EffSql string json string
  | EffInject string string http_operation string http_limits
  | EffAudit audit_event
  | EffBroadcast json
  | EffWrite nat bytes
  | EffRead nat
  | EffShutdown nat

record gateway =
  gw_attestor :: attestor
  gw_policy :: policy
  gw_router :: vault_router
  gw_audit :: audit_writer
  gw_config :: gateway_config
  gw_sessions :: session_table
  gw_backends :: "string list"
  gw_privilege :: "privilege_allowlist option"
  gw_ruleset_hash :: string
  gw_event_hub :: bool
  gw_halted :: bool
  gw_halt_reason :: "string option"
  gw_ssh_ca :: "ca_context option"
  gw_effects :: "gateway_effect list"

text \<open>
  What one message meets: the clocks (wall clock and monotonic, in nanoseconds), random bytes,
  the outcome of the journal writes, the human, the session backends and the upstream systems.
  \<open>ge_serde_error\<close> is the text of a schema error; a backend that panics gives \<open>None\<close>.
\<close>

record gateway_env =
  ge_attest :: attest_env
  ge_now :: int
  ge_mono :: nat
  ge_replay_io :: io_outcome
  ge_audit_fault :: "nat option"
  ge_audit_ts :: "string option"
  ge_confirm :: "confirm_context \<Rightarrow> confirm_outcome"
  ge_http :: http_env
  ge_ssh :: ssh_env
  ge_ssh_nonce :: bytes
  ge_ssh_now :: "nat option"
  ge_connect :: "string \<Rightarrow> string \<Rightarrow> json \<Rightarrow> string \<Rightarrow> (string, nat) result option"
  ge_pg :: pg_env
  ge_handle :: bytes
  ge_write :: "nat \<Rightarrow> bytes \<Rightarrow> (string, unit) result"
  ge_batch :: "nat \<Rightarrow> output_batch"
  ge_serde_error :: "json \<Rightarrow> string"

abbreviation ge_crypto :: "gateway_env \<Rightarrow> crypto" where
  "ge_crypto env \<equiv> ae_crypto (ge_attest env)"

definition emit :: "gateway_effect \<Rightarrow> gateway \<Rightarrow> gateway" where
  "emit x g = g\<lparr>gw_effects := gw_effects g @ [x]\<rparr>"

definition msg_id_of :: "json \<Rightarrow> json" where
  "msg_id_of message = (case json_get message ''msg_id'' of None \<Rightarrow> JNull | Some v \<Rightarrow> v)"

definition gw_error :: "json \<Rightarrow> string \<Rightarrow> string \<Rightarrow> json" where
  "gw_error message code reason = JObj [(''type'', JStr ''error''), (''msg_id'', msg_id_of message),
     (''code'', JStr code), (''reason'', JStr reason)]"

definition audit_id :: "nat \<Rightarrow> string" where
  "audit_id seq = ''aud_'' @ dec_of_nat seq"

definition or_empty :: "string option \<Rightarrow> string" where
  "or_empty x = (case x of None \<Rightarrow> [] | Some s \<Rightarrow> s)"

section \<open>Journal and feed\<close>

definition gw_append :: "gateway_env \<Rightarrow> audit_event \<Rightarrow> gateway \<Rightarrow> nat option \<times> gateway" where
  "gw_append env ev g =
     (case audit_append (ge_crypto env) (ge_audit_fault env) (ge_audit_ts env) ev (gw_audit g) of
        (r, w) \<Rightarrow> (case r of Inl _ \<Rightarrow> None | Inr h \<Rightarrow> Some (head_seq h), emit (EffAudit ev) (g\<lparr>gw_audit := w\<rparr>)))"

definition broadcast_json :: "json \<Rightarrow> gateway \<Rightarrow> gateway" where
  "broadcast_json ev g = (if gw_event_hub g then emit (EffBroadcast ev) g else g)"

definition sponsor_or_empty :: "gateway \<Rightarrow> string \<Rightarrow> string" where
  "sponsor_or_empty g agent = or_empty (attestor_sponsor_id (gw_attestor g) agent)"

definition decision_event :: "gateway \<Rightarrow> envelope \<Rightarrow> string \<Rightarrow> outcome \<Rightarrow> audit_event" where
  "decision_event g e eff out = \<lparr>ev_record_kind = IntentDecision, ev_ruleset_hash = gw_ruleset_hash g,
     ev_agent_id = e_agent_id e, ev_sponsor_id = sponsor_or_empty g (e_agent_id e), ev_msg_id = e_msg_id e,
     ev_mechanism = e_mechanism e, ev_target_uri = t_uri (e_target e), ev_target_label = t_label (e_target e),
     ev_cred_ref = e_cred_ref e, ev_effect = eff, ev_outcome = out, ev_intent_envelope = envelope_to_value e\<rparr>"

definition decision_line :: "nat \<Rightarrow> audit_event \<Rightarrow> json" where
  "decision_line seq ev = JObj [(''type'', JStr ''decision''), (''audit_id'', JStr (audit_id seq)),
     (''agent_id'', JStr (ev_agent_id ev)), (''sponsor_id'', JStr (ev_sponsor_id ev)),
     (''effect'', JStr (ev_effect ev)), (''mechanism'', JStr (ev_mechanism ev)),
     (''target_uri'', JStr (ev_target_uri ev)), (''outcome'', outcome_to_value (ev_outcome ev))]"

definition audit_decision ::
    "gateway_env \<Rightarrow> envelope \<Rightarrow> string \<Rightarrow> bool \<Rightarrow> outcome \<Rightarrow> gateway \<Rightarrow> nat option \<times> gateway" where
  "audit_decision env e eff notify_on_use out g =
     (let ev = decision_event g e eff out in
      (case gw_append env ev g of
         (seq, g1) \<Rightarrow>
           (seq, if eff = effect_str Deny \<or> notify_on_use
                 then broadcast_json (decision_line (case seq of None \<Rightarrow> 0 | Some n \<Rightarrow> n) ev) g1 else g1)))"

definition identity_failure_event :: "gateway \<Rightarrow> json \<Rightarrow> error_code \<Rightarrow> audit_event" where
  "identity_failure_event g message code =
     (let agent = (case get_str message ''agent_id'' of None \<Rightarrow> ''<unnamed>'' | Some a \<Rightarrow> a);
          in_target = (\<lambda>k. or_empty (Option.bind (json_get message ''target'') (\<lambda>t. get_str t k))) in
      \<lparr>ev_record_kind = IntentDecision, ev_ruleset_hash = gw_ruleset_hash g, ev_agent_id = agent,
       ev_sponsor_id = sponsor_or_empty g agent, ev_msg_id = or_empty (get_str message ''msg_id''),
       ev_mechanism = or_empty (get_str message ''mechanism''), ev_target_uri = in_target ''uri'',
       ev_target_label = in_target ''label'', ev_cred_ref = or_empty (get_str message ''cred_ref''),
       ev_effect = ''deny'', ev_outcome = IdentityFailed (error_code_str code), ev_intent_envelope = message\<rparr>)"

definition audit_identity_failure :: "gateway_env \<Rightarrow> json \<Rightarrow> error_code \<Rightarrow> gateway \<Rightarrow> gateway" where
  "audit_identity_failure env message code g = snd (gw_append env (identity_failure_event g message code) g)"

definition session_event :: "gateway \<Rightarrow> nat \<Rightarrow> string \<Rightarrow> string \<Rightarrow> session_entry \<Rightarrow> json" where
  "session_event g now kind handle entry =
     (let st = entry_stats entry now in
      JObj [(''type'', JStr kind), (''session_handle'', JStr handle), (''agent_id'', JStr (se_agent_id entry)),
        (''sponsor_id'', JStr (sponsor_or_empty g (se_agent_id entry))), (''mechanism'', JStr (se_mechanism entry)),
        (''target_uri'', JStr (se_target_uri entry)), (''target_label'', JStr (se_target_label entry)),
        (''commands'', u64_to_value (st_commands st)), (''bytes_in'', u64_to_value (st_bytes_in st)),
        (''bytes_out'', u64_to_value (st_bytes_out st)),
        (''elapsed_secs'', JInt (int (st_elapsed st div 1000000000)))])"

definition broadcast_session_event :: "nat \<Rightarrow> string \<Rightarrow> string \<Rightarrow> session_entry \<Rightarrow> gateway \<Rightarrow> gateway" where
  "broadcast_session_event now kind handle entry g = broadcast_json (session_event g now kind handle entry) g"

text \<open>Every refusal after the policy decision: one record, then the error response.\<close>

definition refuse ::
    "gateway_env \<Rightarrow> json \<Rightarrow> envelope \<Rightarrow> decision \<Rightarrow> outcome \<Rightarrow> string \<Rightarrow> string \<Rightarrow> gateway \<Rightarrow> json option \<times> gateway" where
  "refuse env message e d out code reason g =
     (Some (gw_error message code reason),
      snd (audit_decision env e (effect_str (d_effect d)) (d_notify_on_use d) out g))"

section \<open>Opening a session\<close>

definition no_backend_reason :: "string \<Rightarrow> string" where
  "no_backend_reason mechanism = ''mechanism '' @ debug_str mechanism @ '' has no session backend configured in this build''"

definition default_session_ttl :: "gateway \<Rightarrow> u64 option \<Rightarrow> u64" where
  "default_session_ttl g ttl = (case ttl of None \<Rightarrow> gc_default_session_ttl_secs (gw_config g) | Some t \<Rightarrow> t)"

text \<open>The credential of a session: minted for \<^verbatim>\<open>ca://\<close> references, resolved otherwise.\<close>

definition mint_session_secret ::
    "gateway_env \<Rightarrow> envelope \<Rightarrow> decision \<Rightarrow> ca_context \<Rightarrow> gateway \<Rightarrow> (ca_error, string) result" where
  "mint_session_secret env e d ca g =
     (case ca_agent_identity (ge_ssh env) ca (e_agent_id e) of
        Inr (Some identity) \<Rightarrow>
          map_sum id mc_cert_openssh
            (mint_for (ge_ssh env) (ge_ssh_nonce env) (ge_ssh_now env) ca (e_cred_ref e) identity
               \<lparr>mi_agent_id = e_agent_id e, mi_msg_id = e_msg_id e,
                mi_username = or_empty (get_str (e_operation e) ''user''),
                mi_want_pty = (case Option.bind (json_get (e_operation e) ''pty'') as_bool of None \<Rightarrow> True | Some b \<Rightarrow> b),
                mi_ttl_secs = min (unat (default_session_ttl g (session_ttl_s (d_limits d)))) ttl_ceiling_secs\<rparr>)
      | _ \<Rightarrow> Err AgentNotEnrolled)"

definition session_secret ::
    "gateway_env \<Rightarrow> envelope \<Rightarrow> decision \<Rightarrow> gateway \<Rightarrow> (outcome \<times> string \<times> string, string) result \<times> gateway" where
  "session_secret env e d g =
     (if starts_with (e_cred_ref e) ''ca://'' then
        (case gw_ssh_ca g of
           None \<Rightarrow> (Err (MechanismError, ''E_MECHANISM'', ca_error_detail NotInitialized), g)
         | Some ca \<Rightarrow>
             (case mint_session_secret env e d ca g of
                Inl er \<Rightarrow> (Err (MechanismError, ''E_MECHANISM'', ca_error_detail er), emit (EffMint (e_cred_ref e)) g)
              | Inr cert \<Rightarrow> (Ok cert, emit (EffMint (e_cred_ref e)) g)))
      else
        (case router_resolve (gw_router g) (e_cred_ref e) of
           Inl er \<Rightarrow> (Err (CredentialUnresolved, ''E_CRED_UNRESOLVED'', resolve_error_text er), emit (EffResolve (e_cred_ref e)) g)
         | Inr s \<Rightarrow> (Ok s, emit (EffResolve (e_cred_ref e)) g)))"

text \<open>
  \<^verbatim>\<open>Instant::now() + ttl\<close> panics when the sum leaves the 63 bits of seconds of the clock; by
  then the backend is connected.
\<close>

definition instant_overflows :: "nat \<Rightarrow> u64 \<Rightarrow> bool" where
  "instant_overflows now ttl_secs \<longleftrightarrow> 2 ^ 63 \<le> now div 1000000000 + unat ttl_secs"

definition session_opened ::
    "gateway_env \<Rightarrow> json \<Rightarrow> string \<Rightarrow> envelope \<Rightarrow> decision \<Rightarrow> nat \<Rightarrow> gateway \<Rightarrow> json option \<times> gateway" where
  "session_opened env message agent e d channel g =
     (let ttl = default_session_ttl g (Option.bind (e_constraints e) c_session_ttl_s) in
      if instant_overflows (ge_mono env) ttl then (None, g)
      else (case session_insert (ge_crypto env) (ge_handle env) agent (e_mechanism e) (t_uri (e_target e))
                   (t_label (e_target e)) channel (unat ttl * 1000000000) (ge_mono env) (gw_sessions g) of
        ((handle, _), t) \<Rightarrow>
          (case audit_decision env e (effect_str (d_effect d)) (d_notify_on_use d) (SessionOpened handle)
                  (g\<lparr>gw_sessions := t\<rparr>) of
             (seq, g1) \<Rightarrow>
               (Some (JObj [(''type'', JStr ''result''), (''decision'', JStr (effect_str (d_effect d))),
                  (''session_handle'', JStr handle), (''session_ttl'', u64_to_value ttl),
                  (''audit_id'', JStr (audit_id (case seq of None \<Rightarrow> 0 | Some n \<Rightarrow> n))),
                  (''msg_id'', msg_id_of message)]), g1))))"

definition open_session ::
    "gateway_env \<Rightarrow> json \<Rightarrow> string \<Rightarrow> envelope \<Rightarrow> decision \<Rightarrow> gateway \<Rightarrow> json option \<times> gateway" where
  "open_session env message agent e d g =
     (if e_mechanism e \<notin> set (gw_backends g) then
        refuse env message e d MechanismError ''E_MECHANISM'' (no_backend_reason (e_mechanism e)) g
      else (case session_secret env e d g of
        (Inl (out, code, reason), g1) \<Rightarrow> refuse env message e d out code reason g1
      | (Inr secret, g1) \<Rightarrow>
          (let g2 = emit (EffConnect (e_mechanism e) (t_uri (e_target e)) (e_operation e) secret) g1 in
           (case ge_connect env (e_mechanism e) (t_uri (e_target e)) (e_operation e) secret of
              None \<Rightarrow> (None, g2)
            | Some (Inl er) \<Rightarrow>
                refuse env message e d MechanismError ''E_MECHANISM'' (''session establishment failed: '' @ er) g2
            | Some (Inr channel) \<Rightarrow> session_opened env message agent e d channel g2))))"

section \<open>Session frames\<close>

datatype session_frame_kind = Command | CloseFrame

fun number_outputs :: "(bytes \<Rightarrow> string) \<Rightarrow> session_entry \<Rightarrow> output_chunk list \<Rightarrow> json list \<times> session_entry" where
  "number_outputs b64 entry [] = ([], entry)"
| "number_outputs b64 entry (c # cs) =
     (case next_out_seq entry of
        (n, entry1) \<Rightarrow>
          (case number_outputs b64 entry1 cs of
             (vs, entry2) \<Rightarrow>
               (JObj [(''seq'', u64_to_value n), (''stream'', JStr (oc_stream c)), (''data_b64'', JStr (b64 (oc_data c)))] # vs,
                entry2)))"

definition session_closed_event :: "gateway \<Rightarrow> string \<Rightarrow> json \<Rightarrow> string \<Rightarrow> string \<Rightarrow> int option \<Rightarrow> audit_event" where
  "session_closed_event g agent message mechanism reason exit_code =
     \<lparr>ev_record_kind = IntentDecision, ev_ruleset_hash = gw_ruleset_hash g, ev_agent_id = agent,
      ev_sponsor_id = sponsor_or_empty g agent, ev_msg_id = or_empty (get_str message ''msg_id''),
      ev_mechanism = mechanism, ev_target_uri = [], ev_target_label = [], ev_cred_ref = [], ev_effect = ''allow'',
      ev_outcome = SessionClosed reason exit_code, ev_intent_envelope = message\<rparr>"

text \<open>Ending a session that its owner still holds: shut the channel, report, forget.\<close>

definition end_session :: "gateway_env \<Rightarrow> string \<Rightarrow> string \<Rightarrow> gateway \<Rightarrow> gateway" where
  "end_session env handle agent g =
     (case session_take (gw_sessions g) handle agent of
        (None, _) \<Rightarrow> g
      | (Some entry, t) \<Rightarrow>
          broadcast_session_event (ge_mono env) ''session.summary'' handle entry
            (emit (EffShutdown (se_channel entry)) (g\<lparr>gw_sessions := t\<rparr>)))"

definition close_session :: "gateway_env \<Rightarrow> json \<Rightarrow> string \<Rightarrow> string \<Rightarrow> gateway \<Rightarrow> json option \<times> gateway" where
  "close_session env message agent handle g =
     (if fst (session_take (gw_sessions g) handle agent) = None then
        (Some (gw_error message ''E_SESSION_EXPIRED'' ''unknown or expired session_handle''), g)
      else (let g1 = end_session env handle agent g in
        (case gw_append env (session_closed_event g1 agent message ''session.close'' ''client_close'' None) g1 of
           (seq, g2) \<Rightarrow>
             (Some (JObj [(''type'', JStr ''session.closed''), (''session_handle'', JStr handle),
                (''reason'', JStr ''client_close''), (''exit_code'', JNull),
                (''audit_id'', JStr (audit_id (case seq of None \<Rightarrow> 0 | Some n \<Rightarrow> n))), (''msg_id'', msg_id_of message)]), g2))))"

definition base64_std_decode :: "http_env \<Rightarrow> string \<Rightarrow> bytes" where
  "base64_std_decode env txt = (case he_unb64 env (trim txt) of None \<Rightarrow> [] | Some b \<Rightarrow> b)"

definition relay_output ::
    "gateway_env \<Rightarrow> json \<Rightarrow> string \<Rightarrow> string \<Rightarrow> session_entry \<Rightarrow> nat \<Rightarrow> gateway \<Rightarrow> json option \<times> gateway" where
  "relay_output env message agent handle entry in_len g =
     (let batch = ge_batch env (se_channel entry);
          entry1 = record_relay entry in_len (sum_list (map (\<lambda>c. length (oc_data c)) (ob_chunks batch))) in
      (case number_outputs (he_b64 (ge_http env)) entry1 (ob_chunks batch) of
         (outputs, entry2) \<Rightarrow>
           (let g1 = emit (EffRead (se_channel entry)) (g\<lparr>gw_sessions := session_update handle entry2 (gw_sessions g)\<rparr>) in
            if ob_closed batch then
              (let g2 = end_session env handle agent g1 in
               (case gw_append env (session_closed_event g2 agent message ''session.command'' ''exited'' (ob_exit_code batch)) g2 of
                  (seq, g3) \<Rightarrow>
                    (Some (JObj [(''type'', JStr ''session.output''), (''session_handle'', JStr handle),
                       (''outputs'', JArr outputs), (''closed'', JBool True),
                       (''exit_code'', (case ob_exit_code batch of None \<Rightarrow> JNull | Some k \<Rightarrow> JInt k)),
                       (''audit_id'', JStr (audit_id (case seq of None \<Rightarrow> 0 | Some n \<Rightarrow> n))),
                       (''msg_id'', msg_id_of message)]), g3)))
            else (Some (JObj [(''type'', JStr ''session.output''), (''session_handle'', JStr handle),
                    (''outputs'', JArr outputs), (''closed'', JBool False), (''msg_id'', msg_id_of message)]), g1))))"

definition command_session :: "gateway_env \<Rightarrow> json \<Rightarrow> string \<Rightarrow> string \<Rightarrow> gateway \<Rightarrow> json option \<times> gateway" where
  "command_session env message agent handle g =
     (let input = (case get_str message ''input_b64'' of None \<Rightarrow> [] | Some b \<Rightarrow> base64_std_decode (ge_http env) b) in
      (case session_access (gw_sessions g) handle agent (ge_mono env) of
         Inl (code, reason) \<Rightarrow> (Some (gw_error message code reason), g)
       | Inr (entry, _) \<Rightarrow>
           (let g1 = emit (EffWrite (se_channel entry) input) g in
            (case ge_write env (se_channel entry) input of
               Inl er \<Rightarrow> (Some (gw_error message ''E_MECHANISM'' (''channel write failed: '' @ er)), g1)
             | Inr _ \<Rightarrow> relay_output env message agent handle entry (length input) g1))))"

definition gw_verify :: "gateway_env \<Rightarrow> json \<Rightarrow> gateway \<Rightarrow> (identity_error, verified_intent) result \<times> gateway" where
  "gw_verify env message g =
     (case verify (ge_attest env) (ge_replay_io env) (gw_attestor g) message (ge_now env) of
        (r, rc) \<Rightarrow> (r, g\<lparr>gw_attestor := (gw_attestor g)\<lparr>replay := rc\<rparr>\<rparr>))"

definition identity_text :: "identity_error \<Rightarrow> string" where
  "identity_text er = identity_reason debug_str er"

definition handle_session_frame :: "gateway_env \<Rightarrow> session_frame_kind \<Rightarrow> json \<Rightarrow> gateway \<Rightarrow> json option \<times> gateway" where
  "handle_session_frame env kind message g =
     (case gw_verify env message g of
        (Inl er, g1) \<Rightarrow> (Some (gw_error message (error_code_str (identity_error_code er)) (identity_text er)), g1)
      | (Inr v, g1) \<Rightarrow>
          (case get_str message ''session_handle'' of
             None \<Rightarrow> (Some (gw_error message ''E_SESSION_EXPIRED'' ''frame carries no session_handle''), g1)
           | Some handle \<Rightarrow>
               (case kind of
                  CloseFrame \<Rightarrow> close_session env message (v_agent_id v) handle g1
                | Command \<Rightarrow> command_session env message (v_agent_id v) handle g1)))"

section \<open>Intents\<close>

definition policy_request :: "string \<Rightarrow> envelope \<Rightarrow> request" where
  "policy_request agent e = \<lparr>q_agent_id = agent, q_cred_ref = e_cred_ref e, q_target_uri = t_uri (e_target e),
     q_mechanism = e_mechanism e, q_declared = e_constraints e\<rparr>"

definition deny_reason :: "decision \<Rightarrow> string" where
  "deny_reason d = (case d_source d of
     DefaultDeny \<Rightarrow> ''no policy rule permits this action (default-deny)''
   | FromRule _ _ _ \<Rightarrow> ''denied by '' @ source_label (d_source d))"

definition one_shot :: "string list" where
  "one_shot = [''http-bearer'', ''http-basic'', ''db-scram'']"

definition confirm_for :: "string \<Rightarrow> envelope \<Rightarrow> string \<Rightarrow> confirm_context" where
  "confirm_for agent e summary = \<lparr>cx_agent_id = agent, cx_target_label = t_label (e_target e),
     cx_target_uri = t_uri (e_target e), cx_mechanism = e_mechanism e, cx_summary = summary\<rparr>"

definition ask_human :: "gateway_env \<Rightarrow> confirm_context \<Rightarrow> gateway \<Rightarrow> confirm_outcome \<times> gateway" where
  "ask_human env ctx g = (ge_confirm env ctx, emit (EffConfirm ctx (ge_confirm env ctx)) g)"

text \<open>
  The effect that governs a session mechanism: \<^verbatim>\<open>local-privilege\<close> is raised to the human gate
  unless the allowlist pins the command; with it the summary for the prompt.
\<close>

definition session_gate :: "envelope \<Rightarrow> decision \<Rightarrow> gateway \<Rightarrow> effect \<times> string" where
  "session_gate e d g =
     (if e_mechanism e = ''local-privilege'' then
        (let command = or_empty (get_str (e_operation e) ''command'');
             args = string_args (e_operation e) ''args'';
             pinned = (case gw_privilege g of None \<Rightarrow> False | Some al \<Rightarrow> privilege_permits al command args) in
         (if \<not> pinned \<and> d_effect d = Allow then NeedsConfirmation else d_effect d,
          ''run '' @ command @ '' '' @ join_with '' '' args))
      else (d_effect d, []))"

definition route_session ::
    "gateway_env \<Rightarrow> json \<Rightarrow> string \<Rightarrow> envelope \<Rightarrow> decision \<Rightarrow> gateway \<Rightarrow> json option \<times> gateway" where
  "route_session env message agent e d g =
     (if e_mechanism e \<in> {''ssh'', ''local-privilege''} then
        (if e_mechanism e \<notin> set (gw_backends g) then
           refuse env message e d MechanismError ''E_MECHANISM'' (no_backend_reason (e_mechanism e)) g
         else (case session_gate e d g of
           (eff, summary) \<Rightarrow>
             if eff = NeedsConfirmation then
               (case ask_human env (confirm_for agent e (if summary = [] then ''operation'' else summary)) g of
                  (Approved, g1) \<Rightarrow> open_session env message agent e d g1
                | (_, g1) \<Rightarrow> refuse env message e d ConfirmationTimeout ''E_CONFIRM_TIMEOUT''
                    ''the human gate did not approve this privileged action'' g1)
             else open_session env message agent e d g))
      else refuse env message e d MechanismError ''E_MECHANISM''
        (''mechanism '' @ debug_str (e_mechanism e) @ '' is not available in this build'') g)"

definition operation_summary :: "json \<Rightarrow> string" where
  "operation_summary v =
     (case http_operation_from_value v of
        Some op \<Rightarrow> http_summary op
      | None \<Rightarrow> (case db_operation_from_value v of Some op \<Rightarrow> db_summary op | None \<Rightarrow> ''operation''))"

definition with_members :: "(string \<times> json) list \<Rightarrow> json \<Rightarrow> json" where
  "with_members kvs v = (case v of
     JObj obj \<Rightarrow> JObj (foldl (\<lambda>ob (k, x). obj_insert k x ob) obj kvs) | w \<Rightarrow> w)"

definition run_db ::
    "gateway_env \<Rightarrow> json \<Rightarrow> string \<Rightarrow> envelope \<Rightarrow> decision \<Rightarrow> gateway \<Rightarrow> json option \<times> gateway" where
  "run_db env message agent e d g =
     (case db_operation_from_value (e_operation e) of
        None \<Rightarrow> refuse env message e d MechanismError ''E_MECHANISM''
          (''operation body invalid: '' @ ge_serde_error env (e_operation e)) g
      | Some op \<Rightarrow>
          if db_statement op = None then open_session env message agent e d g
          else (let g1 = emit (EffResolve (e_cred_ref e)) g in
            (case router_resolve (gw_router g) (e_cred_ref e) of
               Inl er \<Rightarrow> refuse env message e d CredentialUnresolved ''E_CRED_UNRESOLVED'' (resolve_error_text er) g1
             | Inr secret \<Rightarrow>
                 (let g2 = emit (EffSql (t_uri (e_target e)) (db_operation_to_value op) secret) g1 in
                  (case execute_one_shot (ge_pg env) (t_uri (e_target e)) (db_operation_to_value op) secret of
                     Inl er \<Rightarrow> refuse env message e d MechanismError ''E_MECHANISM'' er g2
                   | Inr result \<Rightarrow>
                       (case audit_decision env e (effect_str (d_effect d)) (d_notify_on_use d) Proceeded g2 of
                          (seq, g3) \<Rightarrow>
                            (Some (with_members [(''decision'', JStr (effect_str (d_effect d))),
                               (''msg_id'', msg_id_of message),
                               (''audit_id'', JStr (audit_id (case seq of None \<Rightarrow> 0 | Some n \<Rightarrow> n)))] result), g3)))))))"

definition object_from_pairs :: "(string \<times> string) list \<Rightarrow> json" where
  "object_from_pairs pairs = JObj (foldl (\<lambda>ob (k, v). obj_insert k (JStr v) ob) [] pairs)"

definition limits_of :: "gateway \<Rightarrow> decision \<Rightarrow> http_limits" where
  "limits_of g d = \<lparr>
     hl_max_response_bytes = unat (case max_response_bytes (d_limits d) of
       None \<Rightarrow> gc_default_max_response_bytes (gw_config g) | Some b \<Rightarrow> b),
     hl_timeout_secs = unat (gc_default_timeout_secs (gw_config g))\<rparr>"

definition run_http ::
    "gateway_env \<Rightarrow> json \<Rightarrow> envelope \<Rightarrow> decision \<Rightarrow> gateway \<Rightarrow> json option \<times> gateway" where
  "run_http env message e d g =
     (case http_operation_from_value (e_operation e) of
        None \<Rightarrow> refuse env message e d MechanismError ''E_MECHANISM''
          (''operation body invalid: '' @ ge_serde_error env (e_operation e)) g
      | Some op \<Rightarrow>
          if has_agent_authorization op then
            refuse env message e d MechanismError ''E_MECHANISM''
              ''agents do not supply Authorization headers; name a cred_ref instead'' g
          else (let g1 = emit (EffResolve (e_cred_ref e)) g in
            (case router_resolve (gw_router g) (e_cred_ref e) of
               Inl er \<Rightarrow> refuse env message e d CredentialUnresolved ''E_CRED_UNRESOLVED'' (resolve_error_text er) g1
             | Inr secret \<Rightarrow>
                 (let limits = limits_of g d;
                      g2 = emit (EffInject (e_mechanism e) (t_uri (e_target e)) op secret limits) g1 in
                  (case execute (ge_http env) (e_mechanism e) (t_uri (e_target e)) op secret limits of
                     Inl er \<Rightarrow> refuse env message e d MechanismError ''E_MECHANISM'' (injector_error_text er) g2
                   | Inr resp \<Rightarrow>
                       (case audit_decision env e (effect_str (d_effect d)) (d_notify_on_use d) Proceeded g2 of
                          (seq, g3) \<Rightarrow>
                            (Some (JObj [(''type'', JStr ''result''), (''decision'', JStr (effect_str (d_effect d))),
                               (''status'', JInt (int (rs_status resp))), (''headers'', object_from_pairs (rs_headers resp)),
                               (''body_b64'', JStr (he_b64 (ge_http env) (rs_body resp))),
                               (''audit_id'', JStr (audit_id (case seq of None \<Rightarrow> 0 | Some n \<Rightarrow> n))),
                               (''msg_id'', msg_id_of message)]), g3)))))))"

definition broker ::
    "gateway_env \<Rightarrow> json \<Rightarrow> string \<Rightarrow> envelope \<Rightarrow> decision \<Rightarrow> gateway \<Rightarrow> json option \<times> gateway" where
  "broker env message agent e d g =
     (if e_mechanism e = ''db-scram'' then run_db env message agent e d g else run_http env message e d g)"

definition route_one_shot ::
    "gateway_env \<Rightarrow> json \<Rightarrow> string \<Rightarrow> envelope \<Rightarrow> decision \<Rightarrow> gateway \<Rightarrow> json option \<times> gateway" where
  "route_one_shot env message agent e d g =
     (if d_effect d = NeedsConfirmation then
        (case ask_human env (confirm_for agent e (operation_summary (e_operation e))) g of
           (Approved, g1) \<Rightarrow> broker env message agent e d g1
         | (_, g1) \<Rightarrow> refuse env message e d ConfirmationTimeout ''E_CONFIRM_TIMEOUT''
             ''the human gate did not approve this action'' g1)
      else broker env message agent e d g)"

definition decide_intent :: "gateway_env \<Rightarrow> json \<Rightarrow> string \<Rightarrow> envelope \<Rightarrow> gateway \<Rightarrow> json option \<times> gateway" where
  "decide_intent env message agent e g =
     (let d = evaluate (gw_policy g) (policy_request agent e) in
      if d_effect d = Deny then refuse env message e d OutDenied ''E_DENIED'' (deny_reason d) g
      else if e_mechanism e \<notin> set one_shot then route_session env message agent e d g
      else route_one_shot env message agent e d g)"

definition handle_intent :: "gateway_env \<Rightarrow> json \<Rightarrow> gateway \<Rightarrow> json option \<times> gateway" where
  "handle_intent env message g =
     (case gw_verify env message g of
        (Inl er, g1) \<Rightarrow>
          (Some (gw_error message (error_code_str (identity_error_code er)) (identity_text er)),
           audit_identity_failure env message (identity_error_code er) g1)
      | (Inr v, g1) \<Rightarrow>
          (case envelope_from_value (v_envelope v) of
             None \<Rightarrow> (Some (gw_error message ''E_MECHANISM''
               (''signed intent failed schema validation: '' @ ge_serde_error env (v_envelope v))), g1)
           | Some e \<Rightarrow> decide_intent env message (v_agent_id v) e g1))"

section \<open>The gateway as a whole\<close>

definition gateway_assemble ::
    "attestor \<Rightarrow> policy \<Rightarrow> vault_router \<Rightarrow> audit_writer \<Rightarrow> gateway_config \<Rightarrow> gateway" where
  "gateway_assemble at p r w config = \<lparr>gw_attestor = at, gw_policy = p, gw_router = r, gw_audit = w, gw_config = config,
     gw_sessions = session_table_new, gw_backends = [], gw_privilege = None, gw_ruleset_hash = source_hash_hex p,
     gw_event_hub = False, gw_halted = False, gw_halt_reason = None, gw_ssh_ca = None, gw_effects = []\<rparr>"

definition policy_load_event :: "policy \<Rightarrow> audit_event" where
  "policy_load_event p = \<lparr>ev_record_kind = PolicyLoad, ev_ruleset_hash = source_hash_hex p, ev_agent_id = [],
     ev_sponsor_id = [], ev_msg_id = [], ev_mechanism = ''policy'', ev_target_uri = [], ev_target_label = [],
     ev_cred_ref = [], ev_effect = ''allow'', ev_outcome = Proceeded, ev_intent_envelope = JNull\<rparr>"

definition gateway_new ::
    "gateway_env \<Rightarrow> client_error option \<Rightarrow> attestor \<Rightarrow> policy \<Rightarrow> vault_router \<Rightarrow> audit_writer \<Rightarrow> gateway_config \<Rightarrow>
     (injector_error, gateway) result" where
  "gateway_new env client_failure at p r w config =
     (case client_failure of
        Some ce \<Rightarrow> Err (Transport (classify ce))
      | None \<Rightarrow>
          (case gw_append env (policy_load_event p) (gateway_assemble at p r w config) of
             (None, _) \<Rightarrow> Err (Transport AuditAppendFailed)
           | (Some _, g) \<Rightarrow> Ok g))"

definition halt :: "string \<Rightarrow> gateway \<Rightarrow> gateway" where
  "halt reason g = (if gw_halt_reason g = None then g\<lparr>gw_halt_reason := Some reason, gw_halted := True\<rparr> else g)"

definition with_ssh_ca :: "ca_context \<Rightarrow> gateway \<Rightarrow> gateway" where
  "with_ssh_ca ca g = g\<lparr>gw_ssh_ca := Some ca\<rparr>"

definition set_privilege_allowlist :: "privilege_allowlist \<Rightarrow> gateway \<Rightarrow> gateway" where
  "set_privilege_allowlist al g = g\<lparr>gw_privilege := Some al\<rparr>"

definition with_event_hub :: "gateway \<Rightarrow> gateway" where
  "with_event_hub g = g\<lparr>gw_event_hub := True\<rparr>"

definition with_session_backend :: "string \<Rightarrow> gateway \<Rightarrow> gateway" where
  "with_session_backend mechanism g = g\<lparr>gw_backends := List.insert mechanism (gw_backends g)\<rparr>"

definition handle_message :: "gateway_env \<Rightarrow> json \<Rightarrow> gateway \<Rightarrow> json option \<times> gateway" where
  "handle_message env message g =
     (if gw_halted g then
        (Some (gw_error message ''E_GATEWAY_HALTED''
           (case gw_halt_reason g of None \<Rightarrow> ''gateway halted'' | Some r \<Rightarrow> r)), g)
      else if get_str message ''type'' = Some ''intent'' then handle_intent env message g
      else if get_str message ''type'' = Some ''session.command'' then handle_session_frame env Command message g
      else if get_str message ''type'' = Some ''session.close'' then handle_session_frame env CloseFrame message g
      else (Some (gw_error message ''E_MECHANISM'' ''unsupported message type''), g))"

definition reap_session :: "nat \<Rightarrow> gateway \<Rightarrow> string \<times> session_entry \<Rightarrow> gateway" where
  "reap_session now g he = broadcast_session_event now ''session.summary'' (fst he) (snd he)
     (emit (EffShutdown (se_channel (snd he))) g)"

definition beat_session :: "nat \<Rightarrow> nat \<Rightarrow> gateway \<Rightarrow> string \<times> session_entry \<Rightarrow> gateway" where
  "beat_session threshold now g he =
     (case heartbeat_due (snd he) threshold now of
        (due, entry) \<Rightarrow>
          (let g1 = g\<lparr>gw_sessions := session_update (fst he) entry (gw_sessions g)\<rparr> in
           if due then broadcast_session_event now ''session.heartbeat'' (fst he) entry g1 else g1))"

definition emit_session_heartbeats :: "nat \<Rightarrow> gateway \<Rightarrow> gateway" where
  "emit_session_heartbeats now g =
     (case reap_expired (gw_sessions g) now of
        (dead, t) \<Rightarrow>
          (let g1 = foldl (reap_session now) (g\<lparr>gw_sessions := t\<rparr>) dead;
               threshold = unat (gc_session_heartbeat_secs (gw_config g)) * 1000000000 in
           if threshold = 0 then g1
           else foldl (beat_session threshold now) g1 (session_snapshot (gw_sessions g1))))"

end
