(* ===== verification/Brokering.thy ===== *)
theory Brokering
  imports Gateway
begin

text \<open>
  What the gateway's handlers may do: the shape of the trace of effects of one intent (ask, spend,
  record, tell), and with it the guarantees that span the components.
\<close>

section \<open>Traces\<close>

fun audits :: "gateway_effect list \<Rightarrow> audit_event list" where
  "audits [] = []"
| "audits (EffAudit ev # xs) = ev # audits xs"
| "audits (_ # xs) = audits xs"

definition journal_all :: "gateway_env \<Rightarrow> audit_writer \<Rightarrow> audit_event list \<Rightarrow> audit_writer" where
  "journal_all env w evs =
     foldl (\<lambda>w ev. snd (audit_append (ge_crypto env) (ge_audit_fault env) (ge_audit_ts env) ev w)) w evs"

text \<open>
  \<open>evolves env g xs g'\<close>: from \<open>g\<close> the gateway performs the effects \<open>xs\<close>, the journal takes the
  records among them in that order, and nothing but the session table changes besides.
\<close>

definition evolves :: "gateway_env \<Rightarrow> gateway \<Rightarrow> gateway_effect list \<Rightarrow> gateway \<Rightarrow> bool" where
  "evolves env g xs g' \<longleftrightarrow>
     gw_effects g' = gw_effects g @ xs \<and> gw_audit g' = journal_all env (gw_audit g) (audits xs) \<and>
     g' = g\<lparr>gw_audit := gw_audit g', gw_sessions := gw_sessions g', gw_effects := gw_effects g'\<rparr>"

text \<open>The record of a decision and, for denials and flagged rules, its line on the feed.\<close>

definition report :: "gateway_env \<Rightarrow> envelope \<Rightarrow> decision \<Rightarrow> outcome \<Rightarrow> gateway \<Rightarrow> gateway_effect list" where
  "report env e d out g =
     (let ev = decision_event g e (effect_str (d_effect d)) out in
      EffAudit ev #
      (if (d_effect d = Deny \<or> d_notify_on_use d) \<and> gw_event_hub g
       then [EffBroadcast (decision_line (case fst (gw_append env ev g) of None \<Rightarrow> 0 | Some n \<Rightarrow> n) ev)] else []))"

text \<open>How a response must match the recorded outcome.\<close>

definition granted :: "json \<Rightarrow> decision \<Rightarrow> nat option \<Rightarrow> json \<Rightarrow> bool" where
  "granted message d seq v \<longleftrightarrow>
     get_str v ''type'' = Some ''result'' \<and> get_str v ''decision'' = Some (effect_str (d_effect d)) \<and>
     get_str v ''audit_id'' = Some (audit_id (case seq of None \<Rightarrow> 0 | Some n \<Rightarrow> n)) \<and>
     json_get v ''msg_id'' = Some (msg_id_of message)"

definition refused_with :: "json \<Rightarrow> string \<Rightarrow> json \<Rightarrow> bool" where
  "refused_with message code v \<longleftrightarrow> (\<exists>reason. v = gw_error message code reason)"

fun answers :: "json \<Rightarrow> decision \<Rightarrow> nat option \<Rightarrow> outcome \<Rightarrow> json \<Rightarrow> bool" where
  "answers message d seq OutDenied v = (d_effect d = Deny \<and> refused_with message ''E_DENIED'' v)"
| "answers message d seq ConfirmationTimeout v = refused_with message ''E_CONFIRM_TIMEOUT'' v"
| "answers message d seq CredentialUnresolved v = refused_with message ''E_CRED_UNRESOLVED'' v"
| "answers message d seq MechanismError v = refused_with message ''E_MECHANISM'' v"
| "answers message d seq Proceeded v = granted message d seq v"
| "answers message d seq (SessionOpened h) v = (granted message d seq v \<and> get_str v ''session_handle'' = Some h)"
| "answers message d seq _ v = False"

definition settles ::
    "gateway_env \<Rightarrow> json \<Rightarrow> envelope \<Rightarrow> decision \<Rightarrow> gateway \<Rightarrow> gateway_effect list \<Rightarrow> json option \<times> gateway \<Rightarrow> bool" where
  "settles env message e d g uses res \<longleftrightarrow>
     (case fst res of
        None \<Rightarrow> evolves env g uses (snd res)
      | Some v \<Rightarrow>
          (\<exists>out. evolves env g (uses @ report env e d out g) (snd res) \<and>
             answers message d (fst (gw_append env (decision_event g e (effect_str (d_effect d)) out) g)) out v))"

text \<open>The effects that reach for a credential or spend one.\<close>

fun uses_credential :: "gateway_effect \<Rightarrow> bool" where
  "uses_credential (EffResolve _) = True"
| "uses_credential (EffMint _) = True"
| "uses_credential (EffConnect _ _ _ _) = True"
| "uses_credential (EffSql _ _ _) = True"
| "uses_credential (EffInject _ _ _ _ _) = True"
| "uses_credential _ = False"

text \<open>
  What an intent licenses: resolving or minting its own credential reference, and handing the
  result to its own mechanism, at its own target, with its own operation.
\<close>

definition obtained :: "gateway_env \<Rightarrow> gateway \<Rightarrow> envelope \<Rightarrow> decision \<Rightarrow> string \<Rightarrow> bool" where
  "obtained env g e d s \<longleftrightarrow>
     (if starts_with (e_cred_ref e) ''ca://''
      then \<exists>ca. gw_ssh_ca g = Some ca \<and> mint_session_secret env e d ca g = Ok s
      else router_resolve (gw_router g) (e_cred_ref e) = Ok s)"

fun licensed :: "gateway_env \<Rightarrow> gateway \<Rightarrow> envelope \<Rightarrow> decision \<Rightarrow> gateway_effect \<Rightarrow> bool" where
  "licensed env g e d (EffResolve ref) = (ref = e_cred_ref e)"
| "licensed env g e d (EffMint ref) = (ref = e_cred_ref e)"
| "licensed env g e d (EffConnect mech uri op s) =
     (mech = e_mechanism e \<and> uri = t_uri (e_target e) \<and> op = e_operation e \<and> obtained env g e d s)"
| "licensed env g e d (EffSql uri op s) =
     (e_mechanism e = ''db-scram'' \<and> uri = t_uri (e_target e) \<and>
      map_option db_operation_to_value (db_operation_from_value (e_operation e)) = Some op \<and>
      router_resolve (gw_router g) (e_cred_ref e) = Ok s)"
| "licensed env g e d (EffInject mech uri op s limits) =
     (mech = e_mechanism e \<and> mech \<in> {''http-bearer'', ''http-basic''} \<and> uri = t_uri (e_target e) \<and>
      http_operation_from_value (e_operation e) = Some op \<and> \<not> has_agent_authorization op \<and>
      limits = limits_of g d \<and> router_resolve (gw_router g) (e_cred_ref e) = Ok s)"
| "licensed env g e d _ = False"

text \<open>When the human must say yes.\<close>

definition human_needed :: "gateway \<Rightarrow> envelope \<Rightarrow> decision \<Rightarrow> bool" where
  "human_needed g e d \<longleftrightarrow> d_effect d = NeedsConfirmation \<or>
     e_mechanism e = ''local-privilege'' \<and>
       \<not> (\<exists>al. gw_privilege g = Some al \<and>
            privilege_permits al (or_empty (get_str (e_operation e) ''command'')) (string_args (e_operation e) ''args''))"

section \<open>Composing traces\<close>

lemma audits_append [simp]: "audits (xs @ ys) = audits xs @ audits ys"
  by (induction xs rule: audits.induct) auto

lemma journal_all_append: "journal_all env w (xs @ ys) = journal_all env (journal_all env w xs) ys"
  by (simp add: journal_all_def)

lemma evolves_refl: "evolves env g [] g"
  by (simp add: evolves_def journal_all_def)

lemma evolves_trans: "evolves env g xs g1 \<Longrightarrow> evolves env g1 ys g2 \<Longrightarrow> evolves env g (xs @ ys) g2"
  unfolding evolves_def by (cases g; cases g1; cases g2) (auto simp: journal_all_append)

lemma evolves_emit: "audits [x] = [] \<Longrightarrow> evolves env g [x] (emit x g)"
  by (simp add: evolves_def emit_def journal_all_def)

lemma evolves_sessions: "evolves env g [] (g\<lparr>gw_sessions := t\<rparr>)"
  by (simp add: evolves_def journal_all_def)

lemma gw_append_evolves: "evolves env g [EffAudit ev] (snd (gw_append env ev g))"
  by (simp add: evolves_def gw_append_def emit_def journal_all_def split: prod.split)

lemma broadcast_evolves:
  "evolves env g (if gw_event_hub g then [EffBroadcast v] else []) (broadcast_json v g)"
  by (simp add: broadcast_json_def evolves_emit evolves_refl)

text \<open>What the trace of a decision reads of the state.\<close>

lemma evolves_frame:
  assumes "evolves env g xs g'"
  shows "gw_attestor g' = gw_attestor g" "gw_policy g' = gw_policy g" "gw_router g' = gw_router g"
    "gw_config g' = gw_config g" "gw_backends g' = gw_backends g" "gw_privilege g' = gw_privilege g"
    "gw_ruleset_hash g' = gw_ruleset_hash g" "gw_event_hub g' = gw_event_hub g" "gw_halted g' = gw_halted g"
    "gw_halt_reason g' = gw_halt_reason g" "gw_ssh_ca g' = gw_ssh_ca g"
proof -
  have eq: "g' = g\<lparr>gw_audit := gw_audit g', gw_sessions := gw_sessions g', gw_effects := gw_effects g'\<rparr>"
    using assms unfolding evolves_def by blast
  show "gw_attestor g' = gw_attestor g" "gw_policy g' = gw_policy g" "gw_router g' = gw_router g"
    "gw_config g' = gw_config g" "gw_backends g' = gw_backends g" "gw_privilege g' = gw_privilege g"
    "gw_ruleset_hash g' = gw_ruleset_hash g" "gw_event_hub g' = gw_event_hub g" "gw_halted g' = gw_halted g"
    "gw_halt_reason g' = gw_halt_reason g" "gw_ssh_ca g' = gw_ssh_ca g"
    by (subst eq, simp)+
qed

lemma evolves_quiet:
  assumes "evolves env g xs g'" "audits xs = []"
  shows "gw_audit g' = gw_audit g"
  using assms by (simp add: evolves_def journal_all_def)

lemma effect_str_Deny [simp]: "effect_str x = ''deny'' \<longleftrightarrow> x = Deny"
  by (cases x) auto

lemma gw_append_fst:
  "gw_audit g' = gw_audit g \<Longrightarrow> fst (gw_append env ev g') = fst (gw_append env ev g)"
  by (simp add: gw_append_def split: prod.split)

lemma audit_decision_evolves:
  "evolves env g (report env e d out g)
     (snd (audit_decision env e (effect_str (d_effect d)) (d_notify_on_use d) out g))"
proof -
  let ?ev = "decision_event g e (effect_str (d_effect d)) out"
  let ?g = "snd (gw_append env ?ev g)"
  have "evolves env g [EffAudit ?ev] ?g" by (rule gw_append_evolves)
  then show ?thesis
    using evolves_trans [OF _ broadcast_evolves, of env g "[EffAudit ?ev]" ?g]
    by (auto simp: audit_decision_def report_def Let_def evolves_frame split: prod.split)
qed

lemma audit_decision_fst:
  "fst (audit_decision env e eff n out g) = fst (gw_append env (decision_event g e eff out) g)"
  by (simp add: audit_decision_def Let_def split: prod.split)

lemma report_cong:
  assumes "evolves env g xs g'" "audits xs = []"
  shows "report env e d out g' = report env e d out g"
    "decision_event g' e eff out = decision_event g e eff out"
    "fst (gw_append env ev g') = fst (gw_append env ev g)"
  using evolves_frame [OF assms(1)] gw_append_fst [OF evolves_quiet [OF assms]]
  by (simp_all add: report_def decision_event_def sponsor_or_empty_def Let_def)

lemma licensed_quiet: "list_all (licensed env g e d) uses \<Longrightarrow> audits uses = []"
proof (induction uses)
  case (Cons x xs)
  then show ?case by (cases x) auto
qed simp

lemma licensed_cong:
  assumes "evolves env g xs g'"
  shows "licensed env g' e d = licensed env g e d"
proof
  fix x
  have "default_session_ttl g' = default_session_ttl g"
    using evolves_frame [OF assms] by (auto simp: default_session_ttl_def fun_eq_iff split: option.split)
  then have "mint_session_secret env e d ca g' = mint_session_secret env e d ca g" for ca
    by (simp add: mint_session_secret_def split: sum.split option.split)
  then show "licensed env g' e d x = licensed env g e d x"
    using evolves_frame [OF assms] by (cases x) (simp_all add: obtained_def limits_of_def split: option.split)
qed

section \<open>Each path of an intent\<close>

text \<open>Effects before a path that settles are effects of the whole.\<close>

lemma settles_after:
  assumes "evolves env g xs g1" "audits xs = []" "settles env message e d g1 uses res"
  shows "settles env message e d g (xs @ uses) res"
proof (cases "fst res")
  case None
  then show ?thesis using assms(3) evolves_trans [OF assms(1)] by (simp add: settles_def)
next
  case (Some v)
  then show ?thesis
    using assms(3) evolves_trans [OF assms(1)] report_cong [OF assms(1,2)] by (auto simp: settles_def)
qed

lemma settles_emit:
  assumes "settles env message e d (emit x g) uses res" "audits [x] = []"
  shows "settles env message e d g (x # uses) res"
  using settles_after [OF evolves_emit [OF assms(2)] assms(2,1)] by simp

lemma refuse_settles:
  assumes "\<And>seq. answers message d seq out (gw_error message code reason)"
  shows "settles env message e d g [] (refuse env message e d out code reason g)"
  using assms audit_decision_evolves [of env g e d out] by (auto simp: settles_def refuse_def)

lemma refused_with_gw_error [simp]: "refused_with message code (gw_error message code reason)"
  by (auto simp: refused_with_def)

lemma session_opened_settles:
  "settles env message e d g [] (session_opened env message agent e d channel g)"
proof -
  obtain h entry t where ins: "session_insert (ge_crypto env) (ge_handle env) agent (e_mechanism e) (t_uri (e_target e))
      (t_label (e_target e)) channel (unat (default_session_ttl g (Option.bind (e_constraints e) c_session_ttl_s)) * 1000000000)
      (ge_mono env) (gw_sessions g) = ((h, entry), t)"
    by (metis surj_pair)
  let ?g = "g\<lparr>gw_sessions := t\<rparr>"
  have ev: "evolves env g [] ?g" by (rule evolves_sessions)
  have "settles env message e d ?g [] (session_opened env message agent e d channel g)"
    if "\<not> instant_overflows (ge_mono env) (default_session_ttl g (Option.bind (e_constraints e) c_session_ttl_s))"
    using that ins audit_decision_evolves [of env ?g e d "SessionOpened h"]
      audit_decision_fst [of env e "effect_str (d_effect d)" "d_notify_on_use d" "SessionOpened h" ?g]
    by (auto simp: settles_def session_opened_def Let_def granted_def get_str_def split: prod.splits
      intro!: exI [of _ "SessionOpened h"])
  then show ?thesis
    using settles_after [OF ev] by (cases "instant_overflows (ge_mono env)
      (default_session_ttl g (Option.bind (e_constraints e) c_session_ttl_s))")
      (auto simp: session_opened_def settles_def evolves_refl Let_def)
qed

lemma session_secret_settles:
  assumes "session_secret env e d g = (r, g1)"
  obtains uses where "evolves env g uses g1" "list_all (licensed env g e d) uses"
    "\<And>s. r = Ok s \<Longrightarrow> obtained env g e d s"
    "\<And>out code reason. r = Err (out, code, reason) \<Longrightarrow> \<forall>message seq. answers message d seq out (gw_error message code reason)"
proof -
  have "g1 \<in> {g, emit (EffMint (e_cred_ref e)) g, emit (EffResolve (e_cred_ref e)) g}"
    using assms unfolding session_secret_def by (auto split: if_splits option.splits sum.splits)
  moreover have "evolves env g [] g" "evolves env g [EffMint (e_cred_ref e)] (emit (EffMint (e_cred_ref e)) g)"
    "evolves env g [EffResolve (e_cred_ref e)] (emit (EffResolve (e_cred_ref e)) g)"
    by (simp_all add: evolves_emit evolves_refl)
  ultimately have "\<exists>uses. evolves env g uses g1 \<and> list_all (licensed env g e d) uses"
    by (auto intro: exI [of _ "[]"] exI [of _ "[EffMint (e_cred_ref e)]"] exI [of _ "[EffResolve (e_cred_ref e)]"])
  moreover have "obtained env g e d s" if "r = Ok s" for s
    using assms that unfolding session_secret_def obtained_def by (auto split: if_splits option.splits sum.splits)
  moreover have "\<forall>message seq. answers message d seq out (gw_error message code reason)" if "r = Err (out, code, reason)" for out code reason
    using assms that unfolding session_secret_def by (auto split: if_splits option.splits sum.splits)
  ultimately show thesis using that by blast
qed


lemma open_session_settles:
  "\<exists>uses. settles env message e d g uses (open_session env message agent e d g) \<and> list_all (licensed env g e d) uses"
proof (cases "e_mechanism e \<in> set (gw_backends g)")
  case False
  have "settles env message e d g [] (open_session env message agent e d g)"
    using False by (auto simp: open_session_def intro!: refuse_settles)
  then show ?thesis by (auto intro: exI [of _ "[]"])
next
  case True
  obtain r g1 where sec: "session_secret env e d g = (r, g1)" by fastforce
  obtain uses where uses: "evolves env g uses g1" "list_all (licensed env g e d) uses"
    "\<And>s. r = Ok s \<Longrightarrow> obtained env g e d s"
    "\<And>out code reason. r = Err (out, code, reason) \<Longrightarrow> \<forall>message seq. answers message d seq out (gw_error message code reason)"
    using session_secret_settles [OF sec] by metis
  have quiet: "audits uses = []" using uses(2) by (rule licensed_quiet)
  show ?thesis
  proof (cases r)
    case (Inl p)
    obtain out code reason where p: "p = (out, code, reason)" by (metis surj_pair)
    have "settles env message e d g1 [] (open_session env message agent e d g)"
      using True sec Inl p uses(4) [of out code reason] by (auto simp: open_session_def intro!: refuse_settles)
    from settles_after [OF uses(1) quiet this] uses(2) show ?thesis by auto
  next
    case (Inr s)
    let ?c = "EffConnect (e_mechanism e) (t_uri (e_target e)) (e_operation e) s"
    have "settles env message e d (emit ?c g1) [] (open_session env message agent e d g)"
      using True sec Inr session_opened_settles
      by (auto simp: open_session_def Let_def settles_def [of _ _ _ _ _ _ "(None, _)"] evolves_refl
        intro!: refuse_settles split: option.split sum.split)
    then have "settles env message e d g1 [?c] (open_session env message agent e d g)"
      by (rule settles_emit) simp
    from settles_after [OF uses(1) quiet this]
    have "settles env message e d g (uses @ [?c]) (open_session env message agent e d g)" .
    moreover have "list_all (licensed env g e d) (uses @ [?c])" using uses(2,3) Inr by simp
    ultimately show ?thesis by blast
  qed
qed

text \<open>The common shape: one record at the end, and before it only what the intent licenses.\<close>

definition brokers ::
    "gateway_env \<Rightarrow> json \<Rightarrow> envelope \<Rightarrow> decision \<Rightarrow> gateway \<Rightarrow> json option \<times> gateway \<Rightarrow> bool" where
  "brokers env message e d g res \<longleftrightarrow>
     (\<exists>uses. settles env message e d g uses res \<and> list_all (licensed env g e d) uses)"

lemma brokers_refuse [intro]:
  "(\<And>seq. answers message d seq out (gw_error message code reason)) \<Longrightarrow>
     brokers env message e d g (refuse env message e d out code reason g)"
  unfolding brokers_def by (intro exI [of _ "[]"]) (simp add: refuse_settles)

lemma brokers_emit:
  assumes "brokers env message e d (emit x g) res" "licensed env g e d x"
  shows "brokers env message e d g res"
proof -
  have quiet: "audits [x] = []" using assms(2) by (cases x) auto
  obtain uses where uses: "settles env message e d (emit x g) uses res" "list_all (licensed env (emit x g) e d) uses"
    using assms(1) by (auto simp: brokers_def)
  have "settles env message e d g (x # uses) res" by (rule settles_emit [OF uses(1) quiet])
  moreover have "list_all (licensed env g e d) (x # uses)"
    using uses(2) assms(2) licensed_cong [OF evolves_emit [OF quiet], of env g e d] by simp
  ultimately show ?thesis unfolding brokers_def by blast
qed

lemma brokers_granted:
  assumes "audit_decision env e (effect_str (d_effect d)) (d_notify_on_use d) Proceeded g = (seq, g')"
    "granted message d seq v"
  shows "brokers env message e d g (Some v, g')"
  unfolding brokers_def settles_def
  using assms audit_decision_evolves [of env g e d Proceeded]
    audit_decision_fst [of env e "effect_str (d_effect d)" "d_notify_on_use d" Proceeded g]
  by (auto intro!: exI [of _ "[]"] exI [of _ Proceeded])

lemma brokers_open_session: "brokers env message e d g (open_session env message agent e d g)"
  using open_session_settles by (simp add: brokers_def)

lemma one_shot_result: "execute_one_shot pg uri op s = Ok v \<Longrightarrow> \<exists>kvs. v = JObj ((''type'', JStr ''result'') # kvs)"
  by (auto simp: execute_one_shot_def run_simple_def run_parameterized_def split: if_splits sum.splits)

lemma granted_with_members:
  "granted message d seq (with_members [(''decision'', JStr (effect_str (d_effect d))), (''msg_id'', msg_id_of message),
     (''audit_id'', JStr (audit_id (case seq of None \<Rightarrow> 0 | Some n \<Rightarrow> n)))] (JObj ((''type'', JStr ''result'') # kvs)))"
  by (simp add: granted_def with_members_def get_str_def)

lemma brokers_run_db:
  assumes "e_mechanism e = ''db-scram''"
  shows "brokers env message e d g (run_db env message agent e d g)"
proof (cases "db_operation_from_value (e_operation e)")
  case None
  then show ?thesis by (auto simp: run_db_def)
next
  case (Some op)
  let ?r = "EffResolve (e_cred_ref e)"
  consider (opener) "db_statement op = None"
    | (unresolved) er where "db_statement op \<noteq> None" "router_resolve (gw_router g) (e_cred_ref e) = Err er"
    | (run) s where "db_statement op \<noteq> None" "router_resolve (gw_router g) (e_cred_ref e) = Ok s"
    by (cases "router_resolve (gw_router g) (e_cred_ref e)") auto
  then show ?thesis
  proof cases
    case opener
    then show ?thesis using Some by (simp add: run_db_def brokers_open_session)
  next
    case unresolved
    have "brokers env message e d (emit ?r g) (run_db env message agent e d g)"
      using Some unresolved by (auto simp: run_db_def Let_def)
    then show ?thesis by (rule brokers_emit) simp
  next
    case run
    let ?x = "EffSql (t_uri (e_target e)) (db_operation_to_value op) s"
    have "brokers env message e d (emit ?x (emit ?r g)) (run_db env message agent e d g)"
      using Some run
      by (auto simp: run_db_def Let_def dest!: one_shot_result split: sum.split prod.split
        intro!: brokers_granted granted_with_members)
    then have "brokers env message e d (emit ?r g) (run_db env message agent e d g)"
      by (rule brokers_emit) (use assms Some run in \<open>simp add: emit_def\<close>)
    then show ?thesis by (rule brokers_emit) simp
  qed
qed

lemma brokers_run_http:
  assumes "e_mechanism e \<in> {''http-bearer'', ''http-basic''}"
  shows "brokers env message e d g (run_http env message e d g)"
proof (cases "http_operation_from_value (e_operation e)")
  case None
  then show ?thesis by (auto simp: run_http_def)
next
  case (Some op)
  let ?r = "EffResolve (e_cred_ref e)"
  consider (smuggled) "has_agent_authorization op"
    | (unresolved) er where "\<not> has_agent_authorization op" "router_resolve (gw_router g) (e_cred_ref e) = Err er"
    | (run) s where "\<not> has_agent_authorization op" "router_resolve (gw_router g) (e_cred_ref e) = Ok s"
    by (cases "router_resolve (gw_router g) (e_cred_ref e)") auto
  then show ?thesis
  proof cases
    case smuggled
    then show ?thesis using Some by (auto simp: run_http_def)
  next
    case unresolved
    have "brokers env message e d (emit ?r g) (run_http env message e d g)"
      using Some unresolved by (auto simp: run_http_def Let_def)
    then show ?thesis by (rule brokers_emit) simp
  next
    case run
    let ?x = "EffInject (e_mechanism e) (t_uri (e_target e)) op s (limits_of g d)"
    have "brokers env message e d (emit ?x (emit ?r g)) (run_http env message e d g)"
      using Some run
      by (auto simp: run_http_def Let_def granted_def get_str_def split: sum.split prod.split intro!: brokers_granted)
    then have "brokers env message e d (emit ?r g) (run_http env message e d g)"
      by (rule brokers_emit) (use assms Some run in \<open>simp add: emit_def limits_of_def split: option.split\<close>)
    then show ?thesis by (rule brokers_emit) simp
  qed
qed

section \<open>The whole intent\<close>

text \<open>What the human is shown: who asks, for what target, by what means; for a privileged command, the command.\<close>

definition asked_about :: "string \<Rightarrow> envelope \<Rightarrow> confirm_context \<Rightarrow> bool" where
  "asked_about agent e ctx \<longleftrightarrow>
     cx_agent_id ctx = agent \<and> cx_target_label ctx = t_label (e_target e) \<and>
     cx_target_uri ctx = t_uri (e_target e) \<and> cx_mechanism ctx = e_mechanism e \<and>
     (e_mechanism e = ''local-privilege'' \<longrightarrow>
        cx_summary ctx = ''run '' @ or_empty (get_str (e_operation e) ''command'') @ '' '' @
          join_with '' '' (string_args (e_operation e) ''args''))"

definition gated ::
    "gateway_env \<Rightarrow> json \<Rightarrow> string \<Rightarrow> envelope \<Rightarrow> decision \<Rightarrow> gateway \<Rightarrow> json option \<times> gateway \<Rightarrow> bool" where
  "gated env message agent e d g res \<longleftrightarrow>
     (\<exists>asks uses. settles env message e d g (asks @ uses) res \<and> list_all (licensed env g e d) uses \<and>
        (asks = [] \<or> (\<exists>ctx. asks = [EffConfirm ctx (ge_confirm env ctx)] \<and> asked_about agent e ctx)) \<and>
        (uses \<noteq> [] \<longrightarrow> d_effect d \<noteq> Deny \<and>
           (human_needed g e d \<longrightarrow> (\<exists>ctx. asks = [EffConfirm ctx Approved]))))"

lemma gated_refuse:
  "(\<And>seq. answers message d seq out (gw_error message code reason)) \<Longrightarrow>
     gated env message agent e d g (refuse env message e d out code reason g)"
  unfolding gated_def by (intro exI [of _ "[]"]) (simp add: refuse_settles)

lemma gated_brokers:
  assumes "brokers env message e d g res" "d_effect d \<noteq> Deny" "\<not> human_needed g e d"
  shows "gated env message agent e d g res"
proof -
  obtain uses where "settles env message e d g uses res" "list_all (licensed env g e d) uses"
    using assms(1) by (auto simp: brokers_def)
  then show ?thesis using assms(2,3) unfolding gated_def by (intro exI [of _ "[]"] exI [of _ uses]) simp
qed

text \<open>Asking first: a yes opens the way, anything else ends in a refusal.\<close>

lemma gated_ask:
  assumes "ge_confirm env ctx = Approved \<Longrightarrow> brokers env message e d (emit (EffConfirm ctx Approved) g) res"
    and "ge_confirm env ctx \<noteq> Approved \<Longrightarrow>
      res = refuse env message e d ConfirmationTimeout ''E_CONFIRM_TIMEOUT'' reason (emit (EffConfirm ctx (ge_confirm env ctx)) g)"
    and "asked_about agent e ctx" "d_effect d \<noteq> Deny"
  shows "gated env message agent e d g res"
proof -
  let ?x = "EffConfirm ctx (ge_confirm env ctx)"
  have quiet: "audits [?x] = []" by simp
  show ?thesis
  proof (cases "ge_confirm env ctx = Approved")
    case True
    obtain uses where uses: "settles env message e d (emit ?x g) uses res" "list_all (licensed env (emit ?x g) e d) uses"
      using assms(1) True by (auto simp: brokers_def)
    have "settles env message e d g ([?x] @ uses) res" using settles_emit [OF uses(1) quiet] by simp
    moreover have "list_all (licensed env g e d) uses"
      using uses(2) licensed_cong [OF evolves_emit [OF quiet], of env g e d] by simp
    ultimately show ?thesis
      using assms(3,4) True unfolding gated_def by (intro exI [of _ "[?x]"] exI [of _ uses]) simp
  next
    case False
    have "settles env message e d (emit ?x g) [] res"
      unfolding assms(2) [OF False] by (rule refuse_settles) simp
    from settles_emit [OF this quiet] assms(3) show ?thesis
      unfolding gated_def by (intro exI [of _ "[?x]"] exI [of _ "[]"]) simp
  qed
qed

lemma confirm_asks: "e_mechanism e \<noteq> ''local-privilege'' \<Longrightarrow> asked_about agent e (confirm_for agent e summary)"
  by (simp add: asked_about_def confirm_for_def)

lemma ask_human_cases:
  "(case ask_human env ctx g of (Approved, g1) \<Rightarrow> f g1 | (_, g1) \<Rightarrow> h g1) =
     (if ge_confirm env ctx = Approved then f (emit (EffConfirm ctx Approved) g)
      else h (emit (EffConfirm ctx (ge_confirm env ctx)) g))"
  by (simp add: ask_human_def split: confirm_outcome.split)

lemma route_one_shot_gated:
  assumes "e_mechanism e \<in> set one_shot" "d_effect d \<noteq> Deny"
  shows "gated env message agent e d g (route_one_shot env message agent e d g)"
proof -
  have b: "brokers env message e d g' (broker env message agent e d g')" for g'
    using assms(1) brokers_run_db brokers_run_http by (auto simp: broker_def one_shot_def)
  have m: "e_mechanism e \<noteq> ''local-privilege''" using assms(1) by (auto simp: one_shot_def)
  show ?thesis
  proof (cases "d_effect d = NeedsConfirmation")
    case True
    then show ?thesis
      unfolding route_one_shot_def ask_human_cases
      using b assms(2) confirm_asks [OF m] by (auto intro!: gated_ask)
  next
    case False
    then show ?thesis using b assms(2) m by (auto simp: route_one_shot_def human_needed_def intro!: gated_brokers)
  qed
qed

lemma session_gate_human:
  assumes "session_gate e d g = (eff, summary)" "d_effect d \<noteq> Deny"
  shows "eff = NeedsConfirmation \<longleftrightarrow> human_needed g e d"
    "e_mechanism e = ''local-privilege'' \<Longrightarrow> summary = ''run '' @ or_empty (get_str (e_operation e) ''command'') @ '' '' @
          join_with '' '' (string_args (e_operation e) ''args'')"
  using assms by (cases "d_effect d"; auto simp: session_gate_def human_needed_def Let_def split: if_splits option.splits)+

lemma route_session_gated:
  assumes "d_effect d \<noteq> Deny"
  shows "gated env message agent e d g (route_session env message agent e d g)"
proof (cases "e_mechanism e \<in> {''ssh'', ''local-privilege''} \<and> e_mechanism e \<in> set (gw_backends g)")
  case False
  then show ?thesis by (auto simp: route_session_def intro!: gated_refuse)
next
  case True
  obtain eff summary where gate: "session_gate e d g = (eff, summary)" by fastforce
  let ?ctx = "confirm_for agent e (if summary = [] then ''operation'' else summary)"
  have asks: "asked_about agent e ?ctx"
    using session_gate_human(2) [OF gate assms] by (auto simp: asked_about_def confirm_for_def)
  show ?thesis
  proof (cases "eff = NeedsConfirmation")
    case need: True
    have "route_session env message agent e d g =
      (if ge_confirm env ?ctx = Approved then open_session env message agent e d (emit (EffConfirm ?ctx Approved) g)
       else refuse env message e d ConfirmationTimeout ''E_CONFIRM_TIMEOUT''
         ''the human gate did not approve this privileged action'' (emit (EffConfirm ?ctx (ge_confirm env ?ctx)) g))"
      using True gate need by (simp add: route_session_def ask_human_cases)
    then show ?thesis using asks assms by (auto intro!: gated_ask brokers_open_session)
  next
    case no: False
    then show ?thesis
      using True gate assms session_gate_human(1) [OF gate assms]
      by (auto simp: route_session_def intro!: gated_brokers brokers_open_session)
  qed
qed

lemma decide_intent_gated:
  "gated env message agent e (evaluate (gw_policy g) (policy_request agent e)) g (decide_intent env message agent e g)"
  by (auto simp: decide_intent_def Let_def intro!: gated_refuse route_session_gated route_one_shot_gated)

section \<open>Where sessions come from\<close>

lemma set_AList_update: "p \<in> set (AList.update k v t) \<Longrightarrow> p = (k, v) \<or> p \<in> set t"
  by (induction t) (auto split: if_splits)

definition opens :: "string \<Rightarrow> envelope \<Rightarrow> decision \<Rightarrow> gateway \<Rightarrow> json option \<times> gateway \<Rightarrow> bool" where
  "opens agent e d g res \<longleftrightarrow>
     (\<forall>h s. (h, s) \<in> set (gw_sessions (snd res)) \<longrightarrow> (h, s) \<in> set (gw_sessions g) \<or>
        decision_event g e (effect_str (d_effect d)) (SessionOpened h) \<in> set (audits (gw_effects (snd res))) \<and>
        d_effect d \<noteq> Deny \<and> se_agent_id s = agent \<and> se_mechanism s = e_mechanism e \<and>
        se_target_uri s = t_uri (e_target e))"

lemma opens_emit [simp]: "opens agent e d (emit x g) res = opens agent e d g res"
  by (simp add: opens_def emit_def decision_event_def sponsor_or_empty_def)

lemma gw_append_sessions [simp]: "gw_sessions (snd (gw_append env ev g)) = gw_sessions g"
  by (simp add: gw_append_def emit_def split: prod.split)

lemma broadcast_json_sessions [simp]: "gw_sessions (broadcast_json v g) = gw_sessions g"
  by (simp add: broadcast_json_def emit_def)

lemma audit_decision_sessions: "gw_sessions (snd (audit_decision env e eff n out g)) = gw_sessions g"
  by (simp add: audit_decision_def Let_def case_prod_beta)

lemma opens_refuse [simp]: "opens agent e d g (refuse env message e d out code reason g)"
  by (simp add: opens_def refuse_def audit_decision_sessions)

lemma opens_session_opened:
  assumes "d_effect d \<noteq> Deny"
  shows "opens agent e d g (session_opened env message agent e d channel g)"
proof -
  let ?t = "gw_sessions g"
  obtain h s where ins: "session_insert (ge_crypto env) (ge_handle env) agent (e_mechanism e) (t_uri (e_target e))
      (t_label (e_target e)) channel (unat (default_session_ttl g (Option.bind (e_constraints e) c_session_ttl_s)) * 1000000000)
      (ge_mono env) ?t = ((h, s), AList.update h s ?t)"
    and s: "se_agent_id s = agent" "se_mechanism s = e_mechanism e" "se_target_uri s = t_uri (e_target e)"
    by (simp add: session_insert_def Let_def new_entry_def)
  let ?g = "g\<lparr>gw_sessions := AList.update h s ?t\<rparr>"
  let ?a = "audit_decision env e (effect_str (d_effect d)) (d_notify_on_use d) (SessionOpened h) ?g"
  have "decision_event g e (effect_str (d_effect d)) (SessionOpened h) \<in> set (audits (gw_effects (snd ?a)))"
    using audit_decision_evolves [of env ?g e d "SessionOpened h"]
    by (simp add: evolves_def report_def Let_def decision_event_def sponsor_or_empty_def)
  then have "opens agent e d g (r, snd ?a)" for r
    using s assms by (auto simp: opens_def audit_decision_sessions dest: set_AList_update)
  moreover have "session_opened env message agent e d channel g = (None, g) \<or>
      (\<exists>v. session_opened env message agent e d channel g = (v, snd ?a))"
    using ins by (simp add: session_opened_def Let_def split: prod.split)
  moreover have "opens agent e d g (None, g)" by (simp add: opens_def)
  ultimately show ?thesis by metis
qed

lemma opens_open_session:
  assumes "d_effect d \<noteq> Deny"
  shows "opens agent e d g (open_session env message agent e d g)"
proof (cases "e_mechanism e \<in> set (gw_backends g)")
  case False
  then show ?thesis by (simp add: open_session_def)
next
  case backend: True
  obtain r g1 where sec: "session_secret env e d g = (r, g1)" by fastforce
  have g1: "opens agent e d g1 res = opens agent e d g res" for res
    using sec by (auto simp: session_secret_def split: if_splits option.splits sum.splits)
  have none: "opens agent e d g' (None, g')" for g' by (simp add: opens_def)
  show ?thesis
  proof (cases r)
    case (Inl p)
    then show ?thesis using backend sec by (cases p) (simp add: open_session_def flip: g1)
  next
    case (Inr s)
    let ?c = "EffConnect (e_mechanism e) (t_uri (e_target e)) (e_operation e) s"
    let ?g = "emit ?c g1"
    have eq: "open_session env message agent e d g =
      (case ge_connect env (e_mechanism e) (t_uri (e_target e)) (e_operation e) s of
         None \<Rightarrow> (None, ?g)
       | Some (Inl er) \<Rightarrow>
           refuse env message e d MechanismError ''E_MECHANISM'' (''session establishment failed: '' @ er) ?g
       | Some (Inr channel) \<Rightarrow> session_opened env message agent e d channel ?g)"
      using backend sec Inr by (simp add: open_session_def Let_def)
    have "opens agent e d ?g (open_session env message agent e d g)"
      unfolding eq using none [of ?g] opens_session_opened [OF assms, of agent e ?g] opens_refuse [of agent e d ?g]
      by (simp del: opens_emit opens_refuse split: option.split sum.split)
    then show ?thesis by (simp only: opens_emit g1)
  qed
qed

lemma opens_audit: "opens agent e d g (v, snd (audit_decision env e' eff n out g))"
  by (simp add: opens_def audit_decision_sessions)

lemma opens_refuse_after:
  "gw_sessions g1 = gw_sessions g \<Longrightarrow> opens agent e d g (refuse env message e' d' out code reason g1)"
  "gw_sessions g1 = gw_sessions g \<Longrightarrow> opens agent e d g (v, snd (audit_decision env e' eff n out g1))"
  by (simp_all add: opens_def refuse_def audit_decision_sessions)

lemma emit_sessions [simp]: "gw_sessions (emit x g) = gw_sessions g"
  by (simp add: emit_def)

lemma opens_run_db:
  assumes "d_effect d \<noteq> Deny"
  shows "opens agent e d g (run_db env message agent e d g)"
  using opens_open_session [OF assms]
  by (auto simp: run_db_def Let_def case_prod_beta intro!: opens_refuse_after split: option.split sum.split)

lemma opens_run_http: "opens agent e d g (run_http env message e d g)"
  by (auto simp: run_http_def Let_def case_prod_beta intro!: opens_refuse_after split: option.split sum.split)

lemma opens_decide_intent:
  "opens agent e (evaluate (gw_policy g) (policy_request agent e)) g (decide_intent env message agent e g)"
proof -
  let ?d = "evaluate (gw_policy g) (policy_request agent e)"
  have open1: "opens agent e ?d g (open_session env message agent e ?d (emit x g))"
    and open2: "opens agent e ?d g (open_session env message agent e ?d g)" if "d_effect ?d \<noteq> Deny" for x
    using opens_open_session [OF that, of agent e "emit x g"] opens_open_session [OF that, of agent e g] by auto
  have broker1: "opens agent e ?d g (broker env message agent e ?d (emit x g))"
    and broker2: "opens agent e ?d g (broker env message agent e ?d g)" if "d_effect ?d \<noteq> Deny" for x
    using opens_run_db [OF that, of agent e "emit x g"] opens_run_db [OF that, of agent e g]
      opens_run_http [of agent e ?d "emit x g" env message, unfolded opens_emit] opens_run_http
    by (auto simp: broker_def)
  have s: "opens agent e ?d g (route_session env message agent e ?d g)" if "d_effect ?d \<noteq> Deny"
    using open1 [OF that] open2 [OF that]
    by (auto simp: route_session_def ask_human_cases intro!: opens_refuse_after split: prod.split)
  have o: "opens agent e ?d g (route_one_shot env message agent e ?d g)" if "d_effect ?d \<noteq> Deny"
    using broker1 [OF that] broker2 [OF that]
    by (auto simp: route_one_shot_def ask_human_cases intro!: opens_refuse_after)
  show ?thesis using s o by (simp add: decide_intent_def Let_def)
qed

section \<open>Session frames\<close>

definition same_session :: "session_entry \<Rightarrow> session_entry \<Rightarrow> bool" where
  "same_session s s' \<longleftrightarrow> se_agent_id s' = se_agent_id s \<and> se_mechanism s' = se_mechanism s \<and>
     se_target_uri s' = se_target_uri s \<and> se_target_label s' = se_target_label s \<and>
     se_expires_at s' = se_expires_at s \<and> se_opened_at s' = se_opened_at s \<and> se_channel s' = se_channel s"

definition derives :: "session_table \<Rightarrow> session_table \<Rightarrow> bool" where
  "derives t t' \<longleftrightarrow> (\<forall>h s'. (h, s') \<in> set t' \<longrightarrow> (\<exists>s. (h, s) \<in> set t \<and> same_session s s'))"

lemma same_session_refl [simp]: "same_session s s"
  by (simp add: same_session_def)

lemma same_session_trans: "same_session a b \<Longrightarrow> same_session b c \<Longrightarrow> same_session a c"
  by (simp add: same_session_def)

lemma derives_refl [simp]: "derives t t"
  unfolding derives_def using same_session_refl by blast

lemma derives_trans: "derives a b \<Longrightarrow> derives b c \<Longrightarrow> derives a c"
  unfolding derives_def using same_session_trans by blast

lemma derives_subset: "set t' \<subseteq> set t \<Longrightarrow> derives t t'"
  unfolding derives_def using same_session_refl by blast

lemma derives_update:
  assumes "map_of t h = Some s" "same_session s s'"
  shows "derives t (session_update h s' t)"
  using assms unfolding derives_def session_update_def
  by (auto dest!: set_AList_update map_of_SomeD intro: same_session_refl)

lemma derives_take: "derives t (snd (session_take t h a))"
  by (rule derives_subset) (auto simp: session_take_def AList.delete_eq split: option.split)

lemma derives_reap: "derives t (snd (reap_expired t now))"
  by (rule derives_subset) (auto simp: reap_expired_def)

text \<open>What a frame of an agent may do to channels: only those of its own live sessions.\<close>

fun frame_allowed :: "gateway_env \<Rightarrow> json \<Rightarrow> gateway \<Rightarrow> string \<Rightarrow> gateway_effect \<Rightarrow> bool" where
  "frame_allowed env message g agent (EffWrite ch input) =
     (\<exists>h s. (h, s) \<in> set (gw_sessions g) \<and> se_agent_id s = agent \<and> se_channel s = ch \<and> ge_mono env < se_expires_at s)"
| "frame_allowed env message g agent (EffRead ch) =
     (\<exists>h s. (h, s) \<in> set (gw_sessions g) \<and> se_agent_id s = agent \<and> se_channel s = ch \<and> ge_mono env < se_expires_at s)"
| "frame_allowed env message g agent (EffShutdown ch) =
     (\<exists>h s. (h, s) \<in> set (gw_sessions g) \<and> se_agent_id s = agent \<and> se_channel s = ch)"
| "frame_allowed env message g agent (EffAudit ev) =
     (\<exists>g' mech reason code ch. ev = session_closed_event g' agent message mech reason code \<and>
        gw_ruleset_hash g' = gw_ruleset_hash g \<and> code \<in> {None, ob_exit_code (ge_batch env ch)})"
| "frame_allowed env message g agent (EffBroadcast v) = True"
| "frame_allowed env message g agent _ = False"

definition relays :: "gateway_env \<Rightarrow> json \<Rightarrow> string \<Rightarrow> gateway \<Rightarrow> gateway \<Rightarrow> bool" where
  "relays env message agent g g' \<longleftrightarrow>
     (\<exists>xs. evolves env g xs g' \<and> list_all (frame_allowed env message g agent) xs) \<and>
     derives (gw_sessions g) (gw_sessions g')"

lemma frame_allowed_derives:
  assumes "derives (gw_sessions g) (gw_sessions g')" "gw_ruleset_hash g' = gw_ruleset_hash g"
    "frame_allowed env message g' agent x"
  shows "frame_allowed env message g agent x"
  using assms by (cases x) (auto simp: derives_def same_session_def, metis+)

lemma relays_refl: "relays env message agent g g"
  unfolding relays_def by (intro conjI exI [of _ "[]"]) (simp_all add: evolves_refl)

lemma relays_trans:
  assumes "relays env message agent g g1" "relays env message agent g1 g2"
  shows "relays env message agent g g2"
proof -
  obtain xs ys where xs: "evolves env g xs g1" "list_all (frame_allowed env message g agent) xs"
      "evolves env g1 ys g2" "list_all (frame_allowed env message g1 agent) ys"
    and d: "derives (gw_sessions g) (gw_sessions g1)" "derives (gw_sessions g1) (gw_sessions g2)"
    using assms unfolding relays_def by blast
  have "list_all (frame_allowed env message g agent) ys"
    using xs(4) frame_allowed_derives [OF d(1) evolves_frame(7) [OF xs(1)]] by (simp add: list_all_iff)
  then show ?thesis
    unfolding relays_def using derives_trans [OF d] evolves_trans [OF xs(1,3)] xs(2)
    by (auto intro!: exI [of _ "xs @ ys"])
qed

lemma relays_step:
  assumes "evolves env g xs g'" "list_all (frame_allowed env message g agent) xs"
    "derives (gw_sessions g) (gw_sessions g')"
  shows "relays env message agent g g'"
  using assms unfolding relays_def by blast

lemma frame_allowed_own:
  assumes "(h, s) \<in> set (gw_sessions g)" "se_agent_id s = agent"
  shows "frame_allowed env message g agent (EffShutdown (se_channel s))"
    "ge_mono env < se_expires_at s \<Longrightarrow> frame_allowed env message g agent (EffRead (se_channel s))"
    "ge_mono env < se_expires_at s \<Longrightarrow> frame_allowed env message g agent (EffWrite (se_channel s) input)"
  using assms by auto

lemma relays_end_session: "relays env message agent g (end_session env handle agent g)"
proof (cases "session_take (gw_sessions g) handle agent")
  case (Pair r t)
  show ?thesis
  proof (cases r)
    case None
    then show ?thesis using Pair by (simp add: end_session_def relays_refl)
  next
    case (Some s)
    let ?g = "emit (EffShutdown (se_channel s)) (g\<lparr>gw_sessions := t\<rparr>)"
    have "evolves env g [EffShutdown (se_channel s)] ?g"
      using evolves_trans [OF evolves_sessions [of env g t] evolves_emit [of "EffShutdown (se_channel s)"]] by simp
    moreover have "(handle, s) \<in> set (gw_sessions g) \<and> se_agent_id s = agent"
      using Pair Some by (auto simp: session_take_def dest: map_of_SomeD split: option.splits if_splits)
    moreover have "derives (gw_sessions g) t" using derives_take [of "gw_sessions g" handle agent] Pair by simp
    ultimately have "relays env message agent g ?g"
      by (intro relays_step) (auto simp del: frame_allowed.simps intro: frame_allowed_own)
    moreover have "relays env message agent ?g (broadcast_json v ?g)" for v
      by (rule relays_step [OF broadcast_evolves]) simp_all
    ultimately have "relays env message agent g (broadcast_json v ?g)" for v by (rule relays_trans)
    then show ?thesis using Pair Some by (simp add: end_session_def broadcast_session_event_def)
  qed
qed

lemma relays_closed:
  assumes "gw_ruleset_hash g' = gw_ruleset_hash g" "code \<in> {None, ob_exit_code (ge_batch env ch)}"
  shows "relays env message agent g (snd (gw_append env (session_closed_event g' agent message mech reason code) g))"
proof (rule relays_step [OF gw_append_evolves])
  show "list_all (frame_allowed env message g agent) [EffAudit (session_closed_event g' agent message mech reason code)]"
    using assms by (simp del: insert_iff) blast
qed simp

lemma relays_close_session: "relays env message agent g (snd (close_session env message agent handle g))"
  using relays_trans [OF relays_end_session relays_closed [OF refl, where code = None]]
  by (auto simp: close_session_def Let_def case_prod_beta relays_refl)

lemma number_outputs_same: "same_session s (snd (number_outputs b64 s cs))"
proof (induction b64 s cs rule: number_outputs.induct)
  case (2 b64 s c cs)
  have "same_session s (snd (next_out_seq s))" by (simp add: next_out_seq_def same_session_def)
  moreover have "same_session (snd (next_out_seq s)) (snd (number_outputs b64 (snd (next_out_seq s)) cs))"
    by (rule 2) (rule surjective_pairing [symmetric])
  ultimately show ?case using same_session_trans by (simp add: case_prod_beta)
qed simp

lemma relays_relay_output:
  assumes "map_of (gw_sessions g) handle = Some s" "se_agent_id s = agent" "ge_mono env < se_expires_at s"
  shows "relays env message agent g (snd (relay_output env message agent handle s in_len g))"
proof -
  let ?b = "ge_batch env (se_channel s)"
  let ?s = "snd (number_outputs (he_b64 (ge_http env))
    (record_relay s in_len (sum_list (map (\<lambda>c. length (oc_data c)) (ob_chunks ?b)))) (ob_chunks ?b))"
  let ?g = "emit (EffRead (se_channel s)) (g\<lparr>gw_sessions := session_update handle ?s (gw_sessions g)\<rparr>)"
  have "same_session s (record_relay s m n)" for m n by (simp add: same_session_def record_relay_def)
  then have "same_session s ?s" using number_outputs_same same_session_trans by blast
  then have "derives (gw_sessions g) (gw_sessions ?g)" using assms(1) by (simp add: derives_update)
  moreover have "evolves env g [EffRead (se_channel s)] ?g"
    using evolves_trans [OF evolves_sessions [of env g] evolves_emit [of "EffRead (se_channel s)"]] by simp
  moreover have "(handle, s) \<in> set (gw_sessions g)" using assms(1) by (rule map_of_SomeD)
  ultimately have "relays env message agent g ?g"
    using assms(2,3) by (intro relays_step) (auto simp del: frame_allowed.simps intro: frame_allowed_own)
  moreover have "relays env message agent ?g (snd (gw_append env (session_closed_event (end_session env handle agent ?g)
      agent message m r (ob_exit_code ?b)) (end_session env handle agent ?g)))" for m r
    by (rule relays_trans [OF relays_end_session relays_closed [where ch = "se_channel s"]]) simp_all
  ultimately show ?thesis
    using relays_trans by (auto simp: relay_output_def Let_def case_prod_beta)
qed

lemma relays_command_session: "relays env message agent g (snd (command_session env message agent handle g))"
proof (cases "session_access (gw_sessions g) handle agent (ge_mono env)")
  case (Inl p)
  then show ?thesis by (cases p) (simp add: command_session_def relays_refl)
next
  case (Inr p)
  obtain s n where p: "p = (s, n)" by (cases p)
  have s: "map_of (gw_sessions g) handle = Some s" "se_agent_id s = agent" "ge_mono env < se_expires_at s"
    using Inr p by (auto simp: session_access_Ok_iff)
  have w: "relays env message agent g (emit (EffWrite (se_channel s) input) g)" for input
    by (rule relays_step [OF evolves_emit])
      (use s map_of_SomeD [OF s(1)] in \<open>auto simp del: frame_allowed.simps intro: frame_allowed_own\<close>)
  have "relays env message agent g (snd (relay_output env message agent handle s m (emit (EffWrite (se_channel s) input) g)))" for m input
    by (rule relays_trans [OF w relays_relay_output]) (use s in simp_all)
  then show ?thesis using Inr p w by (simp add: command_session_def Let_def split: sum.split)
qed

section \<open>One message\<close>

definition verified_by :: "gateway_env \<Rightarrow> json \<Rightarrow> gateway \<Rightarrow> verified_intent \<Rightarrow> bool" where
  "verified_by env message g v \<longleftrightarrow> acceptable (ge_attest env) (ge_replay_io env) (gw_attestor g) message (ge_now env) v"

definition after_verify :: "gateway_env \<Rightarrow> json \<Rightarrow> gateway \<Rightarrow> gateway" where
  "after_verify env message g = g\<lparr>gw_attestor := (gw_attestor g)
     \<lparr>replay := snd (verify (ge_attest env) (ge_replay_io env) (gw_attestor g) message (ge_now env))\<rparr>\<rparr>"

lemma gw_verify_cases:
  obtains (ok) v where "gw_verify env message g = (Ok v, after_verify env message g)" "verified_by env message g v"
    | (err) er where "gw_verify env message g = (Err er, after_verify env message g)"
      "fst (verify (ge_attest env) (ge_replay_io env) (gw_attestor g) message (ge_now env)) = Err er"
proof (cases "verify (ge_attest env) (ge_replay_io env) (gw_attestor g) message (ge_now env)")
  case (Pair r rc)
  then show thesis
    using that verify_Ok_iff [of "ge_attest env" "ge_replay_io env" "gw_attestor g" message "ge_now env" "projr r"]
    by (cases r) (simp_all add: gw_verify_def after_verify_def verified_by_def)
qed

lemma relays_handle_session_frame:
  assumes "handle_session_frame env kind message g = (r, g')"
  obtains "g' = after_verify env message g"
    | v where "verified_by env message g v" "relays env message (v_agent_id v) (after_verify env message g) g'"
proof (cases env message g rule: gw_verify_cases)
  case (ok v)
  have "relays env message (v_agent_id v) (after_verify env message g) g'"
    using assms ok(1) relays_close_session [of env message "v_agent_id v" "after_verify env message g"]
      relays_command_session [of env message "v_agent_id v" "after_verify env message g"]
    by (auto simp: handle_session_frame_def relays_refl split: option.splits session_frame_kind.splits)
      (metis snd_conv)+
  with that(2) ok(2) show thesis .
next
  case (err er)
  then show thesis using that(1) assms by (simp add: handle_session_frame_def)
qed

lemma handle_message_cases:
  assumes "handle_message env message g = (r, g')"
  obtains (idle) "g' = g"
    | (rejected) er where "g' = audit_identity_failure env message (identity_error_code er) (after_verify env message g)"
      "\<not> gw_halted g"
      "fst (verify (ge_attest env) (ge_replay_io env) (gw_attestor g) message (ge_now env)) = Err er"
      "r = Some (gw_error message (error_code_str (identity_error_code er)) (identity_text er))"
    | (unread) "g' = after_verify env message g" "\<not> gw_halted g"
    | (intent) v e where "verified_by env message g v" "envelope_from_value message = Some e" "\<not> gw_halted g"
      "decide_intent env message (v_agent_id v) e (after_verify env message g) = (r, g')"
    | (frame) v where "verified_by env message g v" "relays env message (v_agent_id v) (after_verify env message g) g'" "\<not> gw_halted g"
proof -
  consider (still) "g' = g" | (int) "handle_intent env message g = (r, g')" "\<not> gw_halted g"
    | (fr) kind where "handle_session_frame env kind message g = (r, g')" "\<not> gw_halted g"
    using assms by (auto simp: handle_message_def split: if_splits)
  then show thesis
  proof cases
    case int
    show thesis
    proof (cases env message g rule: gw_verify_cases)
      case (ok v)
      have "v_envelope v = message" using ok(2) by (simp add: verified_by_def acceptable_def)
      then show thesis
        using int ok that(3) that(4) [OF ok(2)]
        by (cases "envelope_from_value message") (auto simp: handle_intent_def)
    next
      case (err er)
      then show thesis using int that(2) by (auto simp: handle_intent_def)
    qed
  next
    case fr
    show thesis
      by (rule relays_handle_session_frame [OF fr(1)]) (use fr(2) that(3,5) in blast)+
  qed (rule that(1))
qed

text \<open>The state a decision reads is not changed by verifying the message.\<close>

lemma after_verify_simps [simp]:
  "gw_effects (after_verify env message g) = gw_effects g" "gw_policy (after_verify env message g) = gw_policy g"
  "gw_sessions (after_verify env message g) = gw_sessions g" "gw_audit (after_verify env message g) = gw_audit g"
  "gw_router (after_verify env message g) = gw_router g" "gw_event_hub (after_verify env message g) = gw_event_hub g"
  "gw_halted (after_verify env message g) = gw_halted g" "gw_halt_reason (after_verify env message g) = gw_halt_reason g"
  "enrollment (gw_attestor (after_verify env message g)) = enrollment (gw_attestor g)"
  "max_skew_secs (gw_attestor (after_verify env message g)) = max_skew_secs (gw_attestor g)"
  "gw_ruleset_hash (after_verify env message g) = gw_ruleset_hash g"
  by (simp_all add: after_verify_def)

lemma after_verify_reads [simp]:
  "decision_event (after_verify env message g) e eff out = decision_event g e eff out"
  "fst (gw_append env' ev (after_verify env message g)) = fst (gw_append env' ev g)"
  "human_needed (after_verify env message g) e d = human_needed g e d"
  "identity_failure_event (after_verify env message g) message' code = identity_failure_event g message' code"
  by (simp_all add: decision_event_def sponsor_or_empty_def attestor_sponsor_id_def gw_append_def human_needed_def
    identity_failure_event_def after_verify_def Let_def split: prod.split)

lemma after_verify_licensed [simp]: "licensed env (after_verify env' message g) e d = licensed env g e d"
proof
  fix x
  have ttl: "default_session_ttl (after_verify env' message g) = default_session_ttl g"
    by (auto simp: default_session_ttl_def fun_eq_iff after_verify_def split: option.split)
  have "mint_session_secret env e d ca (after_verify env' message g) = mint_session_secret env e d ca g" for ca
    by (simp add: mint_session_secret_def ttl split: sum.split option.split)
  then show "licensed env (after_verify env' message g) e d x = licensed env g e d x"
    by (cases x) (simp_all add: obtained_def limits_of_def after_verify_def split: option.split)
qed

lemma after_verify_report [simp]: "report env e d out (after_verify env' message g) = report env e d out g"
  by (simp add: report_def Let_def)

lemma verified_envelope_agent:
  assumes "verified_by env message g v" "envelope_from_value message = Some e"
  shows "v_agent_id v = e_agent_id e"
  using assms envelope_from_value_agent [of _ e] by (cases message) (auto simp: verified_by_def acceptable_def)

lemma frame_no_credential: "frame_allowed env message g agent x \<Longrightarrow> \<not> uses_credential x"
  by (cases x) auto

lemma report_no_credential: "x \<in> set (report env e d out g) \<Longrightarrow> \<not> uses_credential x"
  by (auto simp: report_def Let_def split: if_splits)

text \<open>
  (C3) Complete mediation: the gateway reaches for a credential, or spends one, only while handling
  an intent that it verified (signed by an enrolled, unrevoked agent, fresh, never seen before),
  whose envelope names that agent, which the policy does not deny, and which the human approved,
  as the first thing, wherever the rule or an unpinned privileged command requires it; the prompt
  named the agent, the target, the mechanism and, for a privileged command, the command. What it
  then does is only what this intent licenses: its own credential reference, handed to its own
  mechanism, at its own target, with its own operation.
\<close>

theorem credential_use_authorized:
  assumes "handle_message env message g = (r, g')" and "gw_effects g' = gw_effects g @ xs"
    and "x \<in> set xs" and "uses_credential x"
  shows "\<exists>v e d. verified_by env message g v \<and> envelope_from_value message = Some e \<and>
    e_agent_id e = v_agent_id v \<and> \<not> gw_halted g \<and>
    d = evaluate (gw_policy g) (policy_request (v_agent_id v) e) \<and> d_effect d \<noteq> Deny \<and>
    licensed env g e d x \<and>
    (human_needed g e d \<longrightarrow> (\<exists>ctx. hd xs = EffConfirm ctx Approved \<and> asked_about (v_agent_id v) e ctx))"
  using assms(1)
proof (cases rule: handle_message_cases)
  case (rejected er)
  have "gw_effects g' = gw_effects g @ [EffAudit (identity_failure_event g message (identity_error_code er))]"
    using gw_append_evolves [of env "after_verify env message g"]
    unfolding rejected audit_identity_failure_def by (simp add: evolves_def)
  then show ?thesis using assms(2-4) by auto
next
  case (intent v e)
  let ?g = "after_verify env message g" and ?d = "evaluate (gw_policy g) (policy_request (v_agent_id v) e)"
  obtain asks uses where
      st: "settles env message e ?d ?g (asks @ uses) (r, g')" "list_all (licensed env g e ?d) uses"
    and asks: "asks = [] \<or> (\<exists>ctx. asks = [EffConfirm ctx (ge_confirm env ctx)] \<and> asked_about (v_agent_id v) e ctx)"
    and gate: "uses \<noteq> [] \<Longrightarrow> d_effect ?d \<noteq> Deny \<and> (human_needed g e ?d \<longrightarrow> (\<exists>ctx. asks = [EffConfirm ctx Approved]))"
    using decide_intent_gated [of env message "v_agent_id v" e ?g] intent(4) unfolding gated_def by auto
  obtain rest where xs: "xs = asks @ uses @ rest" and rest: "\<forall>y \<in> set rest. \<not> uses_credential y"
    using st(1) assms(2) report_no_credential
    by (cases r) (force simp: settles_def evolves_def)+
  have x: "x \<in> set uses" using assms(3,4) xs rest asks by auto
  then have lic: "licensed env g e ?d x" using st(2) by (simp add: list_all_iff)
  have "uses \<noteq> []" using x by auto
  with gate asks xs have "d_effect ?d \<noteq> Deny"
    "human_needed g e ?d \<longrightarrow> (\<exists>ctx. hd xs = EffConfirm ctx Approved \<and> asked_about (v_agent_id v) e ctx)"
    by fastforce+
  then show ?thesis using intent(1-3) lic verified_envelope_agent [OF intent(1,2)] by metis
next
  case (frame v)
  then obtain ys where "gw_effects g' = gw_effects g @ ys"
    "list_all (frame_allowed env message (after_verify env message g) (v_agent_id v)) ys"
    by (auto simp: relays_def evolves_def)
  then show ?thesis using assms(2-4) frame_no_credential by (auto simp: list_all_iff)
qed (use assms(2-4) in auto)

section \<open>One record for each intent\<close>

lemma handle_intent_verified:
  assumes "verified_by env message g v" "envelope_from_value message = Some e"
  shows "handle_intent env message g = decide_intent env message (v_agent_id v) e (after_verify env message g)"
proof -
  have "gw_verify env message g = (Ok v, after_verify env message g)"
    using assms(1) verify_Ok_iff [of "ge_attest env" "ge_replay_io env" "gw_attestor g" message "ge_now env" v]
    by (auto simp: gw_verify_def after_verify_def verified_by_def split: prod.split)
  moreover have "v_envelope v = message" using assms(1) by (simp add: verified_by_def acceptable_def)
  ultimately show ?thesis using assms(2) by (simp add: handle_intent_def)
qed


section \<open>A concrete gateway\<close>

definition sample_genv :: gateway_env where
  "sample_genv = \<lparr>ge_attest = sample_env, ge_now = 12000000000, ge_mono = 0, ge_replay_io = all_io,
     ge_audit_fault = None, ge_audit_ts = Some ''t'', ge_confirm = (\<lambda>ctx. Approved), ge_http = sample_http_env,
     ge_ssh = sample_ssh, ge_ssh_nonce = [], ge_ssh_now = Some 0,
     ge_connect = (\<lambda>mech uri op s. Some (Ok 7)), ge_pg = sample_pg PgNull, ge_handle = ''h'',
     ge_write = (\<lambda>ch input. Ok ()),
     ge_batch = (\<lambda>ch. \<lparr>ob_chunks = [], ob_closed = False, ob_exit_code = None\<rparr>), ge_serde_error = (\<lambda>v. [])\<rparr>"

definition sample_gateway :: "effect \<Rightarrow> gateway" where
  "sample_gateway eff = \<lparr>gw_attestor = sample_attestor 30,
     gw_policy = from_rules [\<lparr>r_name = None, r_notify_on_use = False, r_effect = eff, r_agent_id = Exact ''a'',
       r_cred_ref = Any, r_target_uri = Any, r_mechanism = Any, r_pairs = [], r_limits = no_limits\<rparr>],
     gw_router = [(''local'', \<lambda>entry. Ok ''s3cr3t'')],
     gw_audit = \<lparr>aw_seq = 0, aw_prev_hash = zero_hash, aw_key = sample_seed, aw_file = []\<rparr>,
     gw_config = gateway_config_default, gw_sessions = session_table_new, gw_backends = [''ssh''], gw_privilege = None,
     gw_ruleset_hash = [], gw_event_hub = True, gw_halted = False, gw_halt_reason = None, gw_ssh_ca = None,
     gw_effects = []\<rparr>"

definition sample_intent_fields :: "string \<Rightarrow> json \<Rightarrow> json option \<Rightarrow> (string \<times> json) list" where
  "sample_intent_fields mech op con = [(''chaperone'', JStr ''0.1''), (''msg_id'', JStr ''m1''), (''type'', JStr ''intent''),
     (''agent_id'', JStr ''a''), (''issued_at'', JStr ''t''), (''nonce'', JStr ''n''),
     (''target'', JObj [(''uri'', JStr ''https://x''), (''label'', JStr ''x'')]), (''mechanism'', JStr mech),
     (''cred_ref'', JStr ''local://k''), (''operation'', op)] @ opt_member ''constraints'' con"

definition sample_intent :: "string \<Rightarrow> json \<Rightarrow> json option \<Rightarrow> json" where
  "sample_intent mech op con = sign_message sample_crypto sample_key (sample_intent_fields mech op con)"

definition sample_proof :: "json \<Rightarrow> verified_intent" where
  "sample_proof m = \<lparr>v_agent_id = ''a'', v_envelope = m, v_issued_at = 11800000000, v_nonce = ''n''\<rparr>"

lemma sample_intent_get:
  "as_object (sample_intent mech op con) \<noteq> None"
  "json_get (sample_intent mech op con) ''type'' = Some (JStr ''intent'')"
  "k \<noteq> ''sig'' \<Longrightarrow> get_str (sample_intent mech op con) k = get_str (JObj (sample_intent_fields mech op con)) k"
  by (simp_all add: sample_intent_def sign_message_def sample_intent_fields_def get_str_def)

lemma sample_intent_verified:
  assumes "json_exact op" "\<And>v. con = Some v \<Longrightarrow> json_exact v"
  shows "verified_by sample_genv (sample_intent mech op con) (sample_gateway eff) (sample_proof (sample_intent mech op con))"
proof -
  have ex: "json_exact (JObj (sample_intent_fields mech op con))"
    using assms by (cases con) (simp_all add: sample_intent_fields_def opt_member_def)
  have "check_signature sample_crypto (ed_public sample_crypto sample_key) (sample_intent mech op con)"
    unfolding sample_intent_def by (rule signed_message_checks [OF sample_crypto_ok(1,3,4) ex])
  then have "check_signature sample_crypto sample_key (sample_intent mech op con)" by (simp add: sample_crypto_def)
  moreover have "get_str (JObj (sample_intent_fields mech op con)) ''chaperone'' = Some ''0.1''"
    "get_str (JObj (sample_intent_fields mech op con)) ''agent_id'' = Some ''a''"
    "get_str (JObj (sample_intent_fields mech op con)) ''nonce'' = Some ''n''"
    "get_str (JObj (sample_intent_fields mech op con)) ''issued_at'' = Some ''t''"
    by (simp_all add: sample_intent_fields_def get_str_def)
  moreover have "as_object (sample_intent mech op con) \<noteq> None" by (rule sample_intent_get)
  ultimately show ?thesis
    by (auto simp: verified_by_def acceptable_def sample_genv_def sample_gateway_def sample_env_def sample_proof_def
      sample_attestor_def attestor_new_def sample_lookup sample_fresh nanos_def sample_intent_get(3) simp del: as_object.simps)
qed

definition sample_envelope :: "string \<Rightarrow> json \<Rightarrow> constraints option \<Rightarrow> string \<Rightarrow> envelope" where
  "sample_envelope mech op con sig = \<lparr>e_chaperone = ''0.1'', e_msg_id = ''m1'', e_kind = Intent, e_agent_id = ''a'',
     e_issued_at = ''t'', e_nonce = ''n'', e_target = \<lparr>t_uri = ''https://x'', t_label = ''x''\<rparr>, e_mechanism = mech,
     e_cred_ref = ''local://k'', e_operation = op, e_constraints = con, e_sig = sig\<rparr>"

lemma sample_intent_parses:
  "\<exists>sig. envelope_from_value (sample_intent mech op (map_option constraints_to_value con)) =
     Some (sample_envelope mech op con sig)"
  by (cases con) (simp_all add: sample_intent_def sign_message_def sample_intent_fields_def envelope_from_value_def
    opt_member_def field_str_def target_from_value_def sample_envelope_def envelope_kind_deserialize_def)

lemma sample_evaluates:
  "evaluate (gw_policy (sample_gateway eff)) (policy_request ''a'' e) =
     \<lparr>d_effect = eff, d_notify_on_use = False, d_source = FromRule 0 None None,
      d_limits = min_with no_limits (declared_limits (policy_request ''a'' e))\<rparr>"
  by (simp add: evaluate_def sample_gateway_def from_rules_def axes_match_def policy_request_def rule_decision_def)

lemma sample_handles:
  assumes "json_exact op" "\<And>c. con = Some c \<Longrightarrow> json_exact (constraints_to_value c)"
  obtains sig where
    "envelope_from_value (sample_intent mech op (map_option constraints_to_value con)) =
       Some (sample_envelope mech op con sig)"
    "handle_message sample_genv (sample_intent mech op (map_option constraints_to_value con)) (sample_gateway eff) =
       decide_intent sample_genv (sample_intent mech op (map_option constraints_to_value con)) ''a''
         (sample_envelope mech op con sig)
         (after_verify sample_genv (sample_intent mech op (map_option constraints_to_value con)) (sample_gateway eff))"
proof -
  let ?m = "sample_intent mech op (map_option constraints_to_value con)"
  obtain sig where sig: "envelope_from_value ?m = Some (sample_envelope mech op con sig)"
    using sample_intent_parses by blast
  have v: "verified_by sample_genv ?m (sample_gateway eff) (sample_proof ?m)"
    using assms by (intro sample_intent_verified) auto
  have "get_str ?m ''type'' = Some ''intent''" by (simp add: get_str_def sample_intent_get(2))
  then have "handle_message sample_genv ?m (sample_gateway eff) = handle_intent sample_genv ?m (sample_gateway eff)"
    by (simp add: handle_message_def sample_gateway_def)
  with handle_intent_verified [OF v sig] sig show thesis by (intro that) (simp_all add: sample_proof_def)
qed

definition sample_get :: json where
  "sample_get = JObj [(''method'', JStr ''GET'')]"

lemma run_http_resolves_first:
  assumes "http_operation_from_value (e_operation e) = Some op" "\<not> has_agent_authorization op"
  shows "\<exists>xs. gw_effects (snd (run_http env message e d g)) = gw_effects g @ EffResolve (e_cred_ref e) # xs"
proof -
  have aud: "gw_effects (snd (audit_decision env e (effect_str (d_effect d)) (d_notify_on_use d) out g')) =
      gw_effects g' @ report env e d out g'" for out g'
    using audit_decision_evolves by (simp add: evolves_def)
  show ?thesis
    using assms
    by (auto simp: run_http_def refuse_def Let_def case_prod_beta aud emit_def split: sum.split)
qed

text \<open>The confirmed request of the sample agent: first the human, then the vault.\<close>

lemma sample_get_effects:
  obtains r g' ctx xs where
    "handle_message sample_genv (sample_intent ''http-bearer'' sample_get None) (sample_gateway NeedsConfirmation) = (r, g')"
    "gw_effects g' = EffConfirm ctx Approved # EffResolve ''local://k'' # xs"
proof -
  let ?m = "sample_intent ''http-bearer'' sample_get None" and ?g = "sample_gateway NeedsConfirmation"
  obtain sig where h: "handle_message sample_genv ?m ?g =
      decide_intent sample_genv ?m ''a'' (sample_envelope ''http-bearer'' sample_get None sig) (after_verify sample_genv ?m ?g)"
    using sample_handles [of sample_get None "''http-bearer''" NeedsConfirmation] by (auto simp: sample_get_def)
  let ?e = "sample_envelope ''http-bearer'' sample_get None sig"
  let ?d = "evaluate (gw_policy ?g) (policy_request ''a'' ?e)"
  let ?ctx = "confirm_for ''a'' ?e (operation_summary sample_get)"
  obtain op where op: "http_operation_from_value sample_get = Some op" "\<not> has_agent_authorization op"
    by (simp add: http_operation_from_value_def sample_get_def has_agent_authorization_def field_str_def)
  have opE: "http_operation_from_value (e_operation ?e) = Some op" using op(1) by (simp add: sample_envelope_def)
  have "handle_message sample_genv ?m ?g =
      run_http sample_genv ?m ?e ?d (emit (EffConfirm ?ctx Approved) (after_verify sample_genv ?m ?g))"
    unfolding h decide_intent_def route_one_shot_def ask_human_cases broker_def
    by (simp add: sample_evaluates one_shot_def sample_envelope_def sample_genv_def Let_def)
  moreover obtain xs where "gw_effects (snd (run_http sample_genv ?m ?e ?d
      (emit (EffConfirm ?ctx Approved) (after_verify sample_genv ?m ?g)))) =
      gw_effects (emit (EffConfirm ?ctx Approved) (after_verify sample_genv ?m ?g)) @ EffResolve (e_cred_ref ?e) # xs"
    using run_http_resolves_first [OF opE op(2)] by blast
  moreover have "gw_effects (emit (EffConfirm ?ctx Approved) (after_verify sample_genv ?m ?g)) = [EffConfirm ?ctx Approved]"
    by (simp add: emit_def sample_gateway_def)
  moreover have "e_cred_ref ?e = ''local://k''" by (simp add: sample_envelope_def)
  ultimately show thesis by (intro that [OF surjective_pairing]) auto
qed

theorem credential_use_authorized_witness:
  "\<exists>v e. verified_by sample_genv (sample_intent ''http-bearer'' sample_get None) (sample_gateway NeedsConfirmation) v \<and>
     envelope_from_value (sample_intent ''http-bearer'' sample_get None) = Some e \<and> e_agent_id e = v_agent_id v"
proof -
  obtain r g' ctx xs where
    h: "handle_message sample_genv (sample_intent ''http-bearer'' sample_get None) (sample_gateway NeedsConfirmation) = (r, g')"
    and xs: "gw_effects g' = EffConfirm ctx Approved # EffResolve ''local://k'' # xs"
    by (rule sample_get_effects)
  have "gw_effects (sample_gateway NeedsConfirmation) = []" by (simp add: sample_gateway_def)
  with credential_use_authorized [OF h, of "gw_effects g'" "EffResolve ''local://k''"] xs show ?thesis by auto
qed


end
