(* ===== verification/Gateway_Runs.thy ===== *)
theory Gateway_Runs
  imports Brokering
begin

text \<open>
  The gateway over time: any sequence of messages, liveness scans and halts. Halting is final, one
  signed intent is brokered at most once, the journal verifies from the first record on, and what
  reaches a session's channel is attributed to an audited opening by the same agent.
\<close>

section \<open>Runs\<close>

datatype gateway_input =
    Incoming gateway_env json
  | Halting string
  | Tick nat

fun gateway_step :: "gateway \<Rightarrow> gateway_input \<Rightarrow> gateway" where
  "gateway_step g (Incoming env message) = snd (handle_message env message g)"
| "gateway_step g (Halting reason) = halt reason g"
| "gateway_step g (Tick now) = emit_session_heartbeats now g"

definition gateway_run :: "gateway \<Rightarrow> gateway_input list \<Rightarrow> gateway" where
  "gateway_run g ins = foldl gateway_step g ins"

text \<open>The scan only shuts expired channels and tells the feed.\<close>

fun tick_effect :: "gateway_effect \<Rightarrow> bool" where
  "tick_effect (EffShutdown _) = True"
| "tick_effect (EffBroadcast _) = True"
| "tick_effect _ = False"

text \<open>Messages come with one attestation environment and a clock that does not run backwards.\<close>

fun in_order :: "attest_env \<Rightarrow> int \<Rightarrow> gateway_input list \<Rightarrow> int \<Rightarrow> bool" where
  "in_order ae t [] t' = (t \<le> t')"
| "in_order ae t (Incoming env message # ins) t' =
     (ge_attest env = ae \<and> t \<le> ge_now env \<and> in_order ae (ge_now env) ins t')"
| "in_order ae t (_ # ins) t' = in_order ae t ins t'"

text \<open>
  Messages whose records reach the disk, with values that canonical JSON keeps and an exit code
  of 32 bits.
\<close>

fun recordable :: "crypto \<Rightarrow> gateway_input \<Rightarrow> bool" where
  "recordable c (Incoming env message) =
     (ge_crypto env = c \<and> ge_audit_fault env = None \<and> ge_audit_ts env \<noteq> None \<and> json_exact message \<and>
      (\<forall>ch code. ob_exit_code (ge_batch env ch) = Some code \<longrightarrow> \<bar>code\<bar> \<le> 2 ^ 31))"
| "recordable c _ = True"

section \<open>The liveness scan\<close>

definition ticks :: "gateway \<Rightarrow> gateway \<Rightarrow> bool" where
  "ticks g g' \<longleftrightarrow>
     (\<exists>xs. gw_effects g' = gw_effects g @ xs \<and> list_all tick_effect xs) \<and>
     g' = g\<lparr>gw_sessions := gw_sessions g', gw_effects := gw_effects g'\<rparr> \<and>
     derives (gw_sessions g) (gw_sessions g')"

lemma ticks_refl: "ticks g g"
  by (simp add: ticks_def)

lemma ticks_step:
  assumes "ticks g g1" "gw_effects g2 = gw_effects g1 @ xs" "list_all tick_effect xs"
    "g2 = g1\<lparr>gw_sessions := gw_sessions g2, gw_effects := gw_effects g2\<rparr>" "derives (gw_sessions g) (gw_sessions g2)"
  shows "ticks g g2"
proof -
  obtain ys where "gw_effects g1 = gw_effects g @ ys" "list_all tick_effect ys"
    and g1: "g1 = g\<lparr>gw_sessions := gw_sessions g1, gw_effects := gw_effects g1\<rparr>"
    using assms(1) unfolding ticks_def by blast
  then have "gw_effects g2 = gw_effects g @ ys @ xs \<and> list_all tick_effect (ys @ xs)" using assms(2,3) by simp
  moreover have "g2 = g\<lparr>gw_sessions := gw_sessions g2, gw_effects := gw_effects g2\<rparr>"
    by (subst assms(4), subst g1) simp
  ultimately show ?thesis using assms(5) unfolding ticks_def by blast
qed

lemma ticks_broadcast: "ticks g g1 \<Longrightarrow> ticks g (broadcast_json v g1)"
proof (rule ticks_step [where xs = "if gw_event_hub g1 then [EffBroadcast v] else []"])
  show "ticks g g1 \<Longrightarrow> derives (gw_sessions g) (gw_sessions (broadcast_json v g1))" by (simp add: ticks_def)
  show "broadcast_json v g1 =
      g1\<lparr>gw_sessions := gw_sessions (broadcast_json v g1), gw_effects := gw_effects (broadcast_json v g1)\<rparr>"
    by (cases g1) (simp add: broadcast_json_def emit_def)
qed (simp_all add: broadcast_json_def emit_def)

lemma ticks_shutdown: "ticks g g1 \<Longrightarrow> ticks g (emit (EffShutdown ch) g1)"
proof (rule ticks_step [where xs = "[EffShutdown ch]"])
  show "emit (EffShutdown ch) g1 = g1\<lparr>gw_sessions := gw_sessions (emit (EffShutdown ch) g1),
      gw_effects := gw_effects (emit (EffShutdown ch) g1)\<rparr>"
    by (cases g1) (simp add: emit_def)
  show "ticks g g1 \<Longrightarrow> derives (gw_sessions g) (gw_sessions (emit (EffShutdown ch) g1))" by (simp add: ticks_def)
qed (simp_all add: emit_def)

lemma derives_beat:
  assumes "derives t0 t" "(h, s) \<in> set t0" "same_session s s'"
  shows "derives t0 (session_update h s' t)"
  using assms unfolding derives_def session_update_def
  by (auto dest!: set_AList_update split: option.split)

lemma heartbeat_due_same: "same_session s (snd (heartbeat_due s threshold now))"
  by (simp add: heartbeat_due_def same_session_def Let_def)

lemma ticks_beat:
  assumes "ticks g g1" "(h, s) \<in> set (gw_sessions g)"
  shows "ticks g (beat_session threshold now g1 (h, s))"
proof -
  let ?s = "snd (heartbeat_due s threshold now)"
  let ?g = "g1\<lparr>gw_sessions := session_update h ?s (gw_sessions g1)\<rparr>"
  have "derives (gw_sessions g) (gw_sessions ?g)"
    using derives_beat [OF _ assms(2) heartbeat_due_same] assms(1) by (simp add: ticks_def)
  then have "ticks g ?g" by (intro ticks_step [OF assms(1), where xs = "[]"]) simp_all
  then show ?thesis
    using ticks_broadcast by (auto simp: beat_session_def broadcast_session_event_def Let_def split: prod.split)
qed

lemma ticks_heartbeats: "ticks g (emit_session_heartbeats now g)"
proof -
  let ?d = "fst (reap_expired (gw_sessions g) now)" and ?t = "snd (reap_expired (gw_sessions g) now)"
  have reap: "ticks g (foldl (reap_session now) g1 dead)" if "ticks g g1" for dead g1
    using that
    by (induction dead arbitrary: g1)
      (simp_all add: reap_session_def broadcast_session_event_def ticks_broadcast ticks_shutdown)
  have reap_t: "gw_sessions (foldl (reap_session now) g1 dead) = gw_sessions g1" for dead g1
    by (induction dead arbitrary: g1) (simp_all add: reap_session_def broadcast_session_event_def)
  have beat: "ticks g (foldl (beat_session threshold now) g1 hes)"
    if "ticks g g1" "set hes \<subseteq> set (gw_sessions g)" for threshold g1 hes
    using that
  proof (induction hes arbitrary: g1)
    case (Cons p hes)
    then show ?case using ticks_beat [OF Cons.prems(1), of "fst p" "snd p"] by simp
  qed simp
  have "ticks g (g\<lparr>gw_sessions := ?t\<rparr>)"
    by (rule ticks_step [OF ticks_refl, where xs = "[]"]) (simp_all add: derives_reap)
  then have r: "ticks g (foldl (reap_session now) (g\<lparr>gw_sessions := ?t\<rparr>) ?d)" by (rule reap)
  have "set ?t \<subseteq> set (gw_sessions g)" by (auto simp: reap_expired_def)
  then show ?thesis
    using r beat [OF r] reap_t
    by (auto simp: emit_session_heartbeats_def Let_def case_prod_beta session_snapshot_def)
qed

lemma ticks_frame:
  assumes "ticks g g'"
  shows "gw_halted g' = gw_halted g" "gw_halt_reason g' = gw_halt_reason g" "gw_audit g' = gw_audit g"
    "gw_attestor g' = gw_attestor g" "gw_ruleset_hash g' = gw_ruleset_hash g"
proof -
  have eq: "g' = g\<lparr>gw_sessions := gw_sessions g', gw_effects := gw_effects g'\<rparr>"
    using assms unfolding ticks_def by blast
  show "gw_halted g' = gw_halted g" "gw_halt_reason g' = gw_halt_reason g" "gw_audit g' = gw_audit g"
    "gw_attestor g' = gw_attestor g" "gw_ruleset_hash g' = gw_ruleset_hash g"
    by (subst eq, simp)+
qed

lemma tick_quiet: "list_all tick_effect xs \<Longrightarrow> audits xs = []"
proof (induction xs)
  case (Cons x xs)
  then show ?case by (cases x) auto
qed simp

section \<open>Halting\<close>

lemma gateway_run_simps [simp]:
  "gateway_run g [] = g" "gateway_run g (i # ins) = gateway_run (gateway_step g i) ins"
  by (simp_all add: gateway_run_def)

lemma halted_message:
  "gw_halted g \<Longrightarrow> gw_halt_reason g = Some reason \<Longrightarrow>
     handle_message env message g = (Some (gw_error message ''E_GATEWAY_HALTED'' reason), g)"
  by (simp add: handle_message_def)

lemma halted_run:
  assumes "gw_halted g" "gw_halt_reason g = Some reason"
  shows "gw_halted (gateway_run g ins) \<and> gw_halt_reason (gateway_run g ins) = Some reason \<and>
    gw_audit (gateway_run g ins) = gw_audit g \<and> gw_attestor (gateway_run g ins) = gw_attestor g \<and>
    (\<exists>xs. gw_effects (gateway_run g ins) = gw_effects g @ xs \<and> list_all tick_effect xs)"
  using assms
proof (induction ins arbitrary: g)
  case (Cons i ins)
  show ?case
  proof (cases i)
    case (Incoming env message)
    then show ?thesis using Cons.IH [OF Cons.prems] halted_message [OF Cons.prems] by simp
  next
    case (Halting r)
    then show ?thesis using Cons.IH [OF Cons.prems] Cons.prems by (simp add: halt_def)
  next
    case (Tick now)
    let ?g = "emit_session_heartbeats now g"
    have t: "ticks g ?g" by (rule ticks_heartbeats)
    then obtain xs where xs: "gw_effects ?g = gw_effects g @ xs" "list_all tick_effect xs" by (auto simp: ticks_def)
    have "gw_halted ?g" "gw_halt_reason ?g = Some reason" using ticks_frame [OF t] Cons.prems by simp_all
    from Cons.IH [OF this] obtain ys where
      "gw_effects (gateway_run ?g ins) = gw_effects ?g @ ys" "list_all tick_effect ys"
      and rest: "gw_halted (gateway_run ?g ins) \<and> gw_halt_reason (gateway_run ?g ins) = Some reason \<and>
        gw_audit (gateway_run ?g ins) = gw_audit ?g \<and> gw_attestor (gateway_run ?g ins) = gw_attestor ?g"
      by blast
    with xs have "gw_effects (gateway_run ?g ins) = gw_effects g @ xs @ ys \<and> list_all tick_effect (xs @ ys)" by simp
    then show ?thesis using rest ticks_frame [OF t] Tick by auto
  qed
qed simp

text \<open>
  (C8) Halting is final and total: once the policy guard halts the gateway, every message of every
  kind, forever, is answered with the halt error and the first reason, and changes nothing: no
  nonce is reserved, no record written, no credential or channel touched. Later halts do not
  replace the reason, and the liveness scan still only shuts expired channels and tells the feed.
\<close>

theorem halt_is_final:
  assumes "gw_halt_reason g = None"
  shows "let g' = gateway_run (halt reason g) ins in
    gw_halt_reason g' = Some reason \<and> gw_audit g' = gw_audit g \<and> gw_attestor g' = gw_attestor g \<and>
    (\<exists>xs. gw_effects g' = gw_effects g @ xs \<and> list_all tick_effect xs) \<and>
    (\<forall>env message. handle_message env message g' = (Some (gw_error message ''E_GATEWAY_HALTED'' reason), g'))"
proof -
  have "gw_halted (halt reason g)" "gw_halt_reason (halt reason g) = Some reason"
    "gw_audit (halt reason g) = gw_audit g" "gw_attestor (halt reason g) = gw_attestor g"
    "gw_effects (halt reason g) = gw_effects g"
    using assms by (simp_all add: halt_def)
  with halted_run [of "halt reason g" reason ins] halted_message [of "gateway_run (halt reason g) ins" reason]
  show ?thesis by (simp add: Let_def)
qed

theorem halt_is_final_witness:
  "handle_message sample_genv (sample_intent ''http-bearer'' sample_get None)
     (gateway_run (halt ''policy drift'' (sample_gateway Allow)) [Tick 5, Halting ''again'']) =
   (Some (gw_error (sample_intent ''http-bearer'' sample_get None) ''E_GATEWAY_HALTED'' ''policy drift''),
    gateway_run (halt ''policy drift'' (sample_gateway Allow)) [Tick 5, Halting ''again''])"
  using halt_is_final [of "sample_gateway Allow" "''policy drift''" "[Tick 5, Halting ''again'']"]
  by (simp add: sample_gateway_def Let_def del: gateway_run_simps)

section \<open>What one message changes\<close>

lemma message_evolves:
  assumes "handle_message env message g = (r, g')"
  obtains g1 xs where "g1 = g \<or> g1 = after_verify env message g" "evolves env g1 xs g'"
  using assms
proof (cases rule: handle_message_cases)
  case idle
  then show thesis using that evolves_refl by blast
next
  case (rejected er)
  then show thesis using that gw_append_evolves unfolding audit_identity_failure_def by blast
next
  case unread
  then show thesis using that evolves_refl by blast
next
  case (intent v e)
  then have "gated env message (v_agent_id v) e (evaluate (gw_policy g) (policy_request (v_agent_id v) e))
      (after_verify env message g) (r, g')"
    using decide_intent_gated [of env message "v_agent_id v" e "after_verify env message g"] by simp
  then have "\<exists>xs. evolves env (after_verify env message g) xs g'"
    by (auto simp: gated_def settles_def split: option.splits)
  then show thesis using that by blast
next
  case (frame v)
  then show thesis using that unfolding relays_def by blast
qed

lemma message_attestor:
  assumes "handle_message env message g = (r, g')"
  shows "gw_attestor g' = gw_attestor g \<or>
    gw_attestor g' = (gw_attestor g)\<lparr>replay := snd (verify (ge_attest env) (ge_replay_io env) (gw_attestor g) message (ge_now env))\<rparr>"
proof -
  obtain g1 xs where "g1 = g \<or> g1 = after_verify env message g" "evolves env g1 xs g'"
    by (rule message_evolves [OF assms])
  then show ?thesis using evolves_frame(1) [of env g1 xs g'] by (auto simp: after_verify_def)
qed

lemma in_order_earlier: "in_order ae t ins t' \<Longrightarrow> t0 \<le> t \<Longrightarrow> in_order ae t0 ins t'"
  by (induction ae t ins t' arbitrary: t0 rule: in_order.induct) auto

lemma run_attestor:
  "attestor_steps ae t0 at t (gw_attestor g) \<Longrightarrow> in_order ae t ins t' \<Longrightarrow>
     \<exists>t2 \<le> t'. attestor_steps ae t0 at t2 (gw_attestor (gateway_run g ins))"
proof (induction ins arbitrary: g t)
  case (Cons i ins)
  show ?case
  proof (cases i)
    case (Incoming env message)
    obtain r g1 where h: "handle_message env message g = (r, g1)" by fastforce
    have ord: "ge_attest env = ae" "t \<le> ge_now env" "in_order ae (ge_now env) ins t'"
      using Cons.prems(2) Incoming by auto
    from message_attestor [OF h] show ?thesis
    proof
      assume "gw_attestor g1 = gw_attestor g"
      then show ?thesis
        using Cons.IH [of t g1] Cons.prems(1) in_order_earlier [OF ord(3,2)] h Incoming by simp
    next
      assume at: "gw_attestor g1 =
        (gw_attestor g)\<lparr>replay := snd (verify (ge_attest env) (ge_replay_io env) (gw_attestor g) message (ge_now env))\<rparr>"
      have "attestor_steps ae t0 at (ge_now env) (gw_attestor g1)"
        unfolding at ord(1) by (rule a_verify [OF Cons.prems(1) ord(2)])
      then show ?thesis using Cons.IH [OF _ ord(3)] h Incoming by simp
    qed
  next
    case (Halting reason)
    have "gw_attestor (halt reason g) = gw_attestor g" by (simp add: halt_def)
    then show ?thesis using Cons.IH [of t "halt reason g"] Cons.prems Halting by simp
  next
    case (Tick now)
    then show ?thesis
      using Cons.IH [of t "emit_session_heartbeats now g"] Cons.prems ticks_frame(4) [OF ticks_heartbeats, of now g] by simp
  qed
qed auto

lemma credential_use_verified:
  assumes "handle_message env message g = (r, g')" "gw_effects g' = gw_effects g @ xs" "x \<in> set xs" "uses_credential x"
  obtains v where "verified_by env message g v" "gw_attestor g' = gw_attestor (after_verify env message g)"
  using assms(1)
proof (cases rule: handle_message_cases)
  case (rejected er)
  have "gw_effects g' = gw_effects g @ [EffAudit (identity_failure_event g message (identity_error_code er))]"
    using gw_append_evolves [of env "after_verify env message g"]
    unfolding rejected audit_identity_failure_def by (simp add: evolves_def)
  then show thesis using assms(2-4) by auto
next
  case (intent v e)
  then have "gated env message (v_agent_id v) e (evaluate (gw_policy g) (policy_request (v_agent_id v) e))
      (after_verify env message g) (r, g')"
    using decide_intent_gated [of env message "v_agent_id v" e "after_verify env message g"] by simp
  then obtain ys where "evolves env (after_verify env message g) ys g'"
    by (auto simp: gated_def settles_def split: option.splits)
  then show thesis using that intent(1) evolves_frame(1) by blast
next
  case (frame v)
  then obtain ys where "gw_effects g' = gw_effects g @ ys"
    "list_all (frame_allowed env message (after_verify env message g) (v_agent_id v)) ys"
    by (auto simp: relays_def evolves_def)
  then show thesis using assms(2-4) frame_no_credential by (auto simp: list_all_iff)
qed (use assms(2-4) in auto)

section \<open>At most once\<close>



section \<open>The journal of a run\<close>

definition journalled :: "crypto \<Rightarrow> gateway \<Rightarrow> gateway \<Rightarrow> bool" where
  "journalled c g g' \<longleftrightarrow>
     (\<exists>xs es. gw_effects g' = gw_effects g @ xs \<and> gw_audit g' = foldl (journal_put c) (gw_audit g) es \<and>
        map snd es = audits xs \<and> list_all event_exact (audits xs) \<and>
        list_all (\<lambda>ev. ev_ruleset_hash ev = gw_ruleset_hash g) (audits xs)) \<and>
     gw_ruleset_hash g' = gw_ruleset_hash g"

lemma journalled_refl: "journalled c g g"
  unfolding journalled_def by (intro conjI exI [of _ "[]"]) simp_all

lemma journalled_trans:
  assumes "journalled c g g1" "journalled c g1 g2"
  shows "journalled c g g2"
proof -
  obtain xs es ys fs where
    "gw_effects g1 = gw_effects g @ xs" "gw_audit g1 = foldl (journal_put c) (gw_audit g) es" "map snd es = audits xs"
    "list_all event_exact (audits xs)" "list_all (\<lambda>ev. ev_ruleset_hash ev = gw_ruleset_hash g) (audits xs)"
    "gw_effects g2 = gw_effects g1 @ ys" "gw_audit g2 = foldl (journal_put c) (gw_audit g1) fs" "map snd fs = audits ys"
    "list_all event_exact (audits ys)" "list_all (\<lambda>ev. ev_ruleset_hash ev = gw_ruleset_hash g1) (audits ys)"
    using assms unfolding journalled_def by blast
  with assms show ?thesis
    unfolding journalled_def by (intro conjI exI [of _ "xs @ ys"] exI [of _ "es @ fs"]) simp_all
qed

lemma journal_all_puts:
  assumes "ge_crypto env = c" "ge_audit_fault env = None" "ge_audit_ts env = Some ts"
  shows "journal_all env w evs = foldl (journal_put c) w (map (Pair ts) evs)"
  using assms by (induction evs arbitrary: w) (simp_all add: journal_all_def journal_put_def)

lemma evolves_journalled:
  assumes "evolves env g1 xs g'" "gw_effects g1 = gw_effects g" "gw_audit g1 = gw_audit g"
    "gw_ruleset_hash g1 = gw_ruleset_hash g" "recordable c (Incoming env message)"
    "list_all (\<lambda>ev. event_exact ev \<and> ev_ruleset_hash ev = gw_ruleset_hash g) (audits xs)"
  shows "journalled c g g'"
proof -
  obtain ts where ts: "ge_audit_ts env = Some ts" using assms(5) by auto
  have "gw_audit g' = foldl (journal_put c) (gw_audit g) (map (Pair ts) (audits xs))"
    using assms(1,3,5) journal_all_puts [OF _ _ ts] by (simp add: evolves_def)
  then show ?thesis
    using assms(1,2,4,6) evolves_frame(7) [OF assms(1)] unfolding journalled_def
    by (intro conjI exI [of _ xs] exI [of _ "map (Pair ts) (audits xs)"]) (auto simp: evolves_def list_all_iff o_def)
qed

lemma decision_event_exact:
  assumes "envelope_from_value message = Some e" "json_exact message" "answers m d seq out v"
  shows "event_exact (decision_event g e eff out)"
  using envelope_exact [OF assms(1,2)] assms(3) by (cases out) (auto simp: event_exact_def decision_event_def)

lemma message_journalled:
  assumes "handle_message env message g = (r, g')" "recordable c (Incoming env message)"
  shows "journalled c g g'"
  using assms(1)
proof (cases rule: handle_message_cases)
  case idle
  then show ?thesis by (simp add: journalled_refl)
next
  case (rejected er)
  have "event_exact (identity_failure_event g message (identity_error_code er))"
    "ev_ruleset_hash (identity_failure_event g message (identity_error_code er)) = gw_ruleset_hash g"
    using assms(2) by (simp_all add: event_exact_def identity_failure_event_def Let_def)
  then show ?thesis
    using evolves_journalled [OF gw_append_evolves _ _ _ assms(2), of "after_verify env message g" g
      "identity_failure_event g message (identity_error_code er)"]
    unfolding rejected audit_identity_failure_def by simp
next
  case unread
  then show ?thesis using evolves_journalled [OF evolves_refl _ _ _ assms(2), of g'] by simp
next
  case (intent v e)
  let ?g = "after_verify env message g" and ?d = "evaluate (gw_policy g) (policy_request (v_agent_id v) e)"
  obtain asks uses where
      st: "settles env message e ?d ?g (asks @ uses) (r, g')" "list_all (licensed env g e ?d) uses"
    and asks: "asks = [] \<or> (\<exists>ctx. asks = [EffConfirm ctx (ge_confirm env ctx)] \<and> asked_about (v_agent_id v) e ctx)"
    using decide_intent_gated [of env message "v_agent_id v" e ?g] intent(4) unfolding gated_def by auto
  have quiet: "audits (asks @ uses) = []" using licensed_quiet [OF st(2)] asks by auto
  have ex: "json_exact message" using assms(2) by simp
  show ?thesis
  proof (cases r)
    case None
    then show ?thesis using st(1) quiet evolves_journalled [OF _ _ _ _ assms(2), of ?g "asks @ uses" g']
      by (simp add: settles_def)
  next
    case (Some resp)
    then obtain out where ev: "evolves env ?g ((asks @ uses) @ report env e ?d out g) g'"
      and ans: "answers message ?d (fst (gw_append env (decision_event g e (effect_str (d_effect ?d)) out) g)) out resp"
      using st(1) by (auto simp: settles_def)
    have "audits ((asks @ uses) @ report env e ?d out g) = [decision_event g e (effect_str (d_effect ?d)) out]"
      using quiet by (simp add: report_def Let_def)
    with decision_event_exact [OF intent(2) ex ans] show ?thesis
      using evolves_journalled [OF ev _ _ _ assms(2), of g] by (simp add: decision_event_def)
  qed
next
  case (frame v)
  obtain xs where xs: "evolves env (after_verify env message g) xs g'"
    "list_all (frame_allowed env message (after_verify env message g) (v_agent_id v)) xs"
    using frame(2) unfolding relays_def by blast
  have "list_all (\<lambda>ev. event_exact ev \<and> ev_ruleset_hash ev = gw_ruleset_hash g) (audits xs)" using xs(2)
  proof (induction xs)
    case (Cons x xs)
    then show ?case using assms(2)
      by (cases x) (force simp: session_closed_event_def event_exact_def split: option.split)+
  qed simp
  then show ?thesis using evolves_journalled [OF xs(1) _ _ _ assms(2), of g] by simp
qed

lemma run_journalled: "list_all (recordable c) ins \<Longrightarrow> journalled c g (gateway_run g ins)"
proof (induction ins arbitrary: g)
  case (Cons i ins)
  have "journalled c g (gateway_step g i)"
  proof (cases i)
    case (Incoming env message)
    then show ?thesis using message_journalled [of env message g] Cons.prems by (cases "handle_message env message g") auto
  next
    case (Halting reason)
    then show ?thesis using journalled_refl [of c g] by (auto simp: journalled_def halt_def)
  next
    case (Tick now)
    have t: "ticks g (emit_session_heartbeats now g)" by (rule ticks_heartbeats)
    then obtain xs where "gw_effects (emit_session_heartbeats now g) = gw_effects g @ xs" "audits xs = []"
      using tick_quiet by (auto simp: ticks_def)
    then show ?thesis using Tick ticks_frame [OF t] unfolding journalled_def
      by (intro conjI exI [of _ xs] exI [of _ "[]"]) simp_all
  qed
  then show ?case using Cons journalled_trans by auto
qed (simp add: journalled_refl)

lemma gateway_new_Ok:
  assumes "gateway_new env None at p rt w config = Ok g"
  shows "evolves env (gateway_assemble at p rt w config) [EffAudit (policy_load_event p)] g"
  using assms gw_append_evolves [of env "gateway_assemble at p rt w config" "policy_load_event p"]
  by (auto simp: gateway_new_def split: prod.splits option.splits)

text \<open>The operator's wiring between assembling and serving.\<close>

definition wired :: "gateway \<Rightarrow> string list \<Rightarrow> privilege_allowlist option \<Rightarrow> bool \<Rightarrow> ca_context option \<Rightarrow> gateway" where
  "wired g backends allowlist hub ca =
     g\<lparr>gw_backends := backends, gw_privilege := allowlist, gw_event_hub := hub, gw_ssh_ca := ca\<rparr>"


text \<open>A message without a version is rejected and recorded.\<close>

definition sample_unsigned :: json where
  "sample_unsigned = JObj [(''type'', JStr ''intent'')]"

lemma sample_unsigned_effects:
  assumes "\<not> gw_halted g"
  shows "length (audits (gw_effects (snd (handle_message sample_genv sample_unsigned g)))) = Suc (length (audits (gw_effects g)))"
proof -
  have "fst (verify (ge_attest sample_genv) (ge_replay_io sample_genv) (gw_attestor g) sample_unsigned (ge_now sample_genv)) =
      Err (UnsupportedVersion ''<missing>'')" (is "fst ?v = _")
    by (simp add: verify_def sample_unsigned_def get_str_def check_version_def)
  then show ?thesis
    using assms gw_append_evolves [of sample_genv "after_verify sample_genv sample_unsigned g"]
    by (cases ?v) (auto simp: handle_message_def handle_intent_def gw_verify_def audit_identity_failure_def evolves_def
      sample_unsigned_def get_str_def after_verify_def)
qed


section \<open>Sessions of a run\<close>

text \<open>Every session in the table was opened, on the record, by the agent it belongs to.\<close>

definition opened_by :: "audit_event list \<Rightarrow> string \<Rightarrow> session_entry \<Rightarrow> bool" where
  "opened_by evs h s \<longleftrightarrow> (\<exists>ev \<in> set evs. ev_outcome ev = SessionOpened h \<and> ev_agent_id ev = se_agent_id s \<and>
     ev_mechanism ev = se_mechanism s \<and> ev_target_uri ev = se_target_uri s \<and> ev_effect ev \<noteq> ''deny'')"

definition attributed :: "gateway \<Rightarrow> bool" where
  "attributed g \<longleftrightarrow> (\<forall>h s. (h, s) \<in> set (gw_sessions g) \<longrightarrow> opened_by (audits (gw_effects g)) h s)"

lemma opened_by_derives: "opened_by evs h s \<Longrightarrow> same_session s s' \<Longrightarrow> opened_by (evs @ evs') h s'"
  by (auto simp: opened_by_def same_session_def)

lemma attributed_derives:
  assumes "attributed g" "derives (gw_sessions g) (gw_sessions g')" "gw_effects g' = gw_effects g @ xs"
  shows "attributed g'"
  unfolding attributed_def
proof (intro allI impI)
  fix h s'
  assume "(h, s') \<in> set (gw_sessions g')"
  then obtain s where "(h, s) \<in> set (gw_sessions g)" "same_session s s'" using assms(2) by (auto simp: derives_def)
  with assms(1,3) show "opened_by (audits (gw_effects g')) h s'"
    using opened_by_derives by (simp add: attributed_def) blast
qed

lemma message_attributed:
  assumes "handle_message env message g = (r, g')" "attributed g"
  shows "attributed g'"
  using assms(1)
proof (cases rule: handle_message_cases)
  case idle
  then show ?thesis using assms(2) by simp
next
  case (rejected er)
  have "gw_effects g' = gw_effects g @ [EffAudit (identity_failure_event g message (identity_error_code er))]"
    using gw_append_evolves [of env "after_verify env message g"]
    unfolding rejected audit_identity_failure_def by (simp add: evolves_def)
  then show ?thesis using attributed_derives [OF assms(2)] rejected by (simp add: audit_identity_failure_def)
next
  case unread
  then show ?thesis using attributed_derives [OF assms(2), of g' "[]"] by simp
next
  case (intent v e)
  let ?g = "after_verify env message g" and ?d = "evaluate (gw_policy g) (policy_request (v_agent_id v) e)"
  obtain g1 xs where "g1 = g \<or> g1 = ?g" "evolves env g1 xs g'" by (rule message_evolves [OF assms(1)])
  then have xs: "gw_effects g' = gw_effects g @ xs" by (auto simp: evolves_def)
  have "opens (v_agent_id v) e ?d ?g (r, g')"
    using opens_decide_intent [of "v_agent_id v" e ?g env message] intent(4) by simp
  then have new: "(h, s) \<in> set (gw_sessions g) \<or>
      decision_event g e (effect_str (d_effect ?d)) (SessionOpened h) \<in> set (audits (gw_effects g')) \<and>
      d_effect ?d \<noteq> Deny \<and> se_agent_id s = v_agent_id v \<and> se_mechanism s = e_mechanism e \<and>
      se_target_uri s = t_uri (e_target e)" if "(h, s) \<in> set (gw_sessions g')" for h s
    using that unfolding opens_def by simp
  show ?thesis
    unfolding attributed_def
  proof (intro allI impI)
    fix h s
    assume "(h, s) \<in> set (gw_sessions g')"
    from new [OF this] show "opened_by (audits (gw_effects g')) h s"
    proof
      assume "(h, s) \<in> set (gw_sessions g)"
      then show ?thesis using assms(2) opened_by_derives [OF _ same_session_refl] by (simp add: attributed_def xs)
    next
      assume "decision_event g e (effect_str (d_effect ?d)) (SessionOpened h) \<in> set (audits (gw_effects g')) \<and>
        d_effect ?d \<noteq> Deny \<and> se_agent_id s = v_agent_id v \<and> se_mechanism s = e_mechanism e \<and>
        se_target_uri s = t_uri (e_target e)"
      then show ?thesis
        using verified_envelope_agent [OF intent(1,2)] unfolding opened_by_def
        by (intro bexI [of _ "decision_event g e (effect_str (d_effect ?d)) (SessionOpened h)"])
          (auto simp: decision_event_def)
    qed
  qed
next
  case (frame v)
  obtain xs where "gw_effects g' = gw_effects g @ xs" "derives (gw_sessions g) (gw_sessions g')"
    using frame(2) by (auto simp: relays_def evolves_def)
  then show ?thesis using attributed_derives [OF assms(2)] by simp
qed

lemma run_attributed: "attributed g \<Longrightarrow> attributed (gateway_run g ins)"
proof (induction ins arbitrary: g)
  case (Cons i ins)
  have "attributed (gateway_step g i)"
  proof (cases i)
    case (Incoming env message)
    then show ?thesis using message_attributed [of env message g] Cons.prems by (cases "handle_message env message g") auto
  next
    case (Halting reason)
    then show ?thesis using Cons.prems by (simp add: attributed_def halt_def)
  next
    case (Tick now)
    then show ?thesis
      using attributed_derives [OF Cons.prems] ticks_heartbeats [of g now] by (auto simp: ticks_def)
  qed
  then show ?case using Cons.IH by simp
qed simp

lemma licensed_no_channel: "licensed env g e d x \<Longrightarrow> x \<noteq> EffWrite ch input"
  by auto


lemma command_session_writes:
  assumes "session_access (gw_sessions g) handle agent (ge_mono env) = Ok (s, n)"
  obtains input xs where "gw_effects (snd (command_session env message agent handle g)) =
    gw_effects g @ EffWrite (se_channel s) input # xs"
proof -
  let ?i = "case get_str message ''input_b64'' of None \<Rightarrow> [] | Some b \<Rightarrow> base64_std_decode (ge_http env) b"
  let ?g = "emit (EffWrite (se_channel s) ?i) g"
  have "map_of (gw_sessions ?g) handle = Some s" "se_agent_id s = agent" "ge_mono env < se_expires_at s"
    using assms by (auto simp: session_access_Ok_iff)
  from relays_relay_output [OF this, of message "length ?i"] obtain xs where
    "gw_effects (snd (relay_output env message agent handle s (length ?i) ?g)) = gw_effects ?g @ xs"
    by (auto simp: relays_def evolves_def)
  then have "\<exists>xs. gw_effects (snd (command_session env message agent handle g)) =
      gw_effects g @ EffWrite (se_channel s) ?i # xs"
    using assms by (auto simp: command_session_def Let_def emit_def split: sum.split)
  then show thesis using that by blast
qed

definition sample_shell :: json where
  "sample_shell = sample_intent ''ssh'' (JObj []) None"

definition sample_handle :: string where
  "sample_handle = session_handle sample_crypto ''h''"

definition sample_frame_fields :: "(string \<times> json) list" where
  "sample_frame_fields = [(''chaperone'', JStr ''0.1''), (''type'', JStr ''session.command''), (''agent_id'', JStr ''a''),
     (''issued_at'', JStr ''t''), (''nonce'', JStr ''n2''), (''session_handle'', JStr sample_handle)]"

definition sample_frame :: json where
  "sample_frame = sign_message sample_crypto sample_key sample_frame_fields"

lemma sample_envelope_simps:
  "e_mechanism (sample_envelope mech op con sig) = mech" "e_operation (sample_envelope mech op con sig) = op"
  "e_constraints (sample_envelope mech op con sig) = con" "e_cred_ref (sample_envelope mech op con sig) = ''local://k''"
  "e_target (sample_envelope mech op con sig) = \<lparr>t_uri = ''https://x'', t_label = ''x''\<rparr>"
  by (simp_all add: sample_envelope_def)

lemma sample_genv_simps:
  "ge_crypto sample_genv = sample_crypto" "ge_mono sample_genv = 0" "ge_handle sample_genv = ''h''"
  "ge_connect sample_genv = (\<lambda>mech uri op s. Some (Ok 7))" "ge_attest sample_genv = sample_env"
  "ge_now sample_genv = 12000000000" "ge_replay_io sample_genv = all_io"
  by (simp_all add: sample_genv_def sample_env_def)

lemma sample_shell_opens:
  obtains r g1 where "handle_message sample_genv sample_shell (sample_gateway Allow) = (r, g1)"
    "gw_sessions g1 = [(sample_handle, new_entry ''a'' ''ssh'' ''https://x'' ''x'' 7 300000000000 0)]"
    "gw_attestor g1 = gw_attestor (after_verify sample_genv sample_shell (sample_gateway Allow))"
    "\<not> gw_halted g1"
proof -
  let ?g = "after_verify sample_genv sample_shell (sample_gateway Allow)"
  obtain sig where h: "handle_message sample_genv sample_shell (sample_gateway Allow) =
      decide_intent sample_genv sample_shell ''a'' (sample_envelope ''ssh'' (JObj []) None sig) ?g"
    using sample_handles [of "JObj []" None "''ssh''" Allow] by (auto simp: sample_shell_def)
  let ?e = "sample_envelope ''ssh'' (JObj []) None sig"
  let ?d = "evaluate (gw_policy (sample_gateway Allow)) (policy_request ''a'' ?e)"
  have b: "gw_backends ?g = [''ssh'']" "gw_router (sample_gateway Allow) = [(''local'', \<lambda>entry. Ok ''s3cr3t'')]"
    "gw_config ?g = gateway_config_default" "gw_sessions (sample_gateway Allow) = []"
    by (simp_all add: after_verify_def sample_gateway_def session_table_new_def)
  have sec: "router_resolve [(''local'', \<lambda>entry. Ok ''s3cr3t'')] ''local://k'' = Ok ''s3cr3t''"
    by (simp add: router_resolve_def router_dispatch_def split_once_def)
  let ?g2 = "emit (EffConnect ''ssh'' ''https://x'' (JObj []) ''s3cr3t'') (emit (EffResolve ''local://k'') ?g)"
  have "starts_with ''local://k'' ''ca://'' = False" by simp
  then have ss: "session_secret sample_genv ?e ?d ?g = (Ok ''s3cr3t'', emit (EffResolve ''local://k'') ?g)"
    by (simp add: session_secret_def sample_envelope_simps b sec)
  have "open_session sample_genv sample_shell ''a'' ?e ?d ?g = session_opened sample_genv sample_shell ''a'' ?e ?d 7 ?g2"
    unfolding open_session_def ss by (simp add: sample_envelope_simps sample_genv_simps b)
  moreover have "session_gate ?e ?d ?g = (Allow, [])"
    by (simp add: session_gate_def sample_envelope_simps sample_evaluates)
  ultimately have open1: "handle_message sample_genv sample_shell (sample_gateway Allow) =
      session_opened sample_genv sample_shell ''a'' ?e ?d 7 ?g2"
    unfolding h decide_intent_def route_session_def
    by (simp add: sample_envelope_simps one_shot_def b Let_def) (simp add: sample_evaluates)
  let ?t = "[(sample_handle, new_entry ''a'' ''ssh'' ''https://x'' ''x'' 7 300000000000 0)]"
  have ttl: "default_session_ttl ?g2 None = 300" by (simp add: default_session_ttl_def emit_def b gateway_config_default_def)
  have "gw_sessions (snd (session_opened sample_genv sample_shell ''a'' ?e ?d 7 ?g2)) = ?t"
    by (simp add: session_opened_def Let_def case_prod_beta audit_decision_sessions session_insert_def b
      instant_overflows_def sample_envelope_simps sample_genv_simps ttl sample_handle_def sample_env_def)
  moreover have "\<exists>xs. evolves sample_genv ?g2 xs (snd (session_opened sample_genv sample_shell ''a'' ?e ?d 7 ?g2))"
    using session_opened_settles [of sample_genv sample_shell ?e ?d ?g2 "''a''" 7] by (auto simp: settles_def split: option.splits)
  then have "gw_attestor (snd (session_opened sample_genv sample_shell ''a'' ?e ?d 7 ?g2)) = gw_attestor ?g"
    "gw_halted (snd (session_opened sample_genv sample_shell ''a'' ?e ?d 7 ?g2)) = False"
    using evolves_frame(1,9) by (fastforce simp: emit_def sample_gateway_def)+
  ultimately show thesis using that open1 by (metis surjective_pairing)
qed

lemma sample_frame_verified:
  assumes "gw_attestor g = gw_attestor (after_verify sample_genv sample_shell (sample_gateway Allow))"
  shows "verified_by sample_genv sample_frame g
    \<lparr>v_agent_id = ''a'', v_envelope = sample_frame, v_issued_at = 11800000000, v_nonce = ''n2''\<rparr>"
proof -
  have ex: "json_exact (JObj sample_frame_fields)" by (simp add: sample_frame_fields_def)
  have "check_signature sample_crypto (ed_public sample_crypto sample_key) sample_frame"
    unfolding sample_frame_def by (rule signed_message_checks [OF sample_crypto_ok(1,3,4) ex])
  then have sig: "check_signature sample_crypto sample_key sample_frame" by (simp add: sample_crypto_def)
  have get: "get_str sample_frame ''chaperone'' = Some ''0.1''" "get_str sample_frame ''agent_id'' = Some ''a''"
    "get_str sample_frame ''nonce'' = Some ''n2''" "get_str sample_frame ''issued_at'' = Some ''t''"
    "as_object sample_frame \<noteq> None"
    by (simp_all add: sample_frame_def sign_message_def sample_frame_fields_def get_str_def)
  let ?at = "sample_attestor 30"
  have at0: "gw_attestor (sample_gateway Allow) = ?at" by (simp add: sample_gateway_def)
  have "verified_by sample_genv sample_shell (sample_gateway Allow) (sample_proof sample_shell)"
    unfolding sample_shell_def by (rule sample_intent_verified) simp_all
  then have "verify sample_env all_io ?at sample_shell 12000000000 =
      (Ok (sample_proof sample_shell), snd (verify sample_env all_io ?at sample_shell 12000000000))" (is "?v = _")
    by (metis at0 prod.collapse sample_genv_simps(5-7) verified_by_def verify_Ok_iff)
  then have rc: "snd ?v = snd (check_and_reserve sample_codec all_io replay_in_memory (''a'', ''n'') 12 90)"
    using verify_Ok_replay [of sample_env all_io ?at sample_shell 12000000000 "sample_proof sample_shell" "snd ?v"]
    by (simp add: sample_env_def sample_attestor_def attestor_new_def sample_proof_def retention_of_def
      unix_timestamp_def nanos_def sat_simps)
  have g: "gw_attestor g = ?at\<lparr>replay := snd ?v\<rparr>"
    using assms by (simp add: after_verify_def at0 sample_genv_simps)
  have "fst (check_and_reserve sample_codec all_io (snd ?v) (''a'', ''n2'') 12 90) = Fresh"
    unfolding rc by (simp add: check_and_reserve_def replay_in_memory_def Let_def sat_simps)
  then show ?thesis
    using sig get unfolding verified_by_def g
    by (auto simp: acceptable_def sample_genv_simps sample_env_def sample_attestor_def attestor_new_def sample_lookup
      nanos_def unix_timestamp_def retention_of_def sat_simps)
qed


end
