(* ===== verification/Gateway_Edges.thy ===== *)
theory Gateway_Edges
  imports Gateway_Runs
begin

text \<open>
  The edges of the gateway: the shape of every response, the operator's prompt, the numbering of
  session output, and three places where limits do not do what they are documented to do.
\<close>

section \<open>Responses\<close>

definition well_shaped :: "json \<Rightarrow> json \<Rightarrow> bool" where
  "well_shaped message v \<longleftrightarrow>
     (\<exists>kvs kind. v = JObj kvs \<and> get_str v ''type'' = Some kind \<and>
        kind \<in> {''error'', ''result'', ''session.output'', ''session.closed''} \<and>
        json_get v ''msg_id'' = Some (msg_id_of message) \<and>
        (kind = ''error'' \<longrightarrow> get_str v ''code'' \<noteq> None \<and> get_str v ''reason'' \<noteq> None))"

lemma gw_error_shaped: "well_shaped message (gw_error message code reason)"
  by (simp add: well_shaped_def gw_error_def get_str_def)

lemma granted_shaped: "granted message d seq v \<Longrightarrow> well_shaped message v"
  by (cases v) (auto simp: well_shaped_def granted_def get_str_def)

lemma answers_shaped: "answers message d seq out v \<Longrightarrow> well_shaped message v"
  by (cases out) (auto simp: refused_with_def gw_error_shaped granted_shaped)

lemma close_session_shaped:
  "\<exists>v g'. close_session env message agent handle g = (Some v, g') \<and> well_shaped message v"
  by (auto simp: close_session_def Let_def gw_error_def well_shaped_def get_str_def split: prod.split)

lemma relay_output_shaped:
  "\<exists>v g'. relay_output env message agent handle s n g = (Some v, g') \<and> well_shaped message v"
  by (auto simp: relay_output_def Let_def well_shaped_def get_str_def split: prod.split)

lemma command_session_shaped:
  "\<exists>v g'. command_session env message agent handle g = (Some v, g') \<and> well_shaped message v"
  using relay_output_shaped
  by (auto simp: command_session_def Let_def gw_error_shaped split: sum.split)

lemma handle_session_frame_shaped:
  "\<exists>v g'. handle_session_frame env kind message g = (Some v, g') \<and> well_shaped message v"
  using close_session_shaped command_session_shaped
  by (auto simp: handle_session_frame_def gw_error_shaped split: prod.split sum.split option.split session_frame_kind.split)

lemma decide_intent_shaped:
  assumes "decide_intent env message agent e g = (Some v, g')"
  shows "well_shaped message v"
  using decide_intent_gated [of env message agent e g] assms answers_shaped by (auto simp: gated_def settles_def)

text \<open>
  (C23) Whatever is sent to the gateway, in whatever state it is, a response is an object of one of
  the four wire types that echoes the message's identifier (null if it has none), and an error
  carries a code and a reason.
\<close>

theorem responses_well_shaped:
  "case fst (handle_message env message g) of None \<Rightarrow> True | Some v \<Rightarrow> well_shaped message v"
proof (cases "handle_message env message g")
  case (Pair r g')
  consider (err) code reason where "r = Some (gw_error message code reason)"
    | (int) "handle_intent env message g = (r, g')"
    | (fr) kind where "handle_session_frame env kind message g = (r, g')"
    using Pair by (auto simp: handle_message_def split: if_splits)
  then have "\<And>v. r = Some v \<Longrightarrow> well_shaped message v"
  proof cases
    case int
    then show "\<And>v. r = Some v \<Longrightarrow> well_shaped message v"
      using gw_error_shaped decide_intent_shaped by (auto simp: handle_intent_def split: prod.splits sum.splits option.splits)
  next
    case fr
    then show "\<And>v. r = Some v \<Longrightarrow> well_shaped message v" using handle_session_frame_shaped by (metis fst_conv option.inject)
  qed (use gw_error_shaped in auto)
  then show ?thesis using Pair by (simp split: option.split)
qed

section \<open>The operator\<close>

text \<open>
  The human gate fails closed: an action is approved exactly when the prompt was written and
  the operator answered in time with a line that reads \<^verbatim>\<open>y\<close> or \<^verbatim>\<open>yes\<close>, up to case and
  surrounding white space; a failed write, an end of input, a read error, any other answer and
  silence all refuse.
\<close>

theorem operator_approves_iff:
  "operator_confirm write_prompt answer ctx = Approved \<longleftrightarrow>
     write_prompt (operator_render ctx) \<and>
     (\<exists>line. answer = Some (Ok (Some line)) \<and> to_ascii_lowercase (trim line) \<in> {''y'', ''yes''})"
  by (auto simp: operator_confirm_def operator_parse_def split: option.splits sum.splits if_splits)

section \<open>Output numbering\<close>

lemma number_outputs_seq:
  "map (\<lambda>v. json_get v ''seq'') (fst (number_outputs b64 s cs)) =
     map (\<lambda>i. Some (u64_to_value (se_out_seq s + of_nat (Suc i)))) [0..<length cs] \<and>
   se_out_seq (snd (number_outputs b64 s cs)) = se_out_seq s + of_nat (length cs)"
proof (induction cs arbitrary: s)
  case (Cons c cs)
  obtain n s1 where n: "next_out_seq s = (n, s1)" "n = se_out_seq s + 1" "se_out_seq s1 = se_out_seq s + 1"
    by (simp add: next_out_seq_def)
  have "map (\<lambda>i. Some (u64_to_value (se_out_seq s + 1 + of_nat (Suc i)))) [0..<length cs] =
      map (\<lambda>i. Some (u64_to_value (se_out_seq s + of_nat (Suc i)))) [Suc 0..<Suc (length cs)]"
    by (simp add: map_Suc_upt [symmetric] comp_def ac_simps del: map_Suc_upt upt_Suc)
  then show ?case
    using Cons.IH [of s1] n by (simp add: case_prod_beta upt_conv_Cons del: upt_Suc)
qed simp

section \<open>The liveness scan\<close>

definition farewell :: "gateway \<Rightarrow> nat \<Rightarrow> string \<times> session_entry \<Rightarrow> gateway_effect list" where
  "farewell g now he = EffShutdown (se_channel (snd he)) #
     (if gw_event_hub g then [EffBroadcast (session_event g now ''session.summary'' (fst he) (snd he))] else [])"

definition heartbeat :: "gateway \<Rightarrow> nat \<Rightarrow> nat \<Rightarrow> string \<times> session_entry \<Rightarrow> gateway_effect list" where
  "heartbeat g threshold now he =
     (case heartbeat_due (snd he) threshold now of
        (due, s) \<Rightarrow> if due \<and> gw_event_hub g then [EffBroadcast (session_event g now ''session.heartbeat'' (fst he) s)] else [])"

lemma session_event_frame [simp]:
  "session_event (emit x g) now kind h s = session_event g now kind h s"
  "session_event (g\<lparr>gw_sessions := t\<rparr>) now kind h s = session_event g now kind h s"
  by (simp_all add: session_event_def sponsor_or_empty_def emit_def)

lemma session_event_cong: "gw_attestor g' = gw_attestor g \<Longrightarrow> session_event g' now kind h s = session_event g now kind h s"
  by (simp add: session_event_def sponsor_or_empty_def)

lemma farewell_cong:
  "gw_attestor g' = gw_attestor g \<Longrightarrow> gw_event_hub g' = gw_event_hub g \<Longrightarrow> farewell g' now = farewell g now"
  "gw_attestor g' = gw_attestor g \<Longrightarrow> gw_event_hub g' = gw_event_hub g \<Longrightarrow> heartbeat g' threshold now = heartbeat g threshold now"
  by (auto simp: farewell_def heartbeat_def session_event_cong [of g' g] fun_eq_iff split: prod.split)

lemma reap_fold:
  "foldl (reap_session now) g dead = g\<lparr>gw_effects := gw_effects g @ concat (map (farewell g now) dead)\<rparr>"
proof (induction dead arbitrary: g)
  case (Cons he dead)
  have step: "reap_session now g he = g\<lparr>gw_effects := gw_effects g @ farewell g now he\<rparr>" for he
    by (simp add: reap_session_def farewell_def broadcast_session_event_def broadcast_json_def) (simp add: emit_def)
  show ?case using Cons.IH farewell_cong(1) [of "reap_session now g he" g] by (simp add: step)
qed simp

lemma beat_step:
  "gw_effects (beat_session threshold now g he) = gw_effects g @ heartbeat g threshold now he \<and>
   gw_attestor (beat_session threshold now g he) = gw_attestor g \<and>
   gw_event_hub (beat_session threshold now g he) = gw_event_hub g"
  by (simp add: beat_session_def heartbeat_def broadcast_session_event_def broadcast_json_def Let_def split: prod.split)
    (simp add: emit_def)

lemma beat_fold:
  "gw_effects (foldl (beat_session threshold now) g hes) = gw_effects g @ concat (map (heartbeat g threshold now) hes)"
proof (induction hes arbitrary: g)
  case (Cons he hes)
  then show ?case
    using beat_step [of threshold now g he] farewell_cong(2) [of "beat_session threshold now g he" g] by simp
qed simp

text \<open>
  The liveness scan accounts for every session: each one past its lifetime has its channel shut
  and its summary put on the feed, once, and is gone from the table; then each remaining one whose
  heartbeat is due is announced, unless heartbeats are switched off; nothing else happens.
\<close>

theorem scan_accounts_for_sessions:
  "let g' = emit_session_heartbeats now g;
       expired = filter (\<lambda>(h, s). se_expires_at s \<le> now) (gw_sessions g);
       live = filter (\<lambda>(h, s). now < se_expires_at s) (gw_sessions g);
       threshold = unat (gc_session_heartbeat_secs (gw_config g)) * 1000000000
   in gw_effects g' = gw_effects g @ concat (map (farewell g now) expired) @
        (if threshold = 0 then [] else concat (map (heartbeat g threshold now) live)) \<and>
      list_all (\<lambda>(h, s). now < se_expires_at s) (gw_sessions g')"
proof -
  let ?th = "unat (gc_session_heartbeat_secs (gw_config g)) * 1000000000"
  let ?expired = "filter (\<lambda>(h, s). se_expires_at s \<le> now) (gw_sessions g)"
  let ?live = "filter (\<lambda>(h, s). now < se_expires_at s) (gw_sessions g)"
  define live expired where "live = ?live" and "expired = ?expired"
  define g1 where "g1 = foldl (reap_session now) (g\<lparr>gw_sessions := live\<rparr>) expired"
  define th where "th = ?th"
  have reap: "reap_expired (gw_sessions g) now = (expired, live)"
    by (simp add: reap_expired_def not_le live_def expired_def)
  have far: "farewell (g\<lparr>gw_sessions := live\<rparr>) now = farewell g now" by (rule farewell_cong) simp_all
  have g1: "g1 = g\<lparr>gw_sessions := live, gw_effects := gw_effects g @ concat (map (farewell g now) expired)\<rparr>"
    by (simp add: g1_def reap_fold far)
  have beat: "heartbeat g1 th now = heartbeat g th now" by (rule farewell_cong) (simp_all add: g1)
  have s1: "gw_sessions g1 = live" "gw_effects g1 = gw_effects g @ concat (map (farewell g now) expired)"
    by (simp_all add: g1)
  have eq: "emit_session_heartbeats now g = (if th = 0 then g1 else foldl (beat_session th now) g1 live)"
    using s1(1) by (simp add: emit_session_heartbeats_def reap Let_def session_snapshot_def th_def g1_def)
  have eff: "gw_effects (emit_session_heartbeats now g) = gw_effects g @ concat (map (farewell g now) expired) @
      (if th = 0 then [] else concat (map (heartbeat g th now) live))"
    unfolding eq using beat_fold [of th now g1 live] beat s1 by simp
  have keep: "list_all (\<lambda>(h, s). now < se_expires_at s) (gw_sessions (foldl (beat_session th now) gx hes))"
    if "list_all (\<lambda>(h, s). now < se_expires_at s) (gw_sessions gx)" "list_all (\<lambda>(h, s). now < se_expires_at s) hes" for gx hes
    using that
  proof (induction hes arbitrary: gx)
    case (Cons he hes)
    have "gw_sessions (beat_session th now gx he) =
        session_update (fst he) (snd (heartbeat_due (snd he) th now)) (gw_sessions gx)"
      by (simp add: beat_session_def broadcast_session_event_def Let_def split: prod.split)
    moreover have "now < se_expires_at (snd (heartbeat_due (snd he) th now))" using Cons.prems(2) by (simp split: prod.splits)
    ultimately have "list_all (\<lambda>(h, s). now < se_expires_at s) (gw_sessions (beat_session th now gx he))"
      using Cons.prems(1) set_AList_update
      by (force simp: list_all_iff session_update_def split: option.split)
    then show ?case using Cons by simp
  qed simp
  have l: "list_all (\<lambda>(h, s). now < se_expires_at s) live" by (simp add: live_def list_all_iff)
  have "list_all (\<lambda>(h, s). now < se_expires_at s) (gw_sessions (emit_session_heartbeats now g))"
    unfolding eq using keep [OF _ l, of g1] l s1(1) by simp
  with eff show ?thesis unfolding Let_def live_def expired_def th_def by blast
qed

section \<open>Limits\<close>

text \<open>
  The policy's limit on a session's lifetime is never consulted for a session opened with a
  resolved credential: whatever limits the decision carries, the gateway opens the same session,
  with the lifetime that the agent declared.
\<close>

theorem session_lifetime_ignores_policy:
  assumes "\<not> starts_with (e_cred_ref e) ''ca://''"
  shows "open_session env message agent e (d\<lparr>d_limits := l\<rparr>) g = open_session env message agent e d g"
proof -
  have "session_secret env e (d\<lparr>d_limits := l\<rparr>) g = session_secret env e d g"
    using assms by (simp add: session_secret_def)
  moreover have "refuse env message e (d\<lparr>d_limits := l\<rparr>) out code reason g' = refuse env message e d out code reason g'"
    for out code reason g' by (simp add: refuse_def)
  moreover have "session_opened env message agent e (d\<lparr>d_limits := l\<rparr>) ch g' = session_opened env message agent e d ch g'"
    for ch g' by (simp add: session_opened_def Let_def case_prod_beta)
  ultimately show ?thesis by (simp add: open_session_def Let_def split: prod.split sum.split option.split)
qed

text \<open>A rule caps sessions at a minute; the agent asks for a day and gets it.\<close>

definition day_long :: constraints where
  "day_long = \<lparr>c_max_response_bytes = None, c_session_ttl_s = Some 86400\<rparr>"

definition minute_decision :: decision where
  "minute_decision = \<lparr>d_effect = Allow, d_notify_on_use = False, d_source = FromRule 0 None None,
     d_limits = \<lparr>max_response_bytes = None, session_ttl_s = Some 60\<rparr>\<rparr>"

theorem session_lifetime_ignores_policy_witness:
  "gw_sessions (snd (open_session sample_genv JNull ''a'' (sample_envelope ''ssh'' (JObj []) (Some day_long) []) minute_decision
     (sample_gateway Allow))) = [(sample_handle, new_entry ''a'' ''ssh'' ''https://x'' ''x'' 7 86400000000000 0)]"
proof -
  let ?e = "sample_envelope ''ssh'' (JObj []) (Some day_long) []" and ?g = "sample_gateway Allow"
  let ?d = "minute_decision\<lparr>d_limits := no_limits\<rparr>"
  have b: "gw_backends ?g = [''ssh'']" "gw_router ?g = [(''local'', \<lambda>entry. Ok ''s3cr3t'')]" "gw_sessions ?g = []"
    by (simp_all add: sample_gateway_def session_table_new_def)
  have sec: "router_resolve [(''local'', \<lambda>entry. Ok ''s3cr3t'')] ''local://k'' = Ok ''s3cr3t''"
    by (simp add: router_resolve_def router_dispatch_def split_once_def)
  have ca: "\<not> starts_with (e_cred_ref ?e) ''ca://''" by (simp add: sample_envelope_simps)
  have ss: "session_secret sample_genv ?e ?d ?g = (Ok ''s3cr3t'', emit (EffResolve ''local://k'') ?g)"
    using ca by (simp add: session_secret_def sample_envelope_simps b sec)
  let ?g2 = "emit (EffConnect ''ssh'' ''https://x'' (JObj []) ''s3cr3t'') (emit (EffResolve ''local://k'') ?g)"
  have "open_session sample_genv JNull ''a'' ?e ?d ?g = session_opened sample_genv JNull ''a'' ?e ?d 7 ?g2"
    unfolding open_session_def ss by (simp add: sample_envelope_simps sample_genv_simps b)
  then have "gw_sessions (snd (open_session sample_genv JNull ''a'' ?e ?d ?g)) =
      [(sample_handle, new_entry ''a'' ''ssh'' ''https://x'' ''x'' 7 86400000000000 0)]"
    by (simp add: session_opened_def Let_def case_prod_beta audit_decision_sessions session_insert_def b default_session_ttl_def
      instant_overflows_def sample_envelope_simps sample_genv_simps day_long_def sample_handle_def sample_env_def)
  then show ?thesis
    using session_lifetime_ignores_policy [OF ca, where env = sample_genv and d = minute_decision and l = no_limits] by simp
qed

text \<open>
  A declared lifetime so large that adding it to the clock overflows makes the handler panic
  after the backend has connected with the secret: no response, no session to reap or close, and
  no record of the use of the credential.
\<close>

theorem huge_lifetime_leaves_no_record:
  assumes "\<not> starts_with (e_cred_ref e) ''ca://''" and "e_mechanism e \<in> set (gw_backends g)"
    and "router_resolve (gw_router g) (e_cred_ref e) = Ok s"
    and "ge_connect env (e_mechanism e) (t_uri (e_target e)) (e_operation e) s = Some (Ok channel)"
    and "e_constraints e = Some c" and "c_session_ttl_s c = Some ttl" and "instant_overflows (ge_mono env) ttl"
  shows "\<exists>g'. open_session env message agent e d g = (None, g') \<and> gw_sessions g' = gw_sessions g \<and> gw_audit g' = gw_audit g \<and>
    gw_effects g' = gw_effects g @
      [EffResolve (e_cred_ref e), EffConnect (e_mechanism e) (t_uri (e_target e)) (e_operation e) s]"
  using assms
  by (simp add: open_session_def session_secret_def session_opened_def Let_def default_session_ttl_def emit_def)

theorem huge_lifetime_leaves_no_record_witness:
  "\<exists>g'. open_session sample_genv JNull ''a''
      (sample_envelope ''ssh'' (JObj []) (Some \<lparr>c_max_response_bytes = None, c_session_ttl_s = Some (2 ^ 63)\<rparr>) [])
      minute_decision (sample_gateway Allow) = (None, g') \<and> gw_audit g' = gw_audit (sample_gateway Allow)"
proof -
  let ?c = "\<lparr>c_max_response_bytes = None, c_session_ttl_s = Some (2 ^ 63 :: u64)\<rparr>"
  let ?e = "sample_envelope ''ssh'' (JObj []) (Some ?c) []"
  have "unat (2 ^ 63 :: u64) = 2 ^ 63" by simp
  then have over: "instant_overflows (ge_mono sample_genv) (2 ^ 63)" by (simp add: instant_overflows_def sample_genv_simps)
  have "router_resolve [(''local'', \<lambda>entry. Ok ''s3cr3t'')] ''local://k'' = Ok ''s3cr3t''"
    by (simp add: router_resolve_def router_dispatch_def split_once_def)
  then show ?thesis
    using huge_lifetime_leaves_no_record [of ?e "sample_gateway Allow" "''s3cr3t''" sample_genv 7 ?c "2 ^ 63" JNull "''a''"
      minute_decision] over
    by (auto simp: sample_envelope_simps sample_genv_simps sample_gateway_def)
qed

text \<open>
  Where the deciding rule sets no ceiling on response bytes, the ceiling the agent declares
  replaces the gateway's default ceiling, also when it is larger.
\<close>

theorem declared_ceiling_replaces_default:
  assumes "max_response_bytes (r_limits r) = None" and "q_declared q = Some c" and "c_max_response_bytes c = Some b"
  shows "hl_max_response_bytes (limits_of g (rule_decision i r pair q)) = unat b"
  using assms by (simp add: limits_of_def rule_decision_def min_with_def declared_limits_def)

theorem declared_ceiling_replaces_default_witness:
  "hl_max_response_bytes (limits_of (sample_gateway Allow) (rule_decision 0 (sample_rule\<lparr>r_limits := no_limits\<rparr>) None
     (sample_request\<lparr>q_declared := Some \<lparr>c_max_response_bytes = Some (2 ^ 40), c_session_ttl_s = None\<rparr>\<rparr>))) = 2 ^ 40 \<and>
   unat (gc_default_max_response_bytes (gw_config (sample_gateway Allow))) = 2 ^ 20"
  using declared_ceiling_replaces_default [of "sample_rule\<lparr>r_limits := no_limits\<rparr>"
    "sample_request\<lparr>q_declared := Some \<lparr>c_max_response_bytes = Some (2 ^ 40), c_session_ttl_s = None\<rparr>\<rparr>"]
  by (simp add: no_limits_def sample_gateway_def gateway_config_default_def)

end
