(* ===== verification/Policy_Guard.thy ===== *)
theory Policy_Guard
  imports Gateway_Runs
begin

text \<open>
  The policy-file guard of \<^verbatim>\<open>crates/gateway-core/src/policy_guard.rs\<close>: the permission check at load
  time and the watch that compares the file with the loaded policy on every tick and halts the
  gateway on a difference.
\<close>

unbundle bit_operations_syntax

section \<open>Permissions\<close>

definition hash_doc_bytes :: "crypto \<Rightarrow> bytes \<Rightarrow> string" where
  "hash_doc_bytes c doc = hex_encode (sha256 c doc)"

fun octal_digits :: "nat \<Rightarrow> string" where
  "octal_digits n = (if n < 8 then [char_of (48 + n)] else octal_digits (n div 8) @ [char_of (48 + n mod 8)])"

declare octal_digits.simps [simp del]

text \<open>\<^verbatim>\<open>{:04o}\<close>\<close>

definition octal4 :: "nat \<Rightarrow> string" where
  "octal4 n = (let ds = octal_digits n in replicate (4 - length ds) CHR ''0'' @ ds)"

text \<open>\<open>stat\<close> is the mode and owner of the file, or the error of looking at it.\<close>

definition verify_permissions :: "string \<Rightarrow> (string, 32 word \<times> nat) result \<Rightarrow> nat \<Rightarrow> (string, unit) result" where
  "verify_permissions path stat euid =
     (case stat of
        Inl e \<Rightarrow> Err (''cannot stat '' @ path @ '': '' @ e)
      | Inr (mode, uid) \<Rightarrow>
          if mode AND 0x12 \<noteq> 0 then
            Err (path @ '' is group/other-writable (mode '' @ octal4 (unat (mode AND 0xFFF)) @
              ''); a policy file must be writable only by its owner. fix: chmod go-w '' @ path)
          else if uid \<noteq> euid then
            Err (path @ '' is owned by uid '' @ dec_of_nat uid @ '' but the gateway runs as uid '' @ dec_of_nat euid @
              ''; refusing a policy someone else controls'')
          else Ok ())"

section \<open>The watch\<close>

datatype file_read = FileRead bytes | FileMissing | FileUnreadable

record drift =
  dr_observed_hash :: string
  dr_detail :: string

datatype observation = Consistent | Unconfirmed | Drifted drift

definition check_once :: "crypto \<Rightarrow> string \<Rightarrow> nat \<Rightarrow> file_read \<Rightarrow> observation" where
  "check_once c baseline prior_failures rd =
     (case rd of
        FileRead doc \<Rightarrow>
          (let observed = hash_doc_bytes c doc in
           if observed = baseline then Consistent
           else Drifted \<lparr>dr_observed_hash = observed, dr_detail = ''content changed''\<rparr>)
      | FileMissing \<Rightarrow> Drifted \<lparr>dr_observed_hash = [], dr_detail = ''file missing''\<rparr>
      | FileUnreadable \<Rightarrow>
          if 1 \<le> prior_failures then Drifted \<lparr>dr_observed_hash = [], dr_detail = ''file unreadable''\<rparr>
          else Unconfirmed)"

definition short :: "string \<Rightarrow> string" where
  "short h = take 16 h"

definition drift_reason :: "string \<Rightarrow> drift \<Rightarrow> string" where
  "drift_reason baseline d = ''policy integrity guard: '' @ dr_detail d @ '' (loaded '' @ short baseline @
     '', observed '' @ short (dr_observed_hash d) @ '')''"

definition drift_event :: "string \<Rightarrow> drift \<Rightarrow> audit_event" where
  "drift_event baseline d = \<lparr>ev_record_kind = KindPolicyDrift, ev_ruleset_hash = baseline, ev_agent_id = [],
     ev_sponsor_id = [], ev_msg_id = [], ev_mechanism = ''policy'', ev_target_uri = [], ev_target_label = [],
     ev_cred_ref = [], ev_effect = [], ev_outcome = OutPolicyDrift (dr_observed_hash d) (dr_detail d),
     ev_intent_envelope = JNull\<rparr>"

definition drift_line :: "nat \<Rightarrow> string \<Rightarrow> drift \<Rightarrow> json" where
  "drift_line seq baseline d = JObj [(''type'', JStr ''policy_drift''), (''audit_id'', JStr (audit_id seq)),
     (''ruleset_hash'', JStr baseline), (''observed_hash'', JStr (dr_observed_hash d)),
     (''detail'', JStr (dr_detail d)), (''halted'', JBool True)]"

text \<open>The journal is the gateway's own; \<open>hub\<close> says whether the feed is attached.\<close>

definition fire_drift :: "gateway_env \<Rightarrow> bool \<Rightarrow> string \<Rightarrow> drift \<Rightarrow> gateway \<Rightarrow> gateway" where
  "fire_drift env hub baseline d g =
     (case gw_append env (drift_event baseline d) (halt (drift_reason baseline d) g) of
        (seq, g1) \<Rightarrow>
          if hub then emit (EffBroadcast (drift_line (case seq of None \<Rightarrow> 0 | Some n \<Rightarrow> n) baseline d)) g1 else g1)"

definition watch_tick ::
    "crypto \<Rightarrow> gateway_env \<Rightarrow> bool \<Rightarrow> string \<Rightarrow> file_read \<Rightarrow> nat \<times> gateway \<Rightarrow> nat \<times> gateway" where
  "watch_tick c env hub baseline rd ng = (case ng of (failures, g) \<Rightarrow>
     if gw_halted g then (failures, g)
     else (case check_once c baseline failures rd of
        Consistent \<Rightarrow> (0, g)
      | Unconfirmed \<Rightarrow> (failures + 1, g)
      | Drifted d \<Rightarrow> (failures, fire_drift env hub baseline d g)))"

section \<open>The watch beside the gateway\<close>

datatype guarded_input = WatchTick gateway_env file_read | Serve gateway_input

fun guarded_step :: "crypto \<Rightarrow> bool \<Rightarrow> string \<Rightarrow> nat \<times> gateway \<Rightarrow> guarded_input \<Rightarrow> nat \<times> gateway" where
  "guarded_step c hub baseline ng (WatchTick env rd) = watch_tick c env hub baseline rd ng"
| "guarded_step c hub baseline ng (Serve i) = (fst ng, gateway_step (snd ng) i)"

definition guarded_run :: "crypto \<Rightarrow> bool \<Rightarrow> string \<Rightarrow> nat \<times> gateway \<Rightarrow> guarded_input list \<Rightarrow> nat \<times> gateway" where
  "guarded_run c hub baseline ng ins = foldl (guarded_step c hub baseline) ng ins"

fun reads :: "guarded_input list \<Rightarrow> file_read list" where
  "reads [] = []"
| "reads (WatchTick env rd # ins) = rd # reads ins"
| "reads (Serve i # ins) = reads ins"

fun no_other_halt :: "guarded_input \<Rightarrow> bool" where
  "no_other_halt (Serve (Halting reason)) = False"
| "no_other_halt _ = True"

text \<open>
  A read that confirms a divergence: another document, no file, or a second failure in a row.
\<close>

definition confirms :: "crypto \<Rightarrow> string \<Rightarrow> file_read list \<Rightarrow> file_read \<Rightarrow> bool" where
  "confirms c baseline before rd \<longleftrightarrow>
     rd = FileMissing \<or> (\<exists>doc. rd = FileRead doc \<and> hash_doc_bytes c doc \<noteq> baseline) \<or>
     rd = FileUnreadable \<and> before \<noteq> [] \<and> last before = FileUnreadable"

definition diverged :: "crypto \<Rightarrow> string \<Rightarrow> file_read list \<Rightarrow> bool" where
  "diverged c baseline rds \<longleftrightarrow> (\<exists>before rd after. rds = before @ rd # after \<and> confirms c baseline before rd)"

definition drift_records :: "gateway \<Rightarrow> nat" where
  "drift_records g = length (filter (\<lambda>ev. ev_record_kind ev = KindPolicyDrift) (audits (gw_effects g)))"

section \<open>Lemmas\<close>

text \<open>The guard and the parser hash a document alike.\<close>

lemma hash_doc_bytes_agrees: "from_toml c toml doc = Ok p \<Longrightarrow> hash_doc_bytes c doc = source_hash_hex p"
  by (auto simp: from_toml_def hash_doc_bytes_def split: sum.splits)

lemma diverged_Nil [simp]: "\<not> diverged c baseline []"
  by (simp add: diverged_def)

lemma diverged_snoc: "diverged c baseline (rds @ [rd]) \<longleftrightarrow> diverged c baseline rds \<or> confirms c baseline rds rd"
proof
  assume "diverged c baseline (rds @ [rd])"
  then obtain before x after where eq: "rds @ [rd] = before @ x # after" and x: "confirms c baseline before x"
    by (auto simp: diverged_def)
  show "diverged c baseline rds \<or> confirms c baseline rds rd"
  proof (cases after rule: rev_cases)
    case Nil
    then show ?thesis using eq x by simp
  next
    case (snoc ys y)
    then show ?thesis using eq x by (auto simp: diverged_def)
  qed
next
  assume "diverged c baseline rds \<or> confirms c baseline rds rd"
  then show "diverged c baseline (rds @ [rd])" unfolding diverged_def by force
qed

text \<open>Handling a message only ever makes decision records.\<close>

lemma message_kinds:
  assumes "handle_message env message g = (r, g')"
  obtains xs where "gw_effects g' = gw_effects g @ xs" "list_all (\<lambda>ev. ev_record_kind ev = IntentDecision) (audits xs)"
  using assms
proof (cases rule: handle_message_cases)
  case idle
  then show thesis by (intro that [of "[]"]) simp_all
next
  case (rejected er)
  have "gw_effects g' = gw_effects g @ [EffAudit (identity_failure_event g message (identity_error_code er))]"
    using gw_append_evolves [of env "after_verify env message g"]
    unfolding rejected audit_identity_failure_def by (simp add: evolves_def)
  then show thesis by (rule that) (simp add: identity_failure_event_def Let_def)
next
  case unread
  then show thesis by (intro that [of "[]"]) simp_all
next
  case (intent v e)
  let ?g = "after_verify env message g" and ?d = "evaluate (gw_policy g) (policy_request (v_agent_id v) e)"
  obtain asks uses where
      st: "settles env message e ?d ?g (asks @ uses) (r, g')" "list_all (licensed env g e ?d) uses"
    and asks: "asks = [] \<or> (\<exists>ctx. asks = [EffConfirm ctx (ge_confirm env ctx)] \<and> asked_about (v_agent_id v) e ctx)"
    using decide_intent_gated [of env message "v_agent_id v" e ?g] intent(4) unfolding gated_def by auto
  have quiet: "audits asks = []" "audits uses = []" using licensed_quiet [OF st(2)] asks by auto
  show thesis
  proof (cases r)
    case None
    then show thesis using st(1) quiet by (intro that [of "asks @ uses"]) (simp_all add: settles_def evolves_def)
  next
    case (Some resp)
    then obtain out where "gw_effects g' = gw_effects g @ (asks @ uses @ report env e ?d out g)"
      using st(1) by (auto simp: settles_def evolves_def)
    then show thesis by (rule that) (simp add: quiet report_def Let_def decision_event_def)
  qed
next
  case (frame v)
  then obtain xs where xs: "gw_effects g' = gw_effects g @ xs"
    "list_all (frame_allowed env message (after_verify env message g) (v_agent_id v)) xs"
    by (auto simp: relays_def evolves_def)
  have "list_all (\<lambda>ev. ev_record_kind ev = IntentDecision) (audits xs)" using xs(2)
  proof (induction xs)
    case (Cons x xs)
    then show ?case by (cases x) (auto simp: session_closed_event_def)
  qed simp
  with xs(1) show thesis by (rule that)
qed

lemma drift_records_append:
  assumes "gw_effects g' = gw_effects g @ xs" "list_all (\<lambda>ev. ev_record_kind ev = IntentDecision) (audits xs)"
  shows "drift_records g' = drift_records g"
  using assms by (auto simp: drift_records_def list_all_iff filter_empty_conv)

lemma serve_keeps:
  assumes "no_other_halt (Serve i)"
  shows "gw_halted (gateway_step g i) = gw_halted g \<and> gw_halt_reason (gateway_step g i) = gw_halt_reason g \<and>
    drift_records (gateway_step g i) = drift_records g"
proof (cases i)
  case (Incoming env message)
  obtain r g' where h: "handle_message env message g = (r, g')" by fastforce
  obtain g1 ys where "g1 = g \<or> g1 = after_verify env message g" "evolves env g1 ys g'"
    by (rule message_evolves [OF h])
  then have "gw_halted g' = gw_halted g" "gw_halt_reason g' = gw_halt_reason g"
    using evolves_frame(9,10) [of env g1 ys g'] by auto
  moreover obtain xs where "gw_effects g' = gw_effects g @ xs" "list_all (\<lambda>ev. ev_record_kind ev = IntentDecision) (audits xs)"
    by (rule message_kinds [OF h])
  ultimately show ?thesis using Incoming h drift_records_append by simp
next
  case (Halting reason)
  then show ?thesis using assms by simp
next
  case (Tick now)
  have t: "ticks g (emit_session_heartbeats now g)" by (rule ticks_heartbeats)
  then obtain xs where "gw_effects (emit_session_heartbeats now g) = gw_effects g @ xs" "audits xs = []"
    using tick_quiet by (auto simp: ticks_def)
  then show ?thesis using Tick ticks_frame [OF t] drift_records_append [of "emit_session_heartbeats now g" g xs] by simp
qed

lemma fire_drift_halts:
  assumes "gw_halt_reason g = None"
  shows "gw_halted (fire_drift env hub baseline d g) \<and>
    gw_halt_reason (fire_drift env hub baseline d g) = Some (drift_reason baseline d) \<and>
    drift_records (fire_drift env hub baseline d g) = Suc (drift_records g)"
proof -
  let ?g = "halt (drift_reason baseline d) g"
  have g: "gw_halted ?g" "gw_halt_reason ?g = Some (drift_reason baseline d)" "gw_effects ?g = gw_effects g"
    using assms by (simp_all add: halt_def)
  have ev: "evolves env ?g [EffAudit (drift_event baseline d)] (snd (gw_append env (drift_event baseline d) ?g))"
    by (rule gw_append_evolves)
  have "drift_records (snd (gw_append env (drift_event baseline d) ?g)) = Suc (drift_records g)"
    using ev g(3) by (simp add: evolves_def drift_records_def drift_event_def)
  moreover have "drift_records (emit (EffBroadcast v) g') = drift_records g'" for v g'
    by (simp add: drift_records_def emit_def)
  moreover have "gw_halted (emit x g') = gw_halted g'" "gw_halt_reason (emit x g') = gw_halt_reason g'" for x g'
    by (simp_all add: emit_def)
  ultimately show ?thesis
    using evolves_frame(9,10) [OF ev] g by (simp add: fire_drift_def case_prod_beta)
qed

text \<open>What the watch knows after any run: whether it halted, and whether the last read failed.\<close>

definition watch_ok :: "crypto \<Rightarrow> string \<Rightarrow> nat \<Rightarrow> file_read list \<Rightarrow> nat \<times> gateway \<Rightarrow> bool" where
  "watch_ok c baseline k rds ng = (case ng of (n, g) \<Rightarrow>
     gw_halted g = diverged c baseline rds \<and> (gw_halted g \<longleftrightarrow> gw_halt_reason g \<noteq> None) \<and> n \<le> 1 \<and>
     (gw_halted g \<or> n = (if rds \<noteq> [] \<and> last rds = FileUnreadable then 1 else 0)) \<and>
     drift_records g = k + (if gw_halted g then 1 else 0))"

lemma watch_tick_ok:
  assumes "watch_ok c baseline k rds ng"
  shows "watch_ok c baseline k (rds @ [rd]) (watch_tick c env hub baseline rd ng)"
proof (cases ng)
  case (Pair n g)
  show ?thesis
  proof (cases "gw_halted g")
    case True
    then show ?thesis using assms Pair by (auto simp: watch_ok_def watch_tick_def diverged_snoc)
  next
    case False
    then have g: "gw_halt_reason g = None" "\<not> diverged c baseline rds" "drift_records g = k"
      "n = (if rds \<noteq> [] \<and> last rds = FileUnreadable then 1 else 0)"
      using assms Pair by (auto simp: watch_ok_def)
    show ?thesis
    proof (cases "check_once c baseline n rd")
      case (Drifted d)
      then have "confirms c baseline rds rd"
        using g(4) by (auto simp: check_once_def confirms_def Let_def split: file_read.splits if_splits)
      then show ?thesis
        using False Pair Drifted g fire_drift_halts [OF g(1), of env hub baseline d]
        by (simp add: watch_ok_def watch_tick_def diverged_snoc)
    next
      case Consistent
      then have "\<not> confirms c baseline rds rd" "rd \<noteq> FileUnreadable"
        by (auto simp: check_once_def confirms_def Let_def split: file_read.splits if_splits)
      then show ?thesis using False Pair Consistent g by (simp add: watch_ok_def watch_tick_def diverged_snoc)
    next
      case Unconfirmed
      then have "\<not> confirms c baseline rds rd" "rd = FileUnreadable" "n = 0"
        using g(4) by (auto simp: check_once_def confirms_def Let_def split: file_read.splits if_splits)
      then show ?thesis using False Pair Unconfirmed g by (simp add: watch_ok_def watch_tick_def diverged_snoc)
    qed
  qed
qed

lemma reads_append [simp]: "reads (xs @ ys) = reads xs @ reads ys"
  by (induction xs rule: reads.induct) auto

lemma guarded_run_ok:
  assumes "\<not> gw_halted g" "gw_halt_reason g = None" "list_all no_other_halt ins"
  shows "watch_ok c baseline (drift_records g) (reads ins) (guarded_run c hub baseline (0, g) ins)"
  using assms(3)
proof (induction ins rule: rev_induct)
  case Nil
  then show ?case using assms(1,2) by (simp add: guarded_run_def watch_ok_def)
next
  case (snoc i ins)
  then have IH: "watch_ok c baseline (drift_records g) (reads ins) (guarded_run c hub baseline (0, g) ins)" by simp
  show ?case
  proof (cases i)
    case (WatchTick env rd)
    then show ?thesis using watch_tick_ok [OF IH] by (simp add: guarded_run_def)
  next
    case (Serve j)
    then show ?thesis
      using IH serve_keeps [of j "snd (guarded_run c hub baseline (0, g) ins)"] snoc.prems
      by (auto simp: guarded_run_def watch_ok_def case_prod_beta)
  qed
qed

section \<open>Properties\<close>

lemma write_bits: "(mode :: 32 word) AND 0x12 = 0 \<longleftrightarrow> \<not> bit mode 1 \<and> \<not> bit mode 4"
proof
  assume h: "mode AND 0x12 = 0"
  have "bit (mode AND 0x12) 1 = bit mode 1" "bit (mode AND 0x12) 4 = bit mode 4" by (simp_all add: bit_simps)
  then show "\<not> bit mode 1 \<and> \<not> bit mode 4" using h by simp
next
  assume h: "\<not> bit mode 1 \<and> \<not> bit mode 4"
  have eq: "(0x12 :: 32 word) = 2 ^ 1 OR 2 ^ 4" by simp
  show "mode AND 0x12 = 0"
    unfolding eq by (rule bit_eqI) (use h in \<open>auto simp only: bit_and_iff bit_or_iff bit_exp_iff bit_0_eq bot_apply bot_bool_def\<close>)
qed

lemma verify_permissions_Ok:
  "verify_permissions path stat euid = Ok () \<longleftrightarrow>
     (\<exists>mode. stat = Ok (mode, euid) \<and> \<not> bit mode 1 \<and> \<not> bit mode 4)"
  by (auto simp: verify_permissions_def write_bits split: sum.splits if_splits)

text \<open>
  (C26) The guard halts the gateway exactly when the file has diverged from the loaded policy: on the
  first tick that reads another document, finds no file, or fails to read it for the second time
  in a row, and never on anything else, whatever messages are served in between. It then writes
  one drift record, ever, and from then on the gateway refuses every message. The failure counter
  never exceeds one.
\<close>

theorem guard_halts_exactly_on_drift:
  assumes "\<not> gw_halted g" and "gw_halt_reason g = None" and "list_all no_other_halt ins"
    and "guarded_run c hub baseline (0, g) ins = (n, g')"
  shows "gw_halted g' = diverged c baseline (reads ins) \<and>
    drift_records g' = drift_records g + (if diverged c baseline (reads ins) then 1 else 0) \<and> n \<le> 1 \<and>
    (\<forall>env message. diverged c baseline (reads ins) \<longrightarrow>
       (\<exists>reason. handle_message env message g' = (Some (gw_error message ''E_GATEWAY_HALTED'' reason), g')))"
  using guarded_run_ok [OF assms(1-3), of c baseline hub] assms(4) halted_message [of g']
  by (auto simp: watch_ok_def)

theorem guard_halts_exactly_on_drift_witness:
  "gw_halted (snd (guarded_run sample_crypto True ''b'' (0, sample_gateway Allow)
     [WatchTick sample_genv FileUnreadable, Serve (Tick 3), WatchTick sample_genv FileUnreadable])) \<and>
   \<not> gw_halted (snd (guarded_run sample_crypto True ''b'' (0, sample_gateway Allow)
     [WatchTick sample_genv FileUnreadable, Serve (Tick 3)]))"
proof -
  let ?a = "[WatchTick sample_genv FileUnreadable, Serve (Tick 3), WatchTick sample_genv FileUnreadable]"
  let ?b = "[WatchTick sample_genv FileUnreadable, Serve (Tick 3)]"
  let ?g = "sample_gateway Allow"
  have g: "\<not> gw_halted ?g" "gw_halt_reason ?g = None" by (simp_all add: sample_gateway_def)
  have "diverged sample_crypto ''b'' (reads ?a)"
    using diverged_snoc [of sample_crypto "''b''" "[FileUnreadable]" FileUnreadable] by (simp add: confirms_def)
  moreover have "\<not> diverged sample_crypto ''b'' (reads ?b)"
    using diverged_snoc [of sample_crypto "''b''" "[]" FileUnreadable] by (simp add: confirms_def)
  ultimately show ?thesis
    using guard_halts_exactly_on_drift [OF g _ prod.collapse [symmetric], of ?a sample_crypto True "''b''"]
      guard_halts_exactly_on_drift [OF g _ prod.collapse [symmetric], of ?b sample_crypto True "''b''"]
    by simp
qed

end
