(* ===== verification/Host_Keys.thy ===== *)
theory Host_Keys
  imports Wire Sessions "HOL-Library.List_Lexorder" "HOL-Library.Char_ord"
begin

text \<open>
  SSH host keys and the \<^verbatim>\<open>ssh\<close> session backend (\<^verbatim>\<open>crates/gateway-core/src/known_hosts.rs\<close> and
  \<^verbatim>\<open>ssh.rs\<close>): the pin store with its file, the import of OpenSSH files, the check of a server key,
  and the channel. The SSH protocol, the key format and the JSON text of the file are parameters.
\<close>

section \<open>The pin store\<close>

record pin =
  pin_hostport :: string
  pin_openssh_key :: string
  pin_first_seen :: string
  pin_source :: string

datatype pin_store_error = PinIo string | PinCorrupt string | PinSerialize string

fun pin_store_error_text :: "pin_store_error \<Rightarrow> string" where
  "pin_store_error_text (PinIo e) = ''known-hosts i/o: '' @ e"
| "pin_store_error_text (PinCorrupt e) = ''known-hosts corrupt: '' @ e"
| "pin_store_error_text (PinSerialize e) = ''known-hosts serialize: '' @ e"

text \<open>The pins in memory and the text of the file.\<close>

record pin_store =
  ps_pins :: "(string \<times> pin) list"
  ps_file :: "string option"

text \<open>The JSON form of the store file: a version and a list of pins.\<close>

record pin_codec =
  pk_parse :: "string \<Rightarrow> (string, nat \<times> pin list) result"
  pk_print :: "nat \<times> pin list \<Rightarrow> (string, string) result"

text \<open>Reading the file: its text, no file, or an error.\<close>

datatype store_read = StoreText string | StoreAbsent | StoreFailed string

definition pin_load :: "pin_codec \<Rightarrow> store_read \<Rightarrow> (pin_store_error, (string \<times> pin) list) result" where
  "pin_load k rd =
     (case rd of
        StoreAbsent \<Rightarrow> Ok []
      | StoreFailed e \<Rightarrow> Err (PinIo e)
      | StoreText content \<Rightarrow>
          if is_blank content then Ok []
          else (case pk_parse k content of
             Inl e \<Rightarrow> Err (PinCorrupt e)
           | Inr (version, pins) \<Rightarrow>
               if version \<noteq> 1 then Err (PinCorrupt (''unknown known-hosts version '' @ dec_of_nat version))
               else Ok (fold (\<lambda>p. AList.update (pin_hostport p) p) pins [])))"

definition pin_get :: "pin_store \<Rightarrow> string \<Rightarrow> pin option" where
  "pin_get st hostport = map_of (ps_pins st) hostport"

definition pin_list :: "pin_store \<Rightarrow> pin list" where
  "pin_list st = sort_key pin_hostport (map snd (ps_pins st))"

text \<open>What the file system does: no directory, a temporary file that fails on the way, or a rename.\<close>

datatype persist_io = DirFails string | TempFails string | Persisted

definition pin_persist ::
    "pin_codec \<Rightarrow> persist_io \<Rightarrow> pin_store \<Rightarrow> (pin_store_error, unit) result \<times> pin_store" where
  "pin_persist k io st =
     (case io of
        DirFails e \<Rightarrow> (Err (PinIo e), st)
      | _ \<Rightarrow>
          (case pk_print k (1, pin_list st) of
             Inl e \<Rightarrow> (Err (PinSerialize e), st)
           | Inr content \<Rightarrow>
               (case io of
                  TempFails e \<Rightarrow> (Err (PinIo e), st)
                | _ \<Rightarrow> (Ok (), st\<lparr>ps_file := Some content\<rparr>))))"

text \<open>
  Inserting looks under one lock and writes under a second one: \<open>Ok True\<close> is a pin that is there
  already.
\<close>

definition pin_check :: "pin_store \<Rightarrow> string \<Rightarrow> string \<Rightarrow> (pin_store_error, bool) result" where
  "pin_check st hostport key =
     (case map_of (ps_pins st) hostport of
        None \<Rightarrow> Ok False
      | Some p \<Rightarrow>
          if pin_openssh_key p = key then Ok True
          else Err (PinCorrupt (hostport @ '' is already pinned to a DIFFERENT key; an operator must review and replace the pin'')))"

definition pin_commit :: "string \<Rightarrow> string \<Rightarrow> string \<Rightarrow> string \<Rightarrow> pin_store \<Rightarrow> pin_store" where
  "pin_commit now hostport key source st = st\<lparr>ps_pins := AList.update hostport
     \<lparr>pin_hostport = hostport, pin_openssh_key = key, pin_first_seen = now, pin_source = source\<rparr> (ps_pins st)\<rparr>"

definition pin_insert ::
    "pin_codec \<Rightarrow> persist_io \<Rightarrow> string \<Rightarrow> string \<Rightarrow> string \<Rightarrow> string \<Rightarrow> pin_store \<Rightarrow>
     (pin_store_error, unit) result \<times> pin_store" where
  "pin_insert k io now hostport key source st =
     (case pin_check st hostport key of
        Inl e \<Rightarrow> (Err e, st)
      | Inr True \<Rightarrow> (Ok (), st)
      | Inr False \<Rightarrow> pin_persist k io (pin_commit now hostport key source st))"

definition pin_replace ::
    "pin_codec \<Rightarrow> persist_io \<Rightarrow> string \<Rightarrow> string \<Rightarrow> string \<Rightarrow> string \<Rightarrow> pin_store \<Rightarrow>
     (pin_store_error, bool) result \<times> pin_store" where
  "pin_replace k io now hostport key reason st =
     (case map_of (ps_pins st) hostport of
        None \<Rightarrow> (Ok False, st)
      | Some p \<Rightarrow>
          (case pin_persist k io (st\<lparr>ps_pins := AList.update hostport
                  (p\<lparr>pin_openssh_key := key, pin_first_seen := now, pin_source := ''replace:'' @ reason\<rparr>) (ps_pins st)\<rparr>) of
             (Inl e, st1) \<Rightarrow> (Err e, st1)
           | (Inr _, st1) \<Rightarrow> (Ok True, st1)))"

section \<open>Importing OpenSSH files\<close>

fun take_word :: "string \<Rightarrow> string \<times> string" where
  "take_word [] = ([], [])"
| "take_word (c # cs) =
     (if list_ex (starts_with (c # cs)) unicode_ws then ([], c # cs)
      else (case take_word cs of (w, rest) \<Rightarrow> (c # w, rest)))"

text \<open>\<^verbatim>\<open>str::split_whitespace\<close>; the text shrinks by at least one byte for every word.\<close>

fun split_words :: "nat \<Rightarrow> string \<Rightarrow> string list" where
  "split_words 0 s = []"
| "split_words (Suc n) s =
     (case take_word (trim_start s) of
        ([], _) \<Rightarrow> []
      | (w, rest) \<Rightarrow> w # split_words n rest)"

definition split_whitespace :: "string \<Rightarrow> string list" where
  "split_whitespace s = split_words (Suc (length s)) s"

definition normalize_hostport :: "string \<Rightarrow> string" where
  "normalize_hostport pattern = pattern"

definition patterned :: "string \<Rightarrow> bool" where
  "patterned p \<longleftrightarrow> starts_with p ''|'' \<or> CHR '','' \<in> set p \<or> CHR ''*'' \<in> set p \<or> CHR ''?'' \<in> set p \<or> starts_with p ''!''"

fun parse_known_lines :: "string \<Rightarrow> nat \<Rightarrow> string list \<Rightarrow> pin list \<times> string list" where
  "parse_known_lines now i [] = ([], [])"
| "parse_known_lines now i (raw # ls) =
     (case parse_known_lines now (Suc i) ls of
        (pins, skipped) \<Rightarrow>
          (let line = trim raw in
           if line = [] \<or> starts_with line ''#'' then (pins, skipped)
           else (case split_whitespace line of
              patterns # keytype # keybody # _ \<Rightarrow>
                if patterned patterns
                then (pins, (''line '' @ dec_of_nat (i + 1) @ '': patterned/hashed entry'') # skipped)
                else (\<lparr>pin_hostport = normalize_hostport patterns, pin_openssh_key = keytype @ '' '' @ keybody,
                       pin_first_seen = now, pin_source = ''import''\<rparr> # pins, skipped)
            | _ \<Rightarrow> (pins, skipped))))"

definition parse_openssh_known_hosts :: "string \<Rightarrow> string \<Rightarrow> pin list \<times> string list" where
  "parse_openssh_known_hosts now content = parse_known_lines now 0 (str_lines content)"

section \<open>Checking the key of a server\<close>

text \<open>
  The store is passed beside the policy; it is consulted under \<open>PinStorePolicy tofu\<close> only. A key
  is given by its OpenSSH line, or by the error of printing it.
\<close>

datatype host_key_policy = RefuseUnknown | TrustOnFirstUseAll | PinStorePolicy bool

definition key_line :: "(string, string) result \<Rightarrow> (string, string) result" where
  "key_line full =
     (case full of
        Inl e \<Rightarrow> Err (''host key serialization failed: '' @ e)
      | Inr l \<Rightarrow>
          (case split_whitespace l of
             algo # b64 # _ \<Rightarrow> Ok (algo @ '' '' @ b64)
           | _ \<Rightarrow> Err ''host key openssh form incomplete''))"

definition check_server_key ::
    "pin_codec \<Rightarrow> persist_io \<Rightarrow> string \<Rightarrow> host_key_policy \<Rightarrow> string \<Rightarrow> (string, string) result \<Rightarrow> pin_store \<Rightarrow>
     (string, bool) result \<times> pin_store" where
  "check_server_key k io now policy hostport server_key st =
     (case key_line server_key of
        Inl _ \<Rightarrow> (Ok False, st)
      | Inr line \<Rightarrow>
          (case policy of
             TrustOnFirstUseAll \<Rightarrow> (Ok True, st)
           | RefuseUnknown \<Rightarrow> (Ok False, st)
           | PinStorePolicy tofu \<Rightarrow>
               (case pin_get st hostport of
                  Some p \<Rightarrow> (Ok (pin_openssh_key p = line), st)
                | None \<Rightarrow>
                    if tofu then
                      (case pin_insert k io now hostport line ''tofu'' st of
                         (Inl e, st1) \<Rightarrow> (Err (''pin persistence failed: '' @ pin_store_error_text e), st1)
                       | (Inr _, st1) \<Rightarrow> (Ok True, st1))
                    else (Ok False, st))))"

section \<open>Connecting\<close>

text \<open>
  The SSH client library: \<open>sp_hello\<close> dials and returns the key that the server presents,
  \<open>sp_session\<close> completes the exchange once the key is accepted, and the client is told
  \<open>sp_unknown_key\<close> when it is not. The remaining functions authenticate with a private key and
  open the channel.
\<close>

record ssh_peer =
  sp_private :: "string \<Rightarrow> (string, bytes) result"
  sp_hello :: "string \<Rightarrow> nat \<Rightarrow> (string, (string, string) result) result"
  sp_unknown_key :: string
  sp_session :: "string \<Rightarrow> nat \<Rightarrow> (string, nat) result"
  sp_auth :: "nat \<Rightarrow> string \<Rightarrow> bytes \<Rightarrow> (string, bool) result"
  sp_open :: "nat \<Rightarrow> (string, nat) result"
  sp_pty :: "nat \<Rightarrow> (string, unit) result"
  sp_shell :: "nat \<Rightarrow> (string, unit) result"

text \<open>What leaves the process: a connection to a host, and an authentication with a private key.\<close>

datatype ssh_effect = Dialled string nat | Authenticated string nat string bytes

record ssh_operation =
  so_host :: string
  so_port :: nat
  so_user :: string
  so_pty :: bool

definition map_err :: "(string \<Rightarrow> string) \<Rightarrow> (string, 'a) result \<Rightarrow> (string, 'a) result" where
  "map_err f r = map_sum f id r"

definition ssh_port :: "json \<Rightarrow> nat" where
  "ssh_port operation =
     (let p = (case get_u64 operation ''port'' of None \<Rightarrow> 22 | Some p \<Rightarrow> p) in
      if p < 2 ^ 16 then p else 22)"

definition ssh_operation_of :: "json \<Rightarrow> (string, ssh_operation) result" where
  "ssh_operation_of operation =
     bind_res (ok_or ''operation.host missing'' (get_str operation ''host'')) (\<lambda>host.
     bind_res (ok_or ''operation.user missing'' (get_str operation ''user'')) (\<lambda>user.
     Ok \<lparr>so_host = host, so_port = ssh_port operation, so_user = user,
         so_pty = (case Option.bind (json_get operation ''pty'') as_bool of None \<Rightarrow> True | Some b \<Rightarrow> b)\<rparr>))"

definition host_port :: "string \<Rightarrow> nat \<Rightarrow> string" where
  "host_port host port = host @ '':'' @ dec_of_nat port"

text \<open>Dialling with the check of the key; the error is that of the client library.\<close>

definition ssh_dial ::
    "ssh_peer \<Rightarrow> pin_codec \<Rightarrow> persist_io \<Rightarrow> string \<Rightarrow> host_key_policy \<Rightarrow> string \<Rightarrow> nat \<Rightarrow> pin_store \<Rightarrow>
     (string, nat) result \<times> pin_store" where
  "ssh_dial sp k io now policy host port st =
     (case sp_hello sp host port of
        Inl e \<Rightarrow> (Err e, st)
      | Inr key \<Rightarrow>
          (case check_server_key k io now policy (host_port host port) key st of
             (Inl e, st1) \<Rightarrow> (Err e, st1)
           | (Inr False, st1) \<Rightarrow> (Err (sp_unknown_key sp), st1)
           | (Inr True, st1) \<Rightarrow> (sp_session sp host port, st1)))"

definition ssh_open_channel :: "ssh_peer \<Rightarrow> bool \<Rightarrow> nat \<Rightarrow> (string, nat) result" where
  "ssh_open_channel sp want_pty handle =
     bind_res (map_err (\<lambda>e. ''channel open failed: '' @ e) (sp_open sp handle)) (\<lambda>channel.
     if want_pty then
       bind_res (map_err (\<lambda>e. ''pty request failed: '' @ e) (sp_pty sp channel)) (\<lambda>_.
       bind_res (map_err (\<lambda>e. ''shell request failed: '' @ e) (sp_shell sp channel)) (\<lambda>_. Ok channel))
     else Ok channel)"

definition ssh_authenticate :: "ssh_peer \<Rightarrow> ssh_operation \<Rightarrow> bytes \<Rightarrow> nat \<Rightarrow> (string, nat) result" where
  "ssh_authenticate sp so key handle =
     bind_res (map_err (\<lambda>e. ''auth exchange failed: '' @ e) (sp_auth sp handle (so_user so) key)) (\<lambda>accepted.
     if accepted then ssh_open_channel sp (so_pty so) handle
     else Err (''public key rejected for '' @ so_user so @ ''@'' @ so_host so))"

definition ssh_connect ::
    "ssh_peer \<Rightarrow> pin_codec \<Rightarrow> persist_io \<Rightarrow> string \<Rightarrow> host_key_policy \<Rightarrow> string \<Rightarrow> json \<Rightarrow> string \<Rightarrow> pin_store \<Rightarrow>
     ((string, nat) result \<times> ssh_effect list) \<times> pin_store" where
  "ssh_connect sp k io now policy target_uri operation secret st =
     (case ssh_operation_of operation of
        Inl e \<Rightarrow> ((Err e, []), st)
      | Inr so \<Rightarrow>
          (case sp_private sp secret of
             Inl e \<Rightarrow> ((Err (''vault entry is not a parseable SSH private key: '' @ e), []), st)
           | Inr key \<Rightarrow>
               (case ssh_dial sp k io now policy (so_host so) (so_port so) st of
                  (Inl e, st1) \<Rightarrow>
                    ((Err (''connect to '' @ host_port (so_host so) (so_port so) @ '' failed: '' @ e),
                      [Dialled (so_host so) (so_port so)]), st1)
                | (Inr handle, st1) \<Rightarrow>
                    ((ssh_authenticate sp so key handle,
                      [Dialled (so_host so) (so_port so),
                       Authenticated (so_host so) (so_port so) (so_user so) key]), st1))))"

section \<open>The channel\<close>

datatype ssh_msg = Data bytes | ExtendedData bytes | ExitStatus nat | Eof | CloseMsg | OtherMsg

text \<open>
  What a reader meets: a message, a message after which the wait is over, or silence until the
  wait is over. The list is the future of the channel; where it ends the channel has ended.
\<close>

datatype ssh_arrival = Timely ssh_msg | Overdue ssh_msg | Quiet

record ssh_channel =
  sc_channel :: "nat option"
  sc_closed :: bool

fun batch_msg :: "ssh_msg \<Rightarrow> output_batch \<Rightarrow> output_batch" where
  "batch_msg (Data d) b = b\<lparr>ob_chunks := ob_chunks b @ [\<lparr>oc_stream = ''stdout'', oc_data = d\<rparr>]\<rparr>"
| "batch_msg (ExtendedData d) b = b\<lparr>ob_chunks := ob_chunks b @ [\<lparr>oc_stream = ''stderr'', oc_data = d\<rparr>]\<rparr>"
| "batch_msg (ExitStatus n) b = b\<lparr>ob_exit_code := (if n < 2 ^ 31 then Some (int n) else None)\<rparr>"
| "batch_msg Eof b = b\<lparr>ob_closed := True\<rparr>"
| "batch_msg CloseMsg b = b\<lparr>ob_closed := True\<rparr>"
| "batch_msg OtherMsg b = b"

definition ends_batch :: "ssh_msg \<Rightarrow> bool" where
  "ends_batch m \<longleftrightarrow> m = Eof \<or> m = CloseMsg"

fun ssh_read_from :: "output_batch \<Rightarrow> ssh_arrival list \<Rightarrow> output_batch \<times> ssh_arrival list" where
  "ssh_read_from b [] = (b\<lparr>ob_closed := True\<rparr>, [])"
| "ssh_read_from b (Quiet # as) = (b, as)"
| "ssh_read_from b (Overdue m # as) = (batch_msg m b, as)"
| "ssh_read_from b (Timely m # as) =
     (let b1 = batch_msg m b in
      if ends_batch m \<or> 64 \<le> length (ob_chunks b1) then (b1, as) else ssh_read_from b1 as)"

definition ssh_read_batch :: "ssh_channel \<Rightarrow> ssh_arrival list \<Rightarrow> output_batch \<times> ssh_arrival list" where
  "ssh_read_batch ch as =
     (let b = \<lparr>ob_chunks = [], ob_closed = False, ob_exit_code = None\<rparr> in
      case sc_channel ch of
        None \<Rightarrow> (b\<lparr>ob_closed := True\<rparr>, as)
      | Some _ \<Rightarrow> ssh_read_from b as)"

definition ssh_write :: "(nat \<Rightarrow> bytes \<Rightarrow> (string, unit) result) \<Rightarrow> bytes \<Rightarrow> ssh_channel \<Rightarrow> (string, unit) result" where
  "ssh_write send data ch =
     (case sc_channel ch of None \<Rightarrow> Err ''channel already closed'' | Some c \<Rightarrow> send c data)"

text \<open>The channel is dropped when no reader or writer holds it.\<close>

definition ssh_shutdown :: "bool \<Rightarrow> ssh_channel \<Rightarrow> ssh_channel" where
  "ssh_shutdown lock_free ch =
     (let ch1 = ch\<lparr>sc_closed := True\<rparr> in if lock_free then ch1\<lparr>sc_channel := None\<rparr> else ch1)"

section \<open>Specification\<close>

text \<open>The line of the key that the server of a host presents.\<close>

definition presented :: "ssh_peer \<Rightarrow> string \<Rightarrow> nat \<Rightarrow> string option" where
  "presented sp host port =
     (case sp_hello sp host port of
        Inl _ \<Rightarrow> None
      | Inr key \<Rightarrow> (case key_line key of Inl _ \<Rightarrow> None | Inr l \<Rightarrow> Some l))"

text \<open>When a presented key is acceptable; \<open>stored\<close> says that a new pin reached the file.\<close>

fun key_acceptable :: "host_key_policy \<Rightarrow> pin option \<Rightarrow> string \<Rightarrow> bool \<Rightarrow> bool" where
  "key_acceptable RefuseUnknown p l stored \<longleftrightarrow> False"
| "key_acceptable TrustOnFirstUseAll p l stored \<longleftrightarrow> True"
| "key_acceptable (PinStorePolicy tofu) (Some p) l stored \<longleftrightarrow> pin_openssh_key p = l"
| "key_acceptable (PinStorePolicy tofu) None l stored \<longleftrightarrow> tofu \<and> stored"

text \<open>A history of one gateway: connections, each with the peer of that moment, and restarts.\<close>

datatype ssh_event =
    Connects ssh_peer persist_io string json string
  | Restarts

definition file_read_of :: "pin_store \<Rightarrow> store_read" where
  "file_read_of st = (case ps_file st of None \<Rightarrow> StoreAbsent | Some t \<Rightarrow> StoreText t)"

text \<open>The hosts a private key was used at, with the line that the server presented.\<close>

fun used_at :: "ssh_peer \<Rightarrow> ssh_effect \<Rightarrow> (string \<times> string option) list" where
  "used_at sp (Dialled host port) = []"
| "used_at sp (Authenticated host port user key) = [(host_port host port, presented sp host port)]"

text \<open>A gateway whose store does not load does not start.\<close>

fun ssh_history ::
    "pin_codec \<Rightarrow> bool \<Rightarrow> ssh_event list \<Rightarrow> pin_store \<Rightarrow> (string \<times> string option) list" where
  "ssh_history k tofu [] st = []"
| "ssh_history k tofu (Connects sp io now operation secret # evs) st =
     (case ssh_connect sp k io now (PinStorePolicy tofu) [] operation secret st of
        ((r, effs), st1) \<Rightarrow> concat (map (used_at sp) effs) @ ssh_history k tofu evs st1)"
| "ssh_history k tofu (Restarts # evs) st =
     (case pin_load k (file_read_of st) of
        Inl _ \<Rightarrow> []
      | Inr pins \<Rightarrow> ssh_history k tofu evs (st\<lparr>ps_pins := pins\<rparr>))"

fun persists :: "ssh_event \<Rightarrow> bool" where
  "persists (Connects sp io now operation secret) \<longleftrightarrow> io = Persisted"
| "persists Restarts \<longleftrightarrow> True"

text \<open>What the JSON library promises of the store file.\<close>

definition pin_codec_ok :: "pin_codec \<Rightarrow> bool" where
  "pin_codec_ok k \<longleftrightarrow> (\<forall>x. \<exists>t. pk_print k x = Ok t \<and> \<not> is_blank t \<and> pk_parse k t = Ok x)"

text \<open>Every pin stands under its own name; the file holds the pins in memory.\<close>

definition pins_ok :: "pin_store \<Rightarrow> bool" where
  "pins_ok st \<longleftrightarrow> entries_ok (\<lambda>hp p. pin_hostport p = hp) (ps_pins st)"

definition file_ok :: "pin_codec \<Rightarrow> pin_store \<Rightarrow> bool" where
  "file_ok k st \<longleftrightarrow> (\<exists>pins. pin_load k (file_read_of st) = Ok pins \<and> map_of pins = map_of (ps_pins st))"

text \<open>Reading a channel until it is closed, at most \<open>n\<close> times.\<close>

fun ssh_reads :: "nat \<Rightarrow> ssh_channel \<Rightarrow> ssh_arrival list \<Rightarrow> output_batch list" where
  "ssh_reads 0 ch as = []"
| "ssh_reads (Suc n) ch as =
     (case ssh_read_batch ch as of
        (b, rest) \<Rightarrow> b # (if ob_closed b then [] else ssh_reads n ch rest))"

fun message_of :: "ssh_arrival \<Rightarrow> ssh_msg list" where
  "message_of (Timely m) = [m]"
| "message_of (Overdue m) = [m]"
| "message_of Quiet = []"

fun output_of :: "ssh_msg \<Rightarrow> output_chunk list" where
  "output_of (Data d) = [\<lparr>oc_stream = ''stdout'', oc_data = d\<rparr>]"
| "output_of (ExtendedData d) = [\<lparr>oc_stream = ''stderr'', oc_data = d\<rparr>]"
| "output_of _ = []"

text \<open>The output that the peer sends before it ends the stream.\<close>

definition sent_output :: "ssh_arrival list \<Rightarrow> output_chunk list" where
  "sent_output as = concat (map output_of (takeWhile (\<lambda>m. \<not> ends_batch m) (concat (map message_of as))))"

section \<open>Pins\<close>

lemma pin_list_set: "set (pin_list st) = snd ` set (ps_pins st)"
  by (simp add: pin_list_def)

lemma map_of_pin_list:
  assumes "pins_ok st"
  shows "map_of (fold (\<lambda>p. AList.update (pin_hostport p) p) (pin_list st) []) = map_of (ps_pins st)"
proof -
  let ?es = "map (\<lambda>p. (pin_hostport p, p)) (pin_list st)"
  have ids: "map (\<lambda>kv. (pin_hostport (snd kv), snd kv)) (ps_pins st) = ps_pins st"
    using assms by (intro map_idI) (auto simp: pins_ok_def entries_ok_def list_all_iff)
  have names: "map (\<lambda>kv. pin_hostport (snd kv)) (ps_pins st) = map fst (ps_pins st)"
    using assms by (auto simp: pins_ok_def entries_ok_def list_all_iff)
  have "distinct (map pin_hostport (map snd (ps_pins st)))"
    using assms by (simp add: comp_def names pins_ok_def entries_ok_def)
  then have "distinct (map pin_hostport (pin_list st))"
    by (simp add: pin_list_def distinct_map [of pin_hostport] del: map_map)
  then have d: "distinct (map fst ?es)" by (simp add: comp_def)
  have "set ?es = set (ps_pins st)"
    using arg_cong [OF ids, of set] by (simp add: pin_list_set image_image)
  then have "map_of ?es = map_of (ps_pins st)"
    using d assms by (subst (asm) map_of_inject_set [symmetric]) (auto simp: pins_ok_def entries_ok_def)
  then show ?thesis
    using map_of_fold_update [of pin_hostport id "pin_list st" "[]"] map_of_rev_distinct [OF d] by simp
qed

lemma persisted_file_ok:
  assumes "pin_codec_ok k" "pins_ok st"
  shows "\<exists>st1. pin_persist k Persisted st = (Ok (), st1) \<and> ps_pins st1 = ps_pins st \<and> file_ok k st1"
proof -
  obtain t where "pk_print k (1, pin_list st) = Ok t" "\<not> is_blank t" "pk_parse k t = Ok (1, pin_list st)"
    using assms(1) by (meson pin_codec_ok_def)
  then show ?thesis
    using map_of_pin_list [OF assms(2)]
    by (simp add: pin_persist_def file_ok_def file_read_of_def pin_load_def)
qed

lemma pin_commit_ok: "pins_ok st \<Longrightarrow> pins_ok (pin_commit now hp key source st)"
  by (simp add: pins_ok_def pin_commit_def entries_ok_update)

lemma pin_persist_pins: "pin_persist k io st = (r, st1) \<Longrightarrow> ps_pins st1 = ps_pins st"
  by (auto simp: pin_persist_def split: persist_io.splits sum.splits)

lemma check_server_key_pins_eq:
  "ps_pins (snd (check_server_key k io now policy hp key st)) = ps_pins st \<or>
   (\<exists>l. map_of (ps_pins st) hp = None \<and>
     ps_pins (snd (check_server_key k io now policy hp key st)) = ps_pins (pin_commit now hp l ''tofu'' st))"
  by (auto simp: check_server_key_def pin_insert_def pin_check_def pin_get_def
      split: sum.split host_key_policy.split option.split prod.split dest!: pin_persist_pins)

lemma check_server_key_frame:
  "map_of (ps_pins st) hp = Some p \<Longrightarrow> map_of (ps_pins (snd (check_server_key k io now policy hp' key st))) hp = Some p"
  using check_server_key_pins_eq [of k io now policy hp' key st]
  by (auto simp: pin_commit_def update_conv')

lemma check_server_key_pins_ok: "pins_ok st \<Longrightarrow> pins_ok (snd (check_server_key k io now policy hp key st))"
  using check_server_key_pins_eq [of k io now policy hp key st] pin_commit_ok [of st]
  by (auto simp: pins_ok_def)

text \<open>The check answers yes exactly for acceptable keys.\<close>

lemma check_server_key_yes:
  "fst (check_server_key k io now policy hp key st) = Ok True \<longleftrightarrow>
     (\<exists>l. key_line key = Ok l \<and>
       key_acceptable policy (pin_get st hp) l
         (fst (pin_persist k io (pin_commit now hp l ''tofu'' st)) = Ok ()))"
  by (auto simp: check_server_key_def pin_insert_def pin_check_def pin_get_def
      split: sum.split host_key_policy.split option.split prod.split)

text \<open>A key that was accepted from the store is pinned from then on.\<close>

lemma check_server_key_pins:
  assumes "fst (check_server_key k io now (PinStorePolicy tofu) hp key st) = Ok True"
  shows "\<exists>l p. key_line key = Ok l \<and>
     map_of (ps_pins (snd (check_server_key k io now (PinStorePolicy tofu) hp key st))) hp = Some p \<and> pin_openssh_key p = l"
  using assms
  by (auto simp: check_server_key_def pin_insert_def pin_check_def pin_get_def
      split: sum.splits option.splits prod.splits if_splits dest!: pin_persist_pins)
    (simp_all add: pin_commit_def update_conv')

lemma check_server_key_file_ok:
  assumes "pin_codec_ok k" "pins_ok st" "file_ok k st"
  shows "file_ok k (snd (check_server_key k Persisted now policy hp key st))"
proof -
  have "\<exists>st1. pin_persist k Persisted (pin_commit now hp l ''tofu'' st) = (Ok (), st1) \<and> file_ok k st1" for l
    using persisted_file_ok [OF assms(1) pin_commit_ok [OF assms(2)]] by blast
  then show ?thesis
    using assms(3)
    by (auto simp: check_server_key_def pin_insert_def pin_check_def
        split: sum.split host_key_policy.split option.split prod.split) (metis prod.inject)+
qed

section \<open>Connections\<close>

lemma ssh_dial_store:
  "snd (ssh_dial sp k io now policy host port st) =
     (case sp_hello sp host port of Inl _ \<Rightarrow> st
      | Inr key \<Rightarrow> snd (check_server_key k io now policy (host_port host port) key st))"
  by (simp add: ssh_dial_def split: sum.split prod.split bool.split)

lemma ssh_dial_Ok:
  "fst (ssh_dial sp k io now policy host port st) = Ok h \<longleftrightarrow>
     sp_session sp host port = Ok h \<and>
     (\<exists>key. sp_hello sp host port = Ok key \<and>
        fst (check_server_key k io now policy (host_port host port) key st) = Ok True)"
  by (auto simp: ssh_dial_def split: sum.splits prod.splits bool.splits)

lemma ssh_connect_store:
  "snd (ssh_connect sp k io now policy uri operation secret st) = st \<or>
   (\<exists>host port. snd (ssh_connect sp k io now policy uri operation secret st) =
      snd (ssh_dial sp k io now policy host port st))"
  by (auto simp: ssh_connect_def split: sum.split prod.split) (metis snd_conv)+

lemma ssh_connect_authenticated:
  "Authenticated host port user key \<in> set (snd (fst (ssh_connect sp k io now policy uri operation secret st))) \<longleftrightarrow>
     (\<exists>so h. ssh_operation_of operation = Ok so \<and> host = so_host so \<and> port = so_port so \<and> user = so_user so \<and>
        sp_private sp secret = Ok key \<and> fst (ssh_dial sp k io now policy host port st) = Ok h)"
  by (auto simp: ssh_connect_def split: sum.split prod.split)

lemma loaded_pins_ok: "pin_load k rd = Ok pins \<Longrightarrow> entries_ok (\<lambda>hp p. pin_hostport p = hp) pins"
proof -
  have "entries_ok (\<lambda>hp p. pin_hostport p = hp) t \<Longrightarrow>
      entries_ok (\<lambda>hp p. pin_hostport p = hp) (fold (\<lambda>p. AList.update (pin_hostport p) p) ps t)" for ps t
    by (induction ps arbitrary: t) (simp_all add: entries_ok_update)
  moreover have "entries_ok (\<lambda>hp p. pin_hostport p = hp) []" by (simp add: entries_ok_def)
  ultimately show "pin_load k rd = Ok pins \<Longrightarrow> ?thesis"
    by (auto simp: pin_load_def split: store_read.splits if_splits sum.splits)
qed

text \<open>One key per host, as a function of the name of the host that extends the pins.\<close>

definition consistent :: "pin_store \<Rightarrow> (string \<times> string option) list \<Rightarrow> bool" where
  "consistent st uses \<longleftrightarrow> (\<exists>f. (\<forall>hp l. (hp, l) \<in> set uses \<longrightarrow> l = f hp) \<and>
     (\<forall>hp p. map_of (ps_pins st) hp = Some p \<longrightarrow> f hp = Some (pin_openssh_key p)))"

lemma ssh_connect_frame:
  "map_of (ps_pins st) hp = Some p \<Longrightarrow>
     map_of (ps_pins (snd (ssh_connect sp k io now policy uri operation secret st))) hp = Some p"
  using ssh_connect_store [of sp k io now policy uri operation secret st]
  by (auto simp: ssh_dial_store check_server_key_frame split: sum.split)

lemma ssh_connect_pins_ok:
  "pins_ok st \<Longrightarrow> pins_ok (snd (ssh_connect sp k io now policy uri operation secret st))"
  using ssh_connect_store [of sp k io now policy uri operation secret st]
  by (auto simp: ssh_dial_store check_server_key_pins_ok split: sum.split)

lemma ssh_connect_file_ok:
  "pin_codec_ok k \<Longrightarrow> pins_ok st \<Longrightarrow> file_ok k st \<Longrightarrow>
     file_ok k (snd (ssh_connect sp k Persisted now policy uri operation secret st))"
  using ssh_connect_store [of sp k Persisted now policy uri operation secret st]
  by (auto simp: ssh_dial_store check_server_key_file_ok split: sum.split)

lemma used_at_iff:
  "(hp, l) \<in> set (used_at sp x) \<longleftrightarrow> (\<exists>host port user key. x = Authenticated host port user key \<and>
     hp = host_port host port \<and> l = presented sp host port)"
  by (cases x) auto

lemma ssh_connect_pins_used:
  assumes "(hp, l) \<in> set (concat (map (used_at sp)
      (snd (fst (ssh_connect sp k io now (PinStorePolicy tofu) uri operation secret st)))))"
  shows "\<exists>p. map_of (ps_pins (snd (ssh_connect sp k io now (PinStorePolicy tofu) uri operation secret st))) hp = Some p \<and>
     l = Some (pin_openssh_key p)"
proof -
  let ?c = "ssh_connect sp k io now (PinStorePolicy tofu) uri operation secret st"
  obtain host port user key where auth: "Authenticated host port user key \<in> set (snd (fst ?c))"
    and hp: "hp = host_port host port" "l = presented sp host port"
    using assms by (auto simp: used_at_iff)
  from auth obtain so h where so: "ssh_operation_of operation = Ok so" "host = so_host so" "port = so_port so"
    "sp_private sp secret = Ok key" and dial: "fst (ssh_dial sp k io now (PinStorePolicy tofu) host port st) = Ok h"
    by (auto simp: ssh_connect_authenticated)
  have "snd ?c = snd (ssh_dial sp k io now (PinStorePolicy tofu) host port st)"
    using so by (simp add: ssh_connect_def split: prod.split sum.split)
  with dial show ?thesis
    using hp by (auto simp: ssh_dial_Ok ssh_dial_store presented_def dest!: check_server_key_pins)
qed

lemma ssh_history_consistent:
  assumes "pin_codec_ok k" "pins_ok st" "list_all persists evs \<and> file_ok k st \<or> Restarts \<notin> set evs"
  shows "consistent st (ssh_history k tofu evs st)"
  using assms(2,3)
proof (induction evs arbitrary: st)
  case Nil
  then show ?case
    by (auto simp: consistent_def intro!: exI [of _ "\<lambda>hp. map_option pin_openssh_key (map_of (ps_pins st) hp)"])
next
  case (Cons ev evs)
  show ?case
  proof (cases ev)
    case (Connects sp io now operation secret)
    let ?c = "ssh_connect sp k io now (PinStorePolicy tofu) [] operation secret st"
    have "consistent (snd ?c) (ssh_history k tofu evs (snd ?c))"
      using Cons.prems Connects ssh_connect_pins_ok ssh_connect_file_ok [OF assms(1)]
      by (intro Cons.IH) auto
    then obtain f where
      f: "\<forall>hp l. (hp, l) \<in> set (ssh_history k tofu evs (snd ?c)) \<longrightarrow> l = f hp"
      "\<forall>hp p. map_of (ps_pins (snd ?c)) hp = Some p \<longrightarrow> f hp = Some (pin_openssh_key p)"
      unfolding consistent_def by blast
    have uses: "ssh_history k tofu (ev # evs) st =
        concat (map (used_at sp) (snd (fst ?c))) @ ssh_history k tofu evs (snd ?c)"
      using Connects by (simp add: case_prod_beta)
    show ?thesis
      unfolding consistent_def uses set_append Un_iff
      using f ssh_connect_pins_used [of _ _ sp k io now tofu "[]" operation secret st] ssh_connect_frame
      by (intro exI [of _ f]) metis
  next
    case Restarts
    then obtain pins where pins: "pin_load k (file_read_of st) = Ok pins" "map_of pins = map_of (ps_pins st)"
      using Cons.prems by (auto simp: file_ok_def)
    then have "consistent (st\<lparr>ps_pins := pins\<rparr>) (ssh_history k tofu evs (st\<lparr>ps_pins := pins\<rparr>))"
      using Cons.prems Restarts loaded_pins_ok
      by (intro Cons.IH) (auto simp: pins_ok_def file_ok_def file_read_of_def)
    then show ?thesis using pins Restarts by (simp add: consistent_def)
  qed
qed

section \<open>Reading the channel\<close>

lemma batch_msg_chunks: "ob_chunks (batch_msg m b) = ob_chunks b @ output_of m"
  by (cases m) simp_all

lemma batch_msg_closed: "ob_closed (batch_msg m b) \<longleftrightarrow> ob_closed b \<or> ends_batch m"
  by (cases m) (simp_all add: ends_batch_def)

lemma ends_output: "ends_batch m \<Longrightarrow> output_of m = []"
  by (auto simp: ends_batch_def)

text \<open>One read takes a prefix of what arrives; an open batch leaves the rest to the next read.\<close>

lemma sent_output_simps [simp]:
  "sent_output [] = []"
  "sent_output (Quiet # as) = sent_output as"
  "sent_output (Timely m # as) = (if ends_batch m then [] else output_of m @ sent_output as)"
  "sent_output (Overdue m # as) = (if ends_batch m then [] else output_of m @ sent_output as)"
  by (simp_all add: sent_output_def)

definition read_splits :: "output_batch \<Rightarrow> ssh_arrival list \<Rightarrow> output_batch \<times> ssh_arrival list \<Rightarrow> bool" where
  "read_splits b as r \<longleftrightarrow>
     (if ob_closed (fst r) then ob_chunks (fst r) = ob_chunks b @ sent_output as
      else ob_chunks (fst r) @ sent_output (snd r) = ob_chunks b @ sent_output as \<and> length (snd r) < length as)"

lemma ssh_read_from_split: "\<not> ob_closed b \<Longrightarrow> read_splits b as (ssh_read_from b as)"
proof (induction as arbitrary: b)
  case (Cons a as)
  show ?case
  proof (cases a)
    case (Timely m)
    show ?thesis
    proof (cases "ends_batch m \<or> 64 \<le> length (ob_chunks (batch_msg m b))")
      case True
      then have "ssh_read_from b (a # as) = (batch_msg m b, as)" using Timely by (simp add: Let_def)
      then show ?thesis
        using Cons.prems Timely by (simp add: read_splits_def batch_msg_chunks batch_msg_closed ends_output)
    next
      case False
      then have "ssh_read_from b (a # as) = ssh_read_from (batch_msg m b) as" using Timely by (simp add: Let_def)
      moreover have "read_splits (batch_msg m b) as (ssh_read_from (batch_msg m b) as)"
        using Cons False by (simp add: batch_msg_closed)
      ultimately show ?thesis
        using Timely False by (auto simp: read_splits_def batch_msg_chunks split: if_splits)
    qed
  qed (use Cons.prems in \<open>auto simp: read_splits_def batch_msg_chunks batch_msg_closed ends_output\<close>)
qed (simp add: read_splits_def)

lemma ssh_read_from_bound:
  "length (ob_chunks b) < 64 \<Longrightarrow> length (ob_chunks (fst (ssh_read_from b as))) \<le> 64"
proof (induction b as rule: ssh_read_from.induct)
  case (3 b m as)
  then show ?case by (cases m) simp_all
next
  case (4 b m as)
  then show ?case by (cases m) (auto simp: Let_def)
qed simp_all

lemma ssh_reads_output:
  assumes "sc_channel ch = Some c" "length as < n"
  shows "concat (map ob_chunks (ssh_reads n ch as)) = sent_output as \<and>
     ssh_reads n ch as \<noteq> [] \<and> ob_closed (last (ssh_reads n ch as))"
  using assms(2)
proof (induction n arbitrary: as)
  case (Suc n)
  obtain b rest where r: "ssh_read_batch ch as = (b, rest)" by fastforce
  let ?b = "\<lparr>ob_chunks = [], ob_closed = False, ob_exit_code = None\<rparr>"
  have "ssh_read_from ?b as = (b, rest)" using r assms(1) by (simp add: ssh_read_batch_def Let_def)
  then have "read_splits ?b as (b, rest)" using ssh_read_from_split [of ?b as] by simp
  then have "if ob_closed b then ob_chunks b = sent_output as
      else ob_chunks b @ sent_output rest = sent_output as \<and> length rest < length as"
    by (auto simp: read_splits_def split: if_splits)
  then show ?case using Suc r by (auto split: if_splits)
qed simp

lemma ssh_reads_bound: "list_all (\<lambda>b. length (ob_chunks b) \<le> 64) (ssh_reads n ch as)"
proof (induction n arbitrary: as)
  case (Suc n)
  have "length (ob_chunks (fst (ssh_read_batch ch as))) \<le> 64"
    by (simp add: ssh_read_batch_def Let_def ssh_read_from_bound split: option.split)
  then show ?case using Suc by (auto simp: case_prod_beta)
qed simp

lemma ssh_read_data_eof:
  "ob_exit_code b = None \<Longrightarrow> length (ob_chunks b) < 64 \<Longrightarrow>
     (case ssh_read_from b (map (\<lambda>d. Timely (Data d)) ds @ Timely Eof # as) of
        (b1, rest) \<Rightarrow> ob_exit_code b1 = None \<and> (ob_closed b1 \<or> (\<exists>ds1. rest = map (\<lambda>d. Timely (Data d)) ds1 @ Timely Eof # as)))"
  by (induction ds arbitrary: b) (auto simp: Let_def ends_batch_def)

lemma ssh_reads_data_eof:
  "list_all (\<lambda>b. ob_exit_code b = None) (ssh_reads n ch (map (\<lambda>d. Timely (Data d)) ds @ Timely Eof # as))"
proof (induction n arbitrary: ds)
  case (Suc n)
  then show ?case
    using ssh_read_data_eof [where b = "\<lparr>ob_chunks = [], ob_closed = False, ob_exit_code = None\<rparr>" and ds = ds and as = as]
    by (auto simp: ssh_read_batch_def Let_def case_prod_beta split: option.split)
qed simp

section \<open>Imported pins\<close>

lemma host_port_colon: "CHR '':'' \<in> set (host_port host port)"
  by (simp add: host_port_def)

section \<open>Sample data\<close>

text \<open>A codec for which the promises hold: every byte is marked, every end is a full stop.\<close>

definition mark :: "string \<Rightarrow> string" where
  "mark s = concat (map (\<lambda>c. [CHR ''x'', c]) s) @ ''.''"

fun unmark :: "string \<Rightarrow> (string \<times> string) option" where
  "unmark (m # c # cs) =
     (if m = CHR ''x'' then map_option (apfst ((#) c)) (unmark cs)
      else if m = CHR ''.'' then Some ([], c # cs) else None)"
| "unmark [m] = (if m = CHR ''.'' then Some ([], []) else None)"
| "unmark [] = None"

lemma unmark_mark: "unmark (mark s @ rest) = Some (s, rest)"
  by (induction s) (cases rest; simp add: mark_def)+

fun unmark_pins :: "nat \<Rightarrow> string \<Rightarrow> pin list option" where
  "unmark_pins 0 s = Some []"
| "unmark_pins (Suc n) s =
     Option.bind (unmark s) (\<lambda>(a, s). Option.bind (unmark s) (\<lambda>(b, s).
     Option.bind (unmark s) (\<lambda>(c, s). Option.bind (unmark s) (\<lambda>(d, s).
     map_option ((#) \<lparr>pin_hostport = a, pin_openssh_key = b, pin_first_seen = c, pin_source = d\<rparr>) (unmark_pins n s)))))"

definition sample_pin_codec :: pin_codec where
  "sample_pin_codec = \<lparr>
     pk_parse = (\<lambda>s. case Option.bind (unmark s) (\<lambda>(v, s). Option.bind (unmark s) (\<lambda>(n, s).
        map_option (Pair (length v)) (unmark_pins (length n) s))) of None \<Rightarrow> Err ''corrupt'' | Some x \<Rightarrow> Ok x),
     pk_print = (\<lambda>(v, pins). Ok (mark (replicate v CHR ''v'') @ mark (replicate (length pins) CHR ''p'') @
        concat (map (\<lambda>p. mark (pin_hostport p) @ mark (pin_openssh_key p) @ mark (pin_first_seen p) @ mark (pin_source p)) pins)))\<rparr>"

lemma unmark_pins_mark:
  "unmark_pins (length pins) (concat (map (\<lambda>p. mark (pin_hostport p) @ mark (pin_openssh_key p) @
     mark (pin_first_seen p) @ mark (pin_source p)) pins)) = Some pins"
  by (induction pins) (simp_all add: unmark_mark)

lemma sample_pin_codec_ok: "pin_codec_ok sample_pin_codec"
proof -
  have "CHR ''.'' \<notin> set w" if "w \<in> set unicode_ws" for w
    using that by (auto simp: unicode_ws_def)
  then have "CHR ''.'' \<notin> set t" if "is_blank t" for t
    using is_blank_ws_run [OF that] by (force simp: ws_run_def)
  then have "\<not> is_blank (mark s @ rest)" for s rest
    by (force simp: mark_def)
  then show ?thesis
    by (auto simp: pin_codec_ok_def sample_pin_codec_def unmark_mark unmark_pins_mark)
qed

text \<open>A server that presents a given key and lets everyone in; private keys are spelt out.\<close>

definition sample_peer :: "string \<Rightarrow> ssh_peer" where
  "sample_peer line = \<lparr>
     sp_private = (\<lambda>s. if starts_with s ''PRIVATE '' then Ok (drop 8 s) else Err ''not a private key''),
     sp_hello = (\<lambda>host port. Ok (Ok line)), sp_unknown_key = ''Unknown server key'',
     sp_session = (\<lambda>host port. Ok 1), sp_auth = (\<lambda>h user key. Ok True), sp_open = (\<lambda>h. Ok 2),
     sp_pty = (\<lambda>c. Ok ()), sp_shell = (\<lambda>c. Ok ())\<rparr>"

definition sample_login :: "string \<Rightarrow> json" where
  "sample_login host = JObj [(''host'', JStr host), (''user'', JStr ''ops'')]"

definition app_line :: "bool \<Rightarrow> string" where
  "app_line first = (if first then ''ssh-ed25519 AAAA'' else ''ssh-ed25519 BBBB'')"

definition sample_logins :: "persist_io \<Rightarrow> ssh_event list" where
  "sample_logins io =
     [Connects (sample_peer (app_line True)) io ''t1'' (sample_login ''app'') ''PRIVATE k'',
      Connects (sample_peer (app_line True)) io ''t2'' (sample_login ''app'') ''PRIVATE k'',
      Restarts,
      Connects (sample_peer (app_line False)) io ''t3'' (sample_login ''app'') ''PRIVATE k'',
      Connects (sample_peer (app_line False)) io ''t4'' (sample_login ''app'') ''PRIVATE k'']"

lemma sample_key_line: "key_line (Ok ''ssh-ed25519 AAAA'') = Ok ''ssh-ed25519 AAAA''"
    "key_line (Ok ''ssh-ed25519 BBBB'') = Ok ''ssh-ed25519 BBBB''"
  by code_simp+

definition sample_arrivals :: "ssh_arrival list" where
  "sample_arrivals = [Timely (Data ''x''), Timely OtherMsg, Quiet, Overdue (ExtendedData ''e''), Timely (ExitStatus 3), Timely CloseMsg]"

text \<open>The store after importing one line of an OpenSSH file.\<close>

definition sample_import :: "pin list" where
  "sample_import = fst (parse_openssh_known_hosts ''t'' ''app ssh-ed25519 AAAA'')"

lemma sample_import_eq:
  "sample_import = [\<lparr>pin_hostport = ''app'', pin_openssh_key = ''ssh-ed25519 AAAA'', pin_first_seen = ''t'', pin_source = ''import''\<rparr>]"
  by code_simp

definition no_pins :: pin_store where
  "no_pins = \<lparr>ps_pins = [], ps_file = None\<rparr>"

lemma no_pins_ok: "pins_ok no_pins" "file_ok k no_pins"
  by (simp_all add: pins_ok_def file_ok_def no_pins_def entries_ok_def pin_load_def file_read_of_def)

lemma no_pins_get: "pin_get no_pins hp = None"
  by (simp add: no_pins_def pin_get_def)

lemma sample_login_operation:
  "ssh_operation_of (sample_login ''app'') = Ok \<lparr>so_host = ''app'', so_port = 22, so_user = ''ops'', so_pty = True\<rparr>"
  "host_port ''app'' 22 = ''app:22''"
  by (simp_all add: ssh_operation_of_def sample_login_def get_str_def ssh_port_def get_u64_def host_port_def
      dec_of_nat_def digits_of.simps)

lemma app_line_key: "key_line (Ok (app_line first)) = Ok (app_line first)"
  by (cases first) (simp_all add: app_line_def sample_key_line)

text \<open>One login to the sample host, with a pin and without.\<close>

lemma sample_login_pinned:
  "pin_get st ''app:22'' = Some p \<Longrightarrow>
     ssh_history k True (Connects (sample_peer (app_line first)) io now (sample_login ''app'') ''PRIVATE k'' # evs) st =
     (if pin_openssh_key p = app_line first then [(''app:22'', Some (app_line first))] else []) @ ssh_history k True evs st"
  by (simp add: ssh_connect_def sample_login_operation sample_peer_def ssh_dial_def check_server_key_def app_line_key presented_def)

lemma sample_login_unpinned:
  assumes "pin_get st ''app:22'' = None"
    and "pin_persist k io (pin_commit now ''app:22'' (app_line first) ''tofu'' st) = (r, st1)"
  shows "ssh_history k True (Connects (sample_peer (app_line first)) io now (sample_login ''app'') ''PRIVATE k'' # evs) st =
     (if r = Ok () then [(''app:22'', Some (app_line first))] else []) @ ssh_history k True evs st1"
  using assms
  by (cases r) (simp_all add: ssh_connect_def sample_login_operation sample_peer_def ssh_dial_def check_server_key_def
      app_line_key presented_def pin_insert_def pin_check_def pin_get_def)

section \<open>Theorems\<close>

text \<open>
  (C27) Use of a private key: an SSH connection authenticates with a private key exactly when the
  operation names a host and a user, the secret is a private key, the server of that host presents
  a key that the policy accepts - any key, the pinned key of the host, or under trust on first use
  a key of a host that has no pin and whose pin could be stored - and the exchange completes.
\<close>

theorem ssh_authenticates_iff:
  "Authenticated host port user key \<in> set (snd (fst (ssh_connect sp k io now policy uri operation secret st))) \<longleftrightarrow>
     (\<exists>so. ssh_operation_of operation = Ok so \<and> host = so_host so \<and> port = so_port so \<and> user = so_user so) \<and>
     sp_private sp secret = Ok key \<and>
     (\<exists>l. presented sp host port = Some l \<and>
        key_acceptable policy (pin_get st (host_port host port)) l
          (fst (pin_persist k io (pin_commit now (host_port host port) l ''tofu'' st)) = Ok ())) \<and>
     (\<exists>h. sp_session sp host port = Ok h)"
  by (auto simp: ssh_connect_authenticated ssh_dial_Ok check_server_key_yes presented_def split: sum.splits)

text \<open>
  (C28) One key per host: over any history of connections and restarts in which every new pin reaches the
  file, and over any history without a restart whatever the file system does, all servers at which a
  private key is used under the same host and port presented the same key.
\<close>

theorem one_key_per_host:
  assumes "pin_codec_ok k" and "pins_ok st" and "list_all persists evs \<and> file_ok k st \<or> Restarts \<notin> set evs"
  shows "(hp, l1) \<in> set (ssh_history k tofu evs st) \<and> (hp, l2) \<in> set (ssh_history k tofu evs st) \<longrightarrow> l1 = l2"
  using ssh_history_consistent [OF assms, of tofu] unfolding consistent_def by blast

theorem one_key_per_host_witness:
  "pin_codec_ok sample_pin_codec \<and> pins_ok no_pins \<and> list_all persists (sample_logins Persisted) \<and> file_ok sample_pin_codec no_pins \<and>
   (''app:22'', Some (app_line True)) \<in> set (ssh_history sample_pin_codec True (sample_logins Persisted) no_pins) \<and>
   (''app:22'', Some (app_line False)) \<notin> set (ssh_history sample_pin_codec True (sample_logins Persisted) no_pins)"
proof -
  let ?h = "ssh_history sample_pin_codec True (sample_logins Persisted) no_pins"
  obtain st1 where "pin_persist sample_pin_codec Persisted (pin_commit ''t1'' ''app:22'' (app_line True) ''tofu'' no_pins) = (Ok (), st1)"
    using persisted_file_ok [OF sample_pin_codec_ok pin_commit_ok [OF no_pins_ok(1)]] by blast
  then have first: "(''app:22'', Some (app_line True)) \<in> set ?h"
    unfolding sample_logins_def
    by (subst sample_login_unpinned [OF no_pins_get]) (assumption, simp del: ssh_history.simps(2))
  have all: "list_all persists (sample_logins Persisted)" by (simp add: sample_logins_def)
  have "app_line True \<noteq> app_line False" by (simp add: app_line_def)
  then have "(''app:22'', Some (app_line False)) \<notin> set ?h"
    using first one_key_per_host [OF sample_pin_codec_ok no_pins_ok(1) disjI1 [OF conjI [OF all no_pins_ok(2)]]] by blast
  with first all show ?thesis using sample_pin_codec_ok no_pins_ok by blast
qed

text \<open>
  A pin that did not reach the file is trusted: the connection on which storing the pin fails is
  refused, the next one with the same key is not, and after a restart another key takes its place. The
  private key is used at two servers with different keys under one name.
\<close>

theorem unstored_pin_is_trusted:
  "ssh_history k True (sample_logins (DirFails e)) no_pins = [(''app:22'', Some (app_line True)), (''app:22'', Some (app_line False))]"
proof -
  let ?st = "\<lambda>now line. pin_commit now ''app:22'' line ''tofu'' no_pins"
  have fails: "pin_persist k (DirFails e) st = (Err (PinIo e), st)" for st
    by (simp add: pin_persist_def)
  have get: "pin_get (?st now line) ''app:22'' = Some \<lparr>pin_hostport = ''app:22'', pin_openssh_key = line, pin_first_seen = now, pin_source = ''tofu''\<rparr>" for now line
    by (simp add: pin_get_def pin_commit_def no_pins_def)
  have again: "pin_load k (file_read_of (?st now line)) = Ok []" "(?st now line)\<lparr>ps_pins := []\<rparr> = no_pins" for now line
    by (simp_all add: pin_load_def file_read_of_def pin_commit_def no_pins_def)
  show ?thesis
    by (simp add: sample_logins_def sample_login_unpinned [OF no_pins_get fails] sample_login_pinned [OF get] again
        del: ssh_history.simps(2))
qed

text \<open>
  (C33) Reading a channel: reads of an open channel end with a closed batch after at most as many batches as
  there are arrivals and one more, every batch holds at most 64 chunks, and together the batches hold
  exactly the output that the peer sent before it ended the stream, in order and without loss,
  however the arrivals are spread over the waits.
\<close>

theorem ssh_reads_relay_output:
  assumes "sc_channel ch = Some c" and "length as < n"
  shows "concat (map ob_chunks (ssh_reads n ch as)) = sent_output as \<and>
     ssh_reads n ch as \<noteq> [] \<and> ob_closed (last (ssh_reads n ch as)) \<and>
     list_all (\<lambda>b. length (ob_chunks b) \<le> 64) (ssh_reads n ch as)"
  using ssh_reads_output [OF assms] ssh_reads_bound by simp

theorem ssh_reads_relay_output_witness:
  "length sample_arrivals < 7 \<and>
   concat (map ob_chunks (ssh_reads 7 \<lparr>sc_channel = Some 1, sc_closed = False\<rparr> sample_arrivals)) =
     [\<lparr>oc_stream = ''stdout'', oc_data = ''x''\<rparr>, \<lparr>oc_stream = ''stderr'', oc_data = ''e''\<rparr>]"
proof -
  have len: "length sample_arrivals < 7" by (simp add: sample_arrivals_def)
  have "sent_output sample_arrivals =
      [\<lparr>oc_stream = ''stdout'', oc_data = ''x''\<rparr>, \<lparr>oc_stream = ''stderr'', oc_data = ''e''\<rparr>]"
    by (simp add: sample_arrivals_def sent_output_def ends_batch_def)
  then show ?thesis
    using len ssh_reads_relay_output [of "\<lparr>sc_channel = Some 1, sc_closed = False\<rparr>" 1 sample_arrivals 7] by simp
qed

text \<open>
  An exit status that follows the end of the output is not reported: the reader closes the batch on
  the end-of-file message, which a server may send before the status.
\<close>

theorem exit_status_after_eof_is_lost:
  "list_all (\<lambda>b. ob_exit_code b = None)
     (ssh_reads n ch (map (\<lambda>d. Timely (Data d)) ds @ Timely Eof # Timely (ExitStatus code) # as))"
  by (rule ssh_reads_data_eof)

text \<open>
  An imported entry for a bare host is not consulted: entries are kept under the pattern of the
  file, and connections look for the host with its port. With such entries only, the store treats every
  server as one without a pin, so under trust on first use any key is accepted.
\<close>

theorem bare_import_is_not_consulted:
  assumes "list_all (\<lambda>p. CHR '':'' \<notin> set (pin_hostport p)) (fst (parse_openssh_known_hosts now content))"
    and "ps_pins st = map (\<lambda>p. (pin_hostport p, p)) (fst (parse_openssh_known_hosts now content))"
    and "key_line key = Ok l"
    and "fst (pin_persist k io (pin_commit now (host_port host port) l ''tofu'' st)) = Ok ()"
  shows "fst (check_server_key k io now (PinStorePolicy True) (host_port host port) key st) = Ok True"
proof -
  have "pin_get st (host_port host port) = None"
    using assms(1,2) host_port_colon [of host port]
    by (auto simp: pin_get_def map_of_eq_None_iff list_all_iff image_image)
  then show ?thesis using assms(3,4) by (simp add: check_server_key_yes)
qed

theorem bare_import_is_not_consulted_witness:
  "map pin_openssh_key sample_import = [app_line True] \<and>
   fst (check_server_key sample_pin_codec Persisted ''t'' (PinStorePolicy True) (host_port ''app'' 22) (Ok (app_line False))
     \<lparr>ps_pins = map (\<lambda>p. (pin_hostport p, p)) sample_import, ps_file = None\<rparr>) = Ok True"
proof
  define st where "st = \<lparr>ps_pins = map (\<lambda>p. (pin_hostport p, p)) sample_import, ps_file = None\<rparr>"
  have bare: "list_all (\<lambda>p. CHR '':'' \<notin> set (pin_hostport p)) sample_import" by (simp add: sample_import_eq)
  have pins: "ps_pins st = map (\<lambda>p. (pin_hostport p, p)) sample_import" by (simp add: st_def)
  have ok: "pins_ok st" by (simp add: pins_ok_def entries_ok_def sample_import_eq st_def)
  obtain st1 where "pin_persist sample_pin_codec Persisted (pin_commit ''t'' (host_port ''app'' 22) (app_line False) ''tofu'' st) = (Ok (), st1)"
    using persisted_file_ok [OF sample_pin_codec_ok pin_commit_ok [OF ok]] by blast
  then have "fst (check_server_key sample_pin_codec Persisted ''t'' (PinStorePolicy True) (host_port ''app'' 22) (Ok (app_line False)) st) = Ok True"
    using bare pins unfolding sample_import_def
    by (intro bare_import_is_not_consulted [OF _ _ app_line_key]) simp_all
  then show "fst (check_server_key sample_pin_codec Persisted ''t'' (PinStorePolicy True) (host_port ''app'' 22) (Ok (app_line False))
     \<lparr>ps_pins = map (\<lambda>p. (pin_hostport p, p)) sample_import, ps_file = None\<rparr>) = Ok True"
    by (simp only: st_def)
  show "map pin_openssh_key sample_import = [app_line True]" by (simp add: sample_import_eq app_line_def)
qed

end
