(* ===== verification/Ssh_Sessions.thy ===== *)
theory Ssh_Sessions
  imports Gateway_Edges Host_Keys
begin

text \<open>
  The gateway with the \<^verbatim>\<open>ssh\<close> backend: which host a session intent reaches, and what becomes of the
  certificates that the authority mints for \<^verbatim>\<open>ca://\<close> references. The backend that the gateway
  registers under \<^verbatim>\<open>ssh\<close> is \<^const>\<open>ssh_connect\<close>.
\<close>

record ssh_backend =
  sb_peer :: ssh_peer
  sb_codec :: pin_codec
  sb_io :: persist_io
  sb_now :: string
  sb_policy :: host_key_policy
  sb_store :: pin_store

definition backend_connect :: "ssh_backend \<Rightarrow> string \<Rightarrow> json \<Rightarrow> string \<Rightarrow> ((string, nat) result \<times> ssh_effect list) \<times> pin_store" where
  "backend_connect b uri operation secret =
     ssh_connect (sb_peer b) (sb_codec b) (sb_io b) (sb_now b) (sb_policy b) uri operation secret (sb_store b)"

text \<open>The environment of a gateway whose \<^verbatim>\<open>ssh\<close> connections go through the backend.\<close>

definition with_ssh :: "ssh_backend \<Rightarrow> gateway_env \<Rightarrow> gateway_env" where
  "with_ssh b env = env\<lparr>ge_connect := (\<lambda>mechanism uri operation secret.
     if mechanism = ''ssh'' then Some (fst (fst (backend_connect b uri operation secret)))
     else ge_connect env mechanism uri operation secret)\<rparr>"

lemma with_ssh_connect [simp]:
  "ge_connect (with_ssh b env) ''ssh'' uri operation secret = Some (fst (fst (backend_connect b uri operation secret)))"
  by (simp add: with_ssh_def)

text \<open>A backend that trusts every host; certificates do not read as private keys.\<close>

definition sample_backend :: "(string \<Rightarrow> (string, bytes) result) \<Rightarrow> ssh_backend" where
  "sample_backend reads_key = \<lparr>sb_peer = (sample_peer (app_line True))\<lparr>sp_private := reads_key\<rparr>, sb_codec = sample_pin_codec,
     sb_io = Persisted, sb_now = ''t'', sb_policy = TrustOnFirstUseAll, sb_store = no_pins\<rparr>"

definition sample_signer :: gateway_env where
  "sample_signer = sample_genv\<lparr>ge_ssh := sample_ssh\<lparr>sk_sign := (\<lambda>f key. Some (''ssh-ed25519-cert-v01@openssh.com '' @ cf_key_id f))\<rparr>\<rparr>"

section \<open>The host that is reached\<close>

lemma ssh_connect_dials:
  assumes "ssh_operation_of operation = Ok so" "sp_private sp secret = Ok key"
  shows "\<exists>effs. snd (fst (ssh_connect sp k io now policy uri operation secret st)) = Dialled (so_host so) (so_port so) # effs"
  using assms by (simp add: ssh_connect_def split: prod.split sum.split)

lemma refuse_effects:
  "\<exists>xs. gw_effects (snd (refuse env message e d out code reason g)) = gw_effects g @ xs"
  using audit_decision_evolves [of env g e d out] by (auto simp: refuse_def evolves_def)

lemma session_opened_effects:
  "\<exists>xs. gw_effects (snd (session_opened env message agent e d channel g)) = gw_effects g @ xs"
  using session_opened_settles [of env message e d g agent channel]
  by (auto simp: settles_def evolves_def split: option.splits)

lemma open_session_connects:
  assumes "e_mechanism e = ''ssh''" "''ssh'' \<in> set (gw_backends g)" "\<not> starts_with (e_cred_ref e) ''ca://''"
    "router_resolve (gw_router g) (e_cred_ref e) = Ok s"
  shows "\<exists>xs. gw_effects (snd (open_session env message agent e d g)) =
     gw_effects g @ EffResolve (e_cred_ref e) # EffConnect ''ssh'' (t_uri (e_target e)) (e_operation e) s # xs"
proof -
  let ?g = "emit (EffConnect ''ssh'' (t_uri (e_target e)) (e_operation e) s) (emit (EffResolve (e_cred_ref e)) g)"
  have "gw_effects ?g = gw_effects g @ [EffResolve (e_cred_ref e), EffConnect ''ssh'' (t_uri (e_target e)) (e_operation e) s]"
    by (simp add: emit_def)
  then show ?thesis
    using assms refuse_effects [of env message e d _ _ _ ?g] session_opened_effects [of env message agent e d _ ?g]
    by (auto simp: open_session_def session_secret_def Let_def split: option.split sum.split)
qed

text \<open>
  (C38) The host of an SSH session is not the one that is authorized: the policy decides on the target URI
  of the intent, and the backend dials the host that the operation names. An intent that the policy
  allows can carry any operation; the decision stays the same, and the vault's private key is taken to
  the host in the operation.
\<close>

theorem ssh_host_escapes_policy:
  assumes "e_mechanism e = ''ssh''" and "''ssh'' \<in> set (gw_backends g)" and "\<not> starts_with (e_cred_ref e) ''ca://''"
    and "router_resolve (gw_router g) (e_cred_ref e) = Ok s" and "sp_private (sb_peer b) s = Ok key"
    and "d_effect (evaluate (gw_policy g) (policy_request agent e)) = Allow"
    and "ssh_operation_of operation = Ok so"
  shows "\<exists>xs effs.
     gw_effects (snd (decide_intent (with_ssh b env) message agent (e\<lparr>e_operation := operation\<rparr>) g)) =
       gw_effects g @ EffResolve (e_cred_ref e) # EffConnect ''ssh'' (t_uri (e_target e)) operation s # xs \<and>
     snd (fst (backend_connect b (t_uri (e_target e)) operation s)) = Dialled (so_host so) (so_port so) # effs"
proof -
  let ?e = "e\<lparr>e_operation := operation\<rparr>"
  let ?d = "evaluate (gw_policy g) (policy_request agent e)"
  have "policy_request agent ?e = policy_request agent e" by (simp add: policy_request_def)
  then have "decide_intent (with_ssh b env) message agent ?e g = open_session (with_ssh b env) message agent ?e ?d g"
    using assms(1,2,6) by (simp add: decide_intent_def Let_def one_shot_def route_session_def session_gate_def)
  then show ?thesis
    using open_session_connects [of ?e g s "with_ssh b env" message agent ?d] assms
      ssh_connect_dials [OF assms(7,5)] by (auto simp: backend_connect_def)
qed

theorem ssh_host_escapes_policy_witness:
  "\<exists>xs effs.
     gw_effects (snd (decide_intent (with_ssh (sample_backend Ok) sample_genv) JNull ''a''
       ((sample_envelope ''ssh'' (JObj []) None [])\<lparr>e_operation := sample_login ''app''\<rparr>) (sample_gateway Allow))) =
       EffResolve ''local://k'' # EffConnect ''ssh'' ''https://x'' (sample_login ''app'') ''s3cr3t'' # xs \<and>
     snd (fst (backend_connect (sample_backend Ok) ''https://x'' (sample_login ''app'') ''s3cr3t'')) = Dialled ''app'' 22 # effs"
proof -
  let ?e = "sample_envelope ''ssh'' (JObj []) None []" and ?g = "sample_gateway Allow"
  have "router_resolve (gw_router ?g) (e_cred_ref ?e) = Ok ''s3cr3t''" "''ssh'' \<in> set (gw_backends ?g)" "gw_effects ?g = []"
    by (simp_all add: sample_gateway_def sample_envelope_simps router_resolve_def router_dispatch_def split_once_def)
  moreover have "sp_private (sb_peer (sample_backend Ok)) ''s3cr3t'' = Ok ''s3cr3t''" by (simp add: sample_backend_def)
  moreover have "\<not> starts_with (e_cred_ref ?e) ''ca://''" by (simp add: sample_envelope_simps)
  moreover have "d_effect (evaluate (gw_policy ?g) (policy_request ''a'' ?e)) = Allow" by (simp add: sample_evaluates)
  ultimately show ?thesis
    using ssh_host_escapes_policy [of ?e ?g "''s3cr3t''" "sample_backend Ok" "''s3cr3t''" "''a''" _ _ sample_genv JNull,
        OF _ _ _ _ _ _ sample_login_operation(1)]
    by (simp add: sample_envelope_simps)
qed

section \<open>Minted certificates\<close>

lemma minted_is_signed:
  "mint_for e nonce now ctx cred_ref identity intent = Ok cert \<Longrightarrow> \<exists>f key. sk_sign e f key = Some (mc_cert_openssh cert)"
proof -
  assume "mint_for e nonce now ctx cred_ref identity intent = Ok cert"
  then obtain ca_key agent_key req where "sign_crt e nonce now ca_key agent_key req = Ok cert"
    by (auto simp: mint_for_def Let_def split: option.splits if_splits sum.splits)
  then show ?thesis by (elim sign_crt_Ok) blast
qed

lemma refuse_sessions: "gw_sessions (snd (refuse env message e d out code reason g)) = gw_sessions g"
  by (simp add: refuse_def audit_decision_sessions)

lemma mint_session_signed:
  "mint_session_secret env e d ca g = Ok cert \<Longrightarrow> \<exists>f key. sk_sign (ge_ssh env) f key = Some cert"
proof -
  assume "mint_session_secret env e d ca g = Ok cert"
  then obtain nonce now ref identity intent c where
    "mint_for (ge_ssh env) nonce now ca ref identity intent = Ok c" "cert = mc_cert_openssh c"
    by (auto simp: mint_session_secret_def map_sum_def split: sum.splits option.splits)
  then show ?thesis using minted_is_signed by metis
qed

text \<open>
  (C39) A minted certificate opens no session: the certificate is handed to the backend as the secret, and
  the backend reads its secret as a private key. Where the key library does not take a certificate for a
  private key, no intent for \<^verbatim>\<open>ssh\<close> with a \<^verbatim>\<open>ca://\<close> reference adds a session, whatever the policy and
  the human say.
\<close>

theorem minted_certificate_opens_nothing:
  assumes "\<And>f key t. sk_sign (ge_ssh env) f key = Some t \<Longrightarrow> isl (sp_private (sb_peer b) t)"
    and "e_mechanism e = ''ssh''" and "starts_with (e_cred_ref e) ''ca://''"
  shows "gw_sessions (snd (decide_intent (with_ssh b env) message agent e g)) = gw_sessions g"
proof -
  have ssh: "ge_ssh (with_ssh b env) = ge_ssh env" by (simp add: with_ssh_def)
  have fails: "isl (fst (fst (backend_connect b uri operation cert)))" if "isl (sp_private (sb_peer b) cert)" for uri operation cert
    using that by (auto simp: backend_connect_def ssh_connect_def isl_def split: sum.split)
  have "gw_sessions (snd (open_session (with_ssh b env) message agent e d g1)) = gw_sessions g1" for d g1
  proof (cases "session_secret (with_ssh b env) e d g1")
    case (Pair r g2)
    have keep: "gw_sessions g2 = gw_sessions g1"
      using Pair assms(3) by (auto simp: session_secret_def emit_def split: option.splits sum.splits)
    have "isl (fst (fst (backend_connect b uri operation cert)))" if cert: "r = Ok cert" for uri operation cert
    proof -
      obtain ca where "mint_session_secret (with_ssh b env) e d ca g1 = Ok cert"
        using Pair cert assms(3) by (auto simp: session_secret_def split: option.splits sum.splits)
      then show ?thesis using mint_session_signed ssh assms(1) fails by metis
    qed
    then show ?thesis
      using Pair assms(2) keep
      by (auto simp: open_session_def Let_def refuse_sessions emit_def isl_def split: sum.split option.split)
        (metis Inl_Inr_False sum.disc(2))+
  qed
  then show ?thesis
    using assms(2)
    by (simp add: decide_intent_def Let_def one_shot_def route_session_def session_gate_def refuse_sessions
        ask_human_cases emit_def)
qed

theorem minted_certificate_opens_nothing_witness:
  "\<forall>ca. gw_sessions (snd (decide_intent (with_ssh (sample_backend (sp_private (sample_peer []))) sample_signer) JNull ''a''
     ((sample_envelope ''ssh'' (sample_login ''app'') None [])\<lparr>e_cred_ref := ''ca://app''\<rparr>)
     ((sample_gateway Allow)\<lparr>gw_ssh_ca := Some ca\<rparr>))) = []"
proof
  fix ca
  let ?b = "sample_backend (sp_private (sample_peer []))"
  have "isl (sp_private (sb_peer ?b) t)" if "sk_sign (ge_ssh sample_signer) f key = Some t" for f key t
    using that by (auto simp: sample_signer_def sample_backend_def sample_peer_def)
  from minted_certificate_opens_nothing [OF this, where message = JNull and agent = "''a''"
      and e = "(sample_envelope ''ssh'' (sample_login ''app'') None [])\<lparr>e_cred_ref := ''ca://app''\<rparr>"
      and g = "(sample_gateway Allow)\<lparr>gw_ssh_ca := Some ca\<rparr>"]
  show "gw_sessions (snd (decide_intent (with_ssh ?b sample_signer) JNull ''a''
     ((sample_envelope ''ssh'' (sample_login ''app'') None [])\<lparr>e_cred_ref := ''ca://app''\<rparr>)
     ((sample_gateway Allow)\<lparr>gw_ssh_ca := Some ca\<rparr>))) = []"
    by (simp add: sample_envelope_simps) (simp add: sample_gateway_def session_table_new_def)
qed

end
