(* ===== verification/Operator_Channels.thy ===== *)
theory Operator_Channels
  imports Gateway_Edges "HOL-Library.Sublist"
begin

text \<open>
  The channels between the gateway and its operator: the endpoints
  (\<^verbatim>\<open>crates/transport/src/operator_pipe.rs\<close>), the event feed (\<^verbatim>\<open>crates/gateway-core/src/events.rs\<close>) and the
  console on which confirmations are answered (\<^verbatim>\<open>console.rs\<close>). What the operating system does - bytes
  that arrive, writes that fail, threads that start - is given as input.
\<close>

section \<open>Endpoints\<close>

definition separator :: "char \<Rightarrow> bool" where
  "separator c \<longleftrightarrow> c = CHR 0x5C \<or> c = CHR ''/''"

definition pipe_prefix :: string where
  "pipe_prefix = [CHR 0x5C, CHR 0x5C, CHR ''.'', CHR 0x5C] @ ''pipe'' @ [CHR 0x5C]"

text \<open>One character of output for every character of input; the continuation bytes of UTF-8 go.\<close>

definition pipe_char :: "char \<Rightarrow> string" where
  "pipe_char c = (let n = of_char c :: nat in
     if 0x80 \<le> n \<and> n < 0xC0 then []
     else if (48 \<le> n \<and> n \<le> 57) \<or> (65 \<le> n \<and> n \<le> 90) \<or> (97 \<le> n \<and> n \<le> 122) \<or> c \<in> {CHR ''-'', CHR ''_'', CHR ''.''}
     then [c] else ''_'')"

definition pipe_stem :: "string \<Rightarrow> string" where
  "pipe_stem printname =
     (let base = rev (takeWhile (\<lambda>c. \<not> separator c) (rev printname)) in if base = [] then printname else base)"

definition windows_pipe_name :: "crypto \<Rightarrow> string \<Rightarrow> string" where
  "windows_pipe_name cr printname =
     (case strip_prefix printname pipe_prefix of
        Some rest \<Rightarrow>
          if rest \<noteq> [] \<and> \<not> list_ex separator rest then rest
          else take 40 (concat (map pipe_char (pipe_stem printname))) @ ''-'' @ take 16 (hex_encode (sha256 cr printname))
      | None \<Rightarrow>
          if \<not> list_ex separator printname then printname
          else take 40 (concat (map pipe_char (pipe_stem printname))) @ ''-'' @ take 16 (hex_encode (sha256 cr printname)))"

datatype io_kind = WouldBlock | UnexpectedEof | IoTimedOut | OtherKind string

record io_error =
  ie_kind :: io_kind
  ie_raw :: "nat option"

text \<open>\<open>windows\<close> selects the variant that is compiled for Windows.\<close>

definition no_data_yet :: "bool \<Rightarrow> io_error \<Rightarrow> bool" where
  "no_data_yet windows e \<longleftrightarrow> windows \<and> ie_raw e = Some 232 \<or> ie_kind e = WouldBlock"

definition zero_read_is_eof :: "bool \<Rightarrow> bool" where
  "zero_read_is_eof windows \<longleftrightarrow> \<not> windows"

definition of_kind :: "io_kind \<Rightarrow> io_error" where
  "of_kind k = \<lparr>ie_kind = k, ie_raw = None\<rparr>"

text \<open>
  Binding: the name, a probe for a live owner, the listener over a stale endpoint, and on Unix the
  mode of the socket file.
\<close>

definition operator_bind ::
    "bool \<Rightarrow> (string \<Rightarrow> (io_error, string) result) \<Rightarrow> (string \<Rightarrow> bool) \<Rightarrow> (string \<Rightarrow> (io_error, nat) result) \<Rightarrow>
     (string \<Rightarrow> (io_error, unit) result) \<Rightarrow> (string \<Rightarrow> string) \<Rightarrow> string \<Rightarrow> (io_error, nat) result" where
  "operator_bind windows endpoint_name alive create owner_only busy_msg printname =
     bind_res (endpoint_name printname) (\<lambda>name.
     if alive name then Err (of_kind (OtherKind (busy_msg printname)))
     else bind_res (create name) (\<lambda>listener.
       if windows then Ok listener
       else bind_res (owner_only printname) (\<lambda>_. Ok listener)))"

text \<open>Connecting: on Windows a busy pipe is tried again, fifty times in all; \<open>dial n\<close> is the n-th attempt.\<close>

definition max_attempts :: nat where
  "max_attempts = 50"

function connect_name :: "(nat \<Rightarrow> (io_error, nat) result) \<Rightarrow> nat \<Rightarrow> (io_error, nat) result \<times> nat" where
  "connect_name dial attempts =
     (case dial attempts of
        Inr c \<Rightarrow> (Ok c, Suc attempts)
      | Inl e \<Rightarrow>
          if ie_raw e = Some 231 \<and> Suc attempts < max_attempts then connect_name dial (Suc attempts)
          else (Err e, Suc attempts))"
  by pat_completeness auto
termination
  by (relation "measure (\<lambda>(dial, attempts). max_attempts - attempts)") auto

declare connect_name.simps [simp del]

definition operator_connect :: "bool \<Rightarrow> (nat \<Rightarrow> (io_error, nat) result) \<Rightarrow> (io_error, nat) result \<times> nat" where
  "operator_connect windows dial = (if windows then connect_name dial 0 else (dial 0, 1))"

text \<open>What one read of a stream finds.\<close>

datatype read_outcome = ZeroRead | ByteRead char | ReadFails io_error

text \<open>
  Waiting for a byte: \<open>rd now\<close> is what a read at that moment finds, in milliseconds; the reader sleeps
  five of them between reads. The result comes with the moment at which it is known.
\<close>

function poll_byte :: "bool \<Rightarrow> (nat \<Rightarrow> read_outcome) \<Rightarrow> nat \<Rightarrow> nat \<Rightarrow> (io_error, char) result \<times> nat" where
  "poll_byte windows rd now deadline =
     (case rd now of
        ByteRead b \<Rightarrow> (Ok b, now)
      | ZeroRead \<Rightarrow>
          if zero_read_is_eof windows then (Err (of_kind UnexpectedEof), now)
          else if deadline \<le> now then (Err (of_kind IoTimedOut), now)
          else poll_byte windows rd (now + 5) deadline
      | ReadFails e \<Rightarrow>
          if no_data_yet windows e then
            (if deadline \<le> now then (Err (of_kind IoTimedOut), now) else poll_byte windows rd (now + 5) deadline)
          else (Err e, now))"
  by pat_completeness auto
termination
  by (relation "measure (\<lambda>(windows, rd, now, deadline). deadline - now)") auto

declare poll_byte.simps [simp del]

definition read_byte_timeout ::
    "bool \<Rightarrow> (io_error, unit) result \<Rightarrow> (nat \<Rightarrow> read_outcome) \<Rightarrow> nat \<Rightarrow> nat \<Rightarrow> (io_error, char) result \<times> nat" where
  "read_byte_timeout windows nonblocking rd now timeout =
     (case nonblocking of
        Inl e \<Rightarrow> (Err e, now)
      | Inr _ \<Rightarrow> poll_byte windows rd now (now + timeout))"

section \<open>The event feed\<close>

definition sub_queue_len :: nat where
  "sub_queue_len = 256"

text \<open>
  A subscriber with its delivery thread: the lines that wait in the queue, the one that is being written
  and those that were written. \<open>sub_listed\<close> says that the registry holds the sending half.
\<close>

record subscriber =
  sub_queue :: "string list"
  sub_hand :: "string option"
  sub_written :: "string list"
  sub_thread :: bool
  sub_listed :: bool

text \<open>\<open>hub_uncounted\<close>: the acceptor has put a subscriber into the registry and not yet counted it.\<close>

record event_hub =
  hub_subs :: "subscriber list"
  hub_count :: u64
  hub_uncounted :: bool

definition hub_new :: event_hub where
  "hub_new = \<lparr>hub_subs = [], hub_count = 0, hub_uncounted = False\<rparr>"

definition new_subscriber :: subscriber where
  "new_subscriber = \<lparr>sub_queue = [], sub_hand = None, sub_written = [], sub_thread = True, sub_listed = True\<rparr>"

definition add_subscriber :: "bool \<Rightarrow> event_hub \<Rightarrow> event_hub" where
  "add_subscriber spawned h =
     (if spawned then h\<lparr>hub_subs := hub_subs h @ [new_subscriber], hub_uncounted := True\<rparr> else h)"

definition count_subscriber :: "event_hub \<Rightarrow> event_hub" where
  "count_subscriber h = h\<lparr>hub_count := hub_count h + 1, hub_uncounted := False\<rparr>"

definition accepts_line :: "subscriber \<Rightarrow> bool" where
  "accepts_line s \<longleftrightarrow> sub_thread s \<and> length (sub_queue s) < sub_queue_len"

definition send_line :: "string \<Rightarrow> subscriber \<Rightarrow> subscriber" where
  "send_line wire s =
     (if \<not> sub_listed s then s
      else if accepts_line s then s\<lparr>sub_queue := sub_queue s @ [wire]\<rparr>
      else s\<lparr>sub_listed := False\<rparr>)"

definition hub_broadcast :: "string \<Rightarrow> event_hub \<Rightarrow> event_hub" where
  "hub_broadcast line h =
     (let wire = line @ [newline] in
      h\<lparr>hub_subs := map (send_line wire) (hub_subs h),
        hub_count := hub_count h - of_nat (length (filter (\<lambda>s. sub_listed s \<and> \<not> accepts_line s) (hub_subs h)))\<rparr>)"

definition subscriber_count :: "event_hub \<Rightarrow> u64" where
  "subscriber_count h = hub_count h"

text \<open>The delivery thread takes a line, then writes it; a failed write ends the thread and its queue.\<close>

definition take_line :: "subscriber \<Rightarrow> subscriber" where
  "take_line s =
     (case (sub_thread s, sub_hand s, sub_queue s) of
        (True, None, l # ls) \<Rightarrow> s\<lparr>sub_hand := Some l, sub_queue := ls\<rparr>
      | _ \<Rightarrow> s)"

definition put_line :: "bool \<Rightarrow> subscriber \<Rightarrow> subscriber" where
  "put_line ok s =
     (case (sub_thread s, sub_hand s) of
        (True, Some l) \<Rightarrow>
          if ok then s\<lparr>sub_hand := None, sub_written := sub_written s @ [l]\<rparr>
          else s\<lparr>sub_hand := None, sub_queue := [], sub_thread := False\<rparr>
      | _ \<Rightarrow> s)"

section \<open>The console\<close>

text \<open>What the operator's side of the console does; a list that ends leaves the reader waiting.\<close>

datatype console_input = Typed char | HangUp | Broken string

text \<open>The replacement character for bytes that are not UTF-8, one for every longest valid beginning.\<close>

definition replacement :: string where
  "replacement = [CHR 0xEF, CHR 0xBF, CHR 0xBD]"

definition second_in :: "char \<Rightarrow> char \<Rightarrow> bool" where
  "second_in a b \<longleftrightarrow> (let n = of_char a :: nat in
     in_range (if n = 0xE0 then 160 else if n = 0xF0 then 144 else 128)
              (if n = 0xED then 159 else if n = 0xF4 then 143 else 191) b)"

fun from_utf8_lossy :: "bytes \<Rightarrow> string" where
  "from_utf8_lossy [] = []"
| "from_utf8_lossy (a # s) =
     (if in_range 0 127 a then a # from_utf8_lossy s
      else if in_range 194 223 a then
        (case s of b # s2 \<Rightarrow> if in_range 128 191 b then a # b # from_utf8_lossy s2 else replacement @ from_utf8_lossy s
         | [] \<Rightarrow> replacement)
      else if in_range 224 239 a then
        (case s of b # s2 \<Rightarrow>
           if second_in a b then
             (case s2 of c # s3 \<Rightarrow>
                if in_range 128 191 c then a # b # c # from_utf8_lossy s3 else replacement @ from_utf8_lossy s2
              | [] \<Rightarrow> replacement)
           else replacement @ from_utf8_lossy s
         | [] \<Rightarrow> replacement)
      else if in_range 240 244 a then
        (case s of b # s2 \<Rightarrow>
           if second_in a b then
             (case s2 of c # s3 \<Rightarrow>
                if in_range 128 191 c then
                  (case s3 of d # s4 \<Rightarrow>
                     if in_range 128 191 d then a # b # c # d # from_utf8_lossy s4 else replacement @ from_utf8_lossy s3
                   | [] \<Rightarrow> replacement)
                else replacement @ from_utf8_lossy s2
              | [] \<Rightarrow> replacement)
           else replacement @ from_utf8_lossy s
         | [] \<Rightarrow> replacement)
      else replacement @ from_utf8_lossy s)"

text \<open>
  One answer from an attached console. \<open>None\<close>: the reader still waits. The stream that is left is
  \<open>None\<close> when the hub has dropped it.
\<close>

fun read_answer_from ::
    "string \<Rightarrow> console_input list \<Rightarrow> (string, string option) result option \<times> console_input list option" where
  "read_answer_from line [] = (None, Some [])"
| "read_answer_from line (HangUp # ins) = (Some (Ok None), None)"
| "read_answer_from line (Broken e # ins) = (Some (Err e), None)"
| "read_answer_from line (Typed b # ins) =
     (if b = newline then (Some (Ok (Some (from_utf8_lossy line))), Some ins)
      else (let line1 = (if b = carriage_return then line else line @ [b]) in
        if 64 < length line1 then (Some (Ok None), Some ins) else read_answer_from line1 ins))"

definition console_read ::
    "console_input list option \<Rightarrow> (string, string option) result option \<times> console_input list option" where
  "console_read current = (case current of None \<Rightarrow> (Some (Ok None), None) | Some ins \<Rightarrow> read_answer_from [] ins)"

definition console_write :: "bool \<Rightarrow> console_input list option \<Rightarrow> bool" where
  "console_write sent current \<longleftrightarrow> current \<noteq> None \<and> sent"

text \<open>
  The operator gate over the console. Prompts take their turn on the channel; one whose time is over
  before its answer arrives is answered all the same, and the answer is dropped.
\<close>

definition console_confirm ::
    "bool \<Rightarrow> bool \<Rightarrow> confirm_context \<Rightarrow> console_input list option \<Rightarrow> confirm_outcome \<times> console_input list option" where
  "console_confirm sent late ctx current =
     (if \<not> console_write sent current then (if late then TimedOut else Refused, current)
      else (case console_read current of
        (answer, current1) \<Rightarrow>
          (if late then TimedOut else operator_confirm (\<lambda>block. True) answer ctx, current1)))"

fun console_confirms ::
    "(bool \<times> confirm_context) list \<Rightarrow> console_input list option \<Rightarrow> confirm_outcome list \<times> console_input list option" where
  "console_confirms [] current = ([], current)"
| "console_confirms ((late, ctx) # ps) current =
     (case console_confirm True late ctx current of
        (out, current1) \<Rightarrow>
          (case console_confirms ps current1 of (outs, current2) \<Rightarrow> (out # outs, current2)))"

section \<open>Histories of the feed\<close>

datatype hub_event = Accepts bool | Counts | Broadcasts string | Takes nat | Writes nat bool

text \<open>The acceptor is one thread: it counts a subscriber before it accepts the next.\<close>

fun hub_step :: "hub_event \<Rightarrow> event_hub \<Rightarrow> event_hub" where
  "hub_step (Accepts spawned) h = (if hub_uncounted h then h else add_subscriber spawned h)"
| "hub_step Counts h = (if hub_uncounted h then count_subscriber h else h)"
| "hub_step (Broadcasts line) h = hub_broadcast line h"
| "hub_step (Takes i) h = h\<lparr>hub_subs := (hub_subs h)[i := take_line (hub_subs h ! i)]\<rparr>"
| "hub_step (Writes i ok) h = h\<lparr>hub_subs := (hub_subs h)[i := put_line ok (hub_subs h ! i)]\<rparr>"

definition hub_run :: "hub_event list \<Rightarrow> event_hub \<Rightarrow> event_hub" where
  "hub_run evs h = fold hub_step evs h"

fun feed_line :: "hub_event \<Rightarrow> string list" where
  "feed_line (Broadcasts line) = [line @ [newline]]"
| "feed_line _ = []"

definition feed_lines :: "hub_event list \<Rightarrow> string list" where
  "feed_lines evs = concat (map feed_line evs)"

text \<open>Lines of a subscriber that are written or still under way.\<close>

definition sub_lines :: "subscriber \<Rightarrow> string list" where
  "sub_lines s = sub_written s @ (case sub_hand s of None \<Rightarrow> [] | Some l \<Rightarrow> [l]) @ sub_queue s"

text \<open>
  What holds of a subscriber when \<open>bs\<close> was broadcast since it came: its lines are the beginning of the
  feed, all of it while it is listed and its thread runs, and its queue is within bounds.
\<close>

definition feed_ok :: "string list \<Rightarrow> subscriber \<Rightarrow> bool" where
  "feed_ok bs s \<longleftrightarrow> prefix (sub_lines s) bs \<and> (sub_listed s \<and> sub_thread s \<longrightarrow> sub_lines s = bs) \<and>
     length (sub_queue s) \<le> sub_queue_len"

definition listed_count :: "event_hub \<Rightarrow> nat" where
  "listed_count h = length (filter sub_listed (hub_subs h))"

definition counted :: "event_hub \<Rightarrow> bool" where
  "counted h \<longleftrightarrow> hub_count h + (if hub_uncounted h then 1 else 0) = of_nat (listed_count h)"

lemma take_line_ok: "feed_ok bs s \<Longrightarrow> feed_ok bs (take_line s)"
  by (auto simp: feed_ok_def take_line_def sub_lines_def split: bool.splits option.splits list.splits)

lemma put_line_ok: "feed_ok bs s \<Longrightarrow> feed_ok bs (put_line ok s)"
  by (auto simp: feed_ok_def put_line_def sub_lines_def dest: append_prefixD split: bool.splits option.splits)

lemma send_line_ok: "feed_ok bs s \<Longrightarrow> feed_ok (bs @ [wire]) (send_line wire s)"
  by (auto simp: feed_ok_def send_line_def accepts_line_def sub_lines_def sub_queue_len_def)

lemma new_subscriber_ok: "feed_ok [] new_subscriber"
  by (simp add: feed_ok_def new_subscriber_def sub_lines_def)

lemma line_flags [simp]: "sub_listed (take_line s) = sub_listed s" "sub_listed (put_line ok s) = sub_listed s"
  by (simp_all add: take_line_def put_line_def split: bool.split option.split list.split)

lemma hub_step_length: "length (hub_subs h) \<le> length (hub_subs (hub_step ev h))"
  by (cases ev) (simp_all add: add_subscriber_def count_subscriber_def hub_broadcast_def Let_def)

lemma feed_ok_update:
  "i < length xs \<Longrightarrow> feed_ok bs (xs ! i) \<Longrightarrow> (feed_ok bs (xs ! i) \<Longrightarrow> feed_ok bs (f (xs ! i))) \<Longrightarrow>
     feed_ok bs (xs[j := f (xs ! j)] ! i)"
  by (cases "j = i") simp_all

lemma hub_step_ok:
  assumes "i < length (hub_subs h)" "feed_ok bs (hub_subs h ! i)"
  shows "feed_ok (bs @ feed_line ev) (hub_subs (hub_step ev h) ! i)"
  using assms
  by (cases ev) (auto simp: add_subscriber_def count_subscriber_def hub_broadcast_def Let_def nth_append send_line_ok
      intro!: feed_ok_update take_line_ok put_line_ok)

lemma hub_run_ok:
  assumes "i < length (hub_subs h)" "feed_ok bs (hub_subs h ! i)"
  shows "feed_ok (bs @ feed_lines evs) (hub_subs (hub_run evs h) ! i)"
  using assms
proof (induction evs arbitrary: h bs)
  case (Cons ev evs)
  have "i < length (hub_subs (hub_step ev h))" using Cons.prems(1) hub_step_length [of h ev] by simp
  from Cons.IH [OF this hub_step_ok [OF Cons.prems]] show ?case by (simp add: hub_run_def feed_lines_def)
qed (simp add: hub_run_def feed_lines_def)

lemma filter_list_update:
  "i < length xs \<Longrightarrow> P x = P (xs ! i) \<Longrightarrow> length (filter P (xs[i := x])) = length (filter P xs)"
  by (induction xs arbitrary: i) (auto split: nat.split)

lemma listed_update:
  "sub_listed s = sub_listed (hub_subs h ! i) \<Longrightarrow> listed_count (h\<lparr>hub_subs := (hub_subs h)[i := s]\<rparr>) = listed_count h"
  by (cases "i < length (hub_subs h)") (simp_all add: listed_count_def filter_list_update list_update_beyond)

lemma listed_append:
  "listed_count (h\<lparr>hub_subs := hub_subs h @ [s], hub_uncounted := b\<rparr>) = listed_count h + (if sub_listed s then 1 else 0)"
  "listed_count (h\<lparr>hub_count := n, hub_uncounted := b\<rparr>) = listed_count h"
  by (simp_all add: listed_count_def)

lemma listed_broadcast:
  "listed_count (hub_broadcast line h) + length (filter (\<lambda>s. sub_listed s \<and> \<not> accepts_line s) (hub_subs h)) = listed_count h"
proof -
  have "length (filter sub_listed (map (send_line w) ss)) + length (filter (\<lambda>s. sub_listed s \<and> \<not> accepts_line s) ss) =
      length (filter sub_listed ss)" for w ss
    by (induction ss) (auto simp: send_line_def)
  then show ?thesis by (simp add: listed_count_def hub_broadcast_def Let_def)
qed

lemma hub_step_counted: "counted h \<Longrightarrow> counted (hub_step ev h)"
proof (cases ev)
  case (Broadcasts line)
  assume "counted h"
  then show ?thesis
    using Broadcasts arg_cong [OF listed_broadcast [of line h], of "of_nat :: nat \<Rightarrow> u64"]
    by (simp add: counted_def hub_broadcast_def Let_def algebra_simps)
qed (auto simp: counted_def listed_update add_subscriber_def count_subscriber_def listed_append new_subscriber_def
    algebra_simps)

lemma hub_run_counted: "counted h \<Longrightarrow> counted (hub_run evs h)"
  unfolding hub_run_def by (induction evs arbitrary: h) (simp_all add: hub_step_counted)

section \<open>Answers\<close>

lemma second_in_3:
  "in_range 224 239 a \<Longrightarrow>
     second_in a b = in_range (if in_range 224 224 a then 160 else 128) (if in_range 237 237 a then 159 else 191) b"
  by (auto simp: second_in_def in_range_def Let_def)

lemma second_in_4:
  "in_range 240 244 a \<Longrightarrow>
     second_in a b = in_range (if in_range 240 240 a then 144 else 128) (if in_range 244 244 a then 143 else 191) b"
  by (auto simp: second_in_def in_range_def Let_def)

lemma lead_ranges:
  "in_range 194 223 a \<Longrightarrow> \<not> in_range 0 127 a"
  "in_range 224 239 a \<Longrightarrow> \<not> in_range 0 127 a \<and> \<not> in_range 194 223 a"
  "in_range 240 244 a \<Longrightarrow> \<not> in_range 0 127 a \<and> \<not> in_range 194 223 a \<and> \<not> in_range 224 239 a"
  by (auto simp: in_range_def)

lemma utf8_valid_cases:
  assumes "utf8_valid (a # t)"
  obtains "in_range 0 127 a" "utf8_valid t"
    | b u where "in_range 194 223 a" "t = b # u" "in_range 128 191 b" "utf8_valid u"
    | b c u where "in_range 224 239 a" "t = b # c # u" "second_in a b" "in_range 128 191 c" "utf8_valid u"
    | b c d u where "in_range 240 244 a" "t = b # c # d # u" "second_in a b" "in_range 128 191 c" "in_range 128 191 d" "utf8_valid u"
proof (cases "in_range 0 127 a")
  case True
  then show thesis using assms that(1) by simp
next
  case n1: False
  then obtain b u where t: "t = b # u" using assms by (cases t) simp_all
  show thesis
  proof (cases "in_range 194 223 a")
    case True
    then show thesis using assms n1 t that(2) by simp
  next
    case n2: False
    then obtain c v where u: "u = c # v" using assms n1 t by (cases u) simp_all
    show thesis
    proof (cases "in_range 224 239 a")
      case True
      then show thesis using assms n1 n2 t u that(3) by (simp add: second_in_3)
    next
      case n3: False
      then obtain d w where "v = d # w" using assms n1 n2 t u by (cases v) simp_all
      then show thesis using assms n1 n2 n3 t u that(4) by (simp add: second_in_4)
    qed
  qed
qed

lemma from_utf8_lossy_valid: "utf8_valid s \<Longrightarrow> from_utf8_lossy s = s"
proof (induction s rule: length_induct)
  case (1 s)
  show ?case
  proof (cases s)
    case (Cons a t)
    note IH = 1(1)[unfolded Cons]
    from 1(2) have "utf8_valid (a # t)" by (simp only: Cons)
    then show ?thesis
      unfolding Cons by (cases rule: utf8_valid_cases) (use IH in \<open>simp_all add: lead_ranges\<close>)
  qed simp
qed

text \<open>A line as the operator types it, and the lines that are taken as typed.\<close>

definition typed_line :: "string \<Rightarrow> console_input list" where
  "typed_line l = map Typed (l @ [newline])"

definition plain_answer :: "string \<Rightarrow> bool" where
  "plain_answer l \<longleftrightarrow> length l \<le> 64 \<and> newline \<notin> set l \<and> carriage_return \<notin> set l \<and> utf8_valid l"

lemma read_answer_typed:
  "newline \<notin> set l \<Longrightarrow> carriage_return \<notin> set l \<Longrightarrow> length acc + length l \<le> 64 \<Longrightarrow>
     read_answer_from acc (typed_line l @ ins) = (Some (Ok (Some (from_utf8_lossy (acc @ l)))), Some ins)"
  by (induction l arbitrary: acc) (auto simp: typed_line_def Let_def)

lemma read_answer_plain:
  "plain_answer l \<Longrightarrow> read_answer_from [] (typed_line l @ ins) = (Some (Ok (Some l)), Some ins)"
  by (simp add: plain_answer_def read_answer_typed from_utf8_lossy_valid)

lemma console_confirm_plain:
  "plain_answer l \<Longrightarrow> console_confirm True late ctx (Some (typed_line l @ ins)) =
     (if late then TimedOut else operator_parse (Some l), Some ins)"
  by (simp add: console_confirm_def console_write_def console_read_def read_answer_plain operator_confirm_def)

lemma read_answer_overlong:
  "length acc + n = 65 \<Longrightarrow> length acc \<le> 64 \<Longrightarrow> b \<noteq> newline \<Longrightarrow> b \<noteq> carriage_return \<Longrightarrow>
     read_answer_from acc (map Typed (replicate n b) @ ins) = (Some (Ok None), Some ins)"
proof (induction n arbitrary: acc)
  case (Suc n)
  show ?case
  proof (cases "length acc = 64")
    case True
    with Suc.prems have "n = 0" by simp
    with True Suc.prems show ?thesis by simp
  next
    case False
    with Suc.prems have "length (acc @ [b]) + n = 65" "length (acc @ [b]) \<le> 64" by simp_all
    from Suc.IH [OF this Suc.prems(3,4)] this Suc.prems show ?thesis by (simp add: Let_def)
  qed
qed simp

section \<open>Endpoint names\<close>

definition path_like :: "string \<Rightarrow> bool" where
  "path_like p \<longleftrightarrow> list_ex separator p \<and>
     (case strip_prefix p pipe_prefix of None \<Rightarrow> True | Some rest \<Rightarrow> rest = [] \<or> list_ex separator rest)"

lemma windows_pipe_name_path:
  "path_like p \<Longrightarrow> windows_pipe_name cr p =
     take 40 (concat (map pipe_char (pipe_stem p))) @ ''-'' @ take 16 (hex_encode (sha256 cr p))"
  by (auto simp: windows_pipe_name_def path_like_def split: option.splits)

lemma prefixed_path:
  assumes "strip_prefix p pipe_prefix = Some rest"
  shows "list_ex separator p" "length rest \<le> length p"
proof -
  have "prefix pipe_prefix p" "rest = drop (length pipe_prefix) p"
    using assms by (auto simp: strip_prefix_def str_simps split: if_splits)
  then show "length rest \<le> length p" "list_ex separator p"
    by (auto simp: prefix_def pipe_prefix_def separator_def)
qed

lemma windows_pipe_name_other:
  assumes "\<not> path_like p"
  shows "\<not> list_ex separator (windows_pipe_name cr p) \<and> length (windows_pipe_name cr p) \<le> length p"
proof (cases "strip_prefix p pipe_prefix")
  case None
  then show ?thesis using assms by (simp add: windows_pipe_name_def path_like_def)
next
  case (Some rest)
  then show ?thesis using assms prefixed_path [OF Some] by (simp add: windows_pipe_name_def path_like_def)
qed

lemma pipe_char_legal: "\<not> list_ex separator (pipe_char c)"
  by (auto simp: pipe_char_def separator_def Let_def)

lemma stem_legal: "\<not> list_ex separator (concat (map pipe_char xs))"
  using pipe_char_legal by (induction xs) simp_all

lemma hex_encode_legal: "\<not> list_ex separator (hex_encode bs)"
proof -
  have "\<not> list_ex separator (map ((!) ''0123456789abcdef'') [0..<16])" by code_simp
  then have digit: "\<not> separator (''0123456789abcdef'' ! n)" if "n < 16" for n
    using that by (auto simp: list_ex_iff)
  have "(of_char c :: nat) < 256" for c by simp
  then have "(of_char c :: nat) div 16 < 16" for c by (simp add: less_mult_imp_div_less)
  then show ?thesis using digit by (auto simp: hex_encode_def hex_byte_def Let_def list_ex_iff)
qed

lemma list_ex_take: "\<not> list_ex P xs \<Longrightarrow> \<not> list_ex P (take n xs)"
  by (auto simp: list_ex_iff dest: in_set_takeD)

section \<open>Waiting\<close>

definition no_byte :: "bool \<Rightarrow> read_outcome \<Rightarrow> bool" where
  "no_byte windows o1 \<longleftrightarrow> (case o1 of ZeroRead \<Rightarrow> \<not> zero_read_is_eof windows | ByteRead b \<Rightarrow> False | ReadFails e \<Rightarrow> no_data_yet windows e)"

text \<open>What the last read means.\<close>

definition read_result :: "read_outcome \<Rightarrow> (io_error, char) result" where
  "read_result o1 = (case o1 of ZeroRead \<Rightarrow> Err (of_kind UnexpectedEof) | ByteRead b \<Rightarrow> Ok b | ReadFails e \<Rightarrow> Err e)"

lemma poll_byte_ends:
  "\<exists>n. snd (poll_byte windows rd now deadline) = now + 5 * n \<and> now + 5 * n < max (deadline + 5) (now + 1) \<and>
     list_all (\<lambda>m. no_byte windows (rd (now + 5 * m))) [0..<n] \<and>
     fst (poll_byte windows rd now deadline) =
       (if no_byte windows (rd (now + 5 * n)) then Err (of_kind IoTimedOut) else read_result (rd (now + 5 * n))) \<and>
     (no_byte windows (rd (now + 5 * n)) \<longrightarrow> deadline \<le> now + 5 * n)"
proof (induction windows rd now deadline rule: poll_byte.induct)
  case (1 windows rd now deadline)
  show ?case
  proof (cases "no_byte windows (rd now) \<and> now < deadline")
    case False
    then have "poll_byte windows rd now deadline =
        (if no_byte windows (rd now) then Err (of_kind IoTimedOut) else read_result (rd now), now)"
      by (subst poll_byte.simps) (auto simp: no_byte_def read_result_def split: read_outcome.splits)
    with False show ?thesis by (intro exI [of _ 0]) auto
  next
    case True
    then have eq: "poll_byte windows rd now deadline = poll_byte windows rd (now + 5) deadline"
      by (subst poll_byte.simps) (auto simp: no_byte_def split: read_outcome.splits)
    have "rd now = ZeroRead \<and> \<not> zero_read_is_eof windows \<or> (\<exists>e. rd now = ReadFails e \<and> no_data_yet windows e)"
      using True by (auto simp: no_byte_def split: read_outcome.splits)
    then obtain n where n: "snd (poll_byte windows rd (now + 5) deadline) = now + 5 + 5 * n"
      "now + 5 + 5 * n < max (deadline + 5) (now + 5 + 1)" "list_all (\<lambda>m. no_byte windows (rd (now + 5 + 5 * m))) [0..<n]"
      "fst (poll_byte windows rd (now + 5) deadline) =
         (if no_byte windows (rd (now + 5 + 5 * n)) then Err (of_kind IoTimedOut) else read_result (rd (now + 5 + 5 * n)))"
      "no_byte windows (rd (now + 5 + 5 * n)) \<longrightarrow> deadline \<le> now + 5 + 5 * n"
      using 1 True by (metis linorder_not_le)
    have "no_byte windows (rd (now + 5 * m))" if "m < Suc n" for m
      using that True n(3) by (cases m) (auto simp: list_all_iff algebra_simps)
    then have all: "list_all (\<lambda>m. no_byte windows (rd (now + 5 * m))) [0..<Suc n]"
      unfolding list_all_iff set_upt by (metis atLeastLessThan_iff)
    have t: "now + 5 + 5 * n = now + 5 * Suc n" by simp
    have "now + 5 * Suc n < max (deadline + 5) (now + 1)" using n(2) True by simp
    then show ?thesis
      unfolding eq using all n(1,4,5) unfolding t by blast
  qed
qed

lemma connect_name_bound:
  "attempts < max_attempts \<Longrightarrow>
     attempts < snd (connect_name dial attempts) \<and> snd (connect_name dial attempts) \<le> max_attempts \<and>
     fst (connect_name dial attempts) = dial (snd (connect_name dial attempts) - 1)"
proof (induction dial attempts rule: connect_name.induct)
  case (1 dial attempts)
  then show ?case
    by (subst (1 2 3 4) connect_name.simps) (fastforce split: sum.split)
qed

section \<open>Theorems\<close>

text \<open>
  (C34) Waiting for a byte ends: a read with a deadline returns after finitely many polls, less than one
  poll interval past the deadline. It reports a timeout only when the deadline has passed without a
  byte at any poll, and otherwise what the first poll with something to say found.
\<close>

theorem read_byte_timeout_ends:
  "\<exists>n. read_byte_timeout windows (Ok ()) rd now timeout =
       (if no_byte windows (rd (now + 5 * n)) then Err (of_kind IoTimedOut) else read_result (rd (now + 5 * n)), now + 5 * n) \<and>
     5 * n < timeout + 5 \<and> list_all (\<lambda>m. no_byte windows (rd (now + 5 * m))) [0..<n] \<and>
     (no_byte windows (rd (now + 5 * n)) \<longrightarrow> timeout \<le> 5 * n)"
proof -
  obtain n where "snd (poll_byte windows rd now (now + timeout)) = now + 5 * n"
    "now + 5 * n < max (now + timeout + 5) (now + 1)" "list_all (\<lambda>m. no_byte windows (rd (now + 5 * m))) [0..<n]"
    "fst (poll_byte windows rd now (now + timeout)) =
       (if no_byte windows (rd (now + 5 * n)) then Err (of_kind IoTimedOut) else read_result (rd (now + 5 * n)))"
    "no_byte windows (rd (now + 5 * n)) \<longrightarrow> now + timeout \<le> now + 5 * n"
    using poll_byte_ends by blast
  then show ?thesis
    by (intro exI [of _ n]) (simp add: read_byte_timeout_def prod_eq_iff)
qed

theorem read_byte_timeout_ends_witness:
  "\<exists>n. read_byte_timeout True (Ok ()) (\<lambda>t. if t < 107 then ZeroRead else ByteRead CHR ''y'') 100 1000 = (Ok CHR ''y'', 100 + 5 * n)"
proof -
  let ?rd = "\<lambda>t :: nat. if t < 107 then ZeroRead else ByteRead CHR ''y''"
  obtain n where n: "read_byte_timeout True (Ok ()) ?rd 100 1000 =
       (if no_byte True (?rd (100 + 5 * n)) then Err (of_kind IoTimedOut) else read_result (?rd (100 + 5 * n)), 100 + 5 * n)"
     "no_byte True (?rd (100 + 5 * n)) \<longrightarrow> 1000 \<le> 5 * n"
    using read_byte_timeout_ends [of True ?rd 100 1000] by blast
  then have "\<not> no_byte True (?rd (100 + 5 * n))"
    by (auto simp: no_byte_def split: if_splits)
  then have "?rd (100 + 5 * n) = ByteRead CHR ''y''" by (auto simp: no_byte_def zero_read_is_eof_def split: if_splits)
  with n(1) show ?thesis by (auto simp: no_byte_def read_result_def)
qed

text \<open>
  (C35) Names of Windows pipes: no name has a separator, a name is at most 57 characters long or no longer
  than what the operator gave, and two paths share a pipe only where their digests agree on the
  first sixteen digits.
\<close>

theorem windows_pipe_name_legal:
  assumes "length (sha256 cr p) = 32" and "length (sha256 cr q) = 32"
  shows "\<not> list_ex separator (windows_pipe_name cr p) \<and> length (windows_pipe_name cr p) \<le> max 57 (length p) \<and>
     (path_like p \<and> path_like q \<and> windows_pipe_name cr p = windows_pipe_name cr q \<longrightarrow>
        take 16 (hex_encode (sha256 cr p)) = take 16 (hex_encode (sha256 cr q)))"
proof -
  have legal: "\<not> list_ex separator (take 40 (concat (map pipe_char (pipe_stem p))) @ ''-'' @ take 16 (hex_encode (sha256 cr p)))"
    using list_ex_take [OF stem_legal [of "pipe_stem p"], of 40] list_ex_take [OF hex_encode_legal [of "sha256 cr p"], of 16]
    by (simp add: separator_def)
  have len: "length (hex_encode bs) = 2 * length bs" for bs
    by (induction bs) (simp_all add: hex_encode_def hex_byte_def Let_def)
  have "\<not> list_ex separator (windows_pipe_name cr p) \<and> length (windows_pipe_name cr p) \<le> max 57 (length p)"
    using legal windows_pipe_name_other [of p cr] by (cases "path_like p") (auto simp: windows_pipe_name_path)
  moreover have "take 16 (hex_encode (sha256 cr p)) = take 16 (hex_encode (sha256 cr q))"
    if "path_like p" "path_like q" "windows_pipe_name cr p = windows_pipe_name cr q"
  proof -
    have eq: "(take 40 (concat (map pipe_char (pipe_stem p))) @ ''-'') @ take 16 (hex_encode (sha256 cr p)) =
        (take 40 (concat (map pipe_char (pipe_stem q))) @ ''-'') @ take 16 (hex_encode (sha256 cr q))"
      using that(3) by (simp only: windows_pipe_name_path [OF that(1)] windows_pipe_name_path [OF that(2)] append_assoc)
    have "length (take 16 (hex_encode (sha256 cr p))) = length (take 16 (hex_encode (sha256 cr q)))"
      using assms by (simp add: len)
    with eq show ?thesis by (metis append_eq_append_conv)
  qed
  ultimately show ?thesis by blast
qed

theorem windows_pipe_name_legal_witness:
  "\<not> list_ex separator (windows_pipe_name (sample_crypto\<lparr>sha256 := (\<lambda>b. replicate 32 CHR ''h'')\<rparr>) ''/tmp/a/events.sock'')"
proof -
  let ?c = "sample_crypto\<lparr>sha256 := (\<lambda>b. replicate 32 CHR ''h'')\<rparr>"
  have "length (sha256 ?c p) = 32" for p by simp
  from windows_pipe_name_legal [OF this this, of "''/tmp/a/events.sock''" "[]"] show ?thesis by (rule conjunct1)
qed

text \<open>
  (C36) The event feed: from the moment a subscriber is registered, whatever broadcasts, deliveries,
  failures and new subscribers follow, what it was sent is a beginning of the feed, in order and
  without gaps, the whole feed while it is listed and its thread runs, and at most 256 lines wait for it.
\<close>

theorem feed_delivers_in_order:
  assumes "hub_subs h = ss @ [new_subscriber]"
  shows "feed_ok (feed_lines evs) (hub_subs (hub_run evs h) ! length ss)"
  using hub_run_ok [of "length ss" h "[]" evs] new_subscriber_ok assms by simp

theorem feed_delivers_in_order_witness:
  "feed_ok [''a'' @ [newline], ''b'' @ [newline]]
     (hub_subs (hub_run [Counts, Broadcasts ''a'', Takes 0, Broadcasts ''b'', Writes 0 False] (hub_step (Accepts True) hub_new)) ! 0)"
proof -
  have "hub_subs (hub_step (Accepts True) hub_new) = [] @ [new_subscriber]"
    by (simp add: hub_new_def add_subscriber_def)
  from feed_delivers_in_order [OF this, of "[Counts, Broadcasts ''a'', Takes 0, Broadcasts ''b'', Writes 0 False]"]
  show ?thesis by (simp only: feed_lines_def list.map feed_line.simps concat.simps append.simps list.size)
qed

text \<open>
  The number of subscribers: after any history it is the number of registered subscribers, modulo two
  to the 64th and up to the one that the acceptor has registered and not yet counted.
\<close>

theorem subscriber_count_exact:
  "subscriber_count (hub_run evs hub_new) + (if hub_uncounted (hub_run evs hub_new) then 1 else 0) =
     of_nat (length (filter sub_listed (hub_subs (hub_run evs hub_new))))"
  using hub_run_counted [of hub_new evs]
  by (simp add: counted_def hub_new_def listed_count_def subscriber_count_def)

text \<open>
  (C37) Answers meet their prompts: where the operator types one short line for each prompt, the n-th prompt
  is decided by the n-th line; a prompt whose time ran out takes its line with it, so a late answer never
  approves the action that is asked about next.
\<close>

theorem answers_meet_prompts:
  assumes "list_all plain_answer lines" and "length ps = length lines"
  shows "console_confirms ps (Some (concat (map typed_line lines) @ ins)) =
     (map (\<lambda>((late, ctx), l). if late then TimedOut else operator_parse (Some l)) (zip ps lines), Some ins)"
  using assms(2,1)
proof (induction ps lines rule: list_induct2)
  case (Cons p ps l lines)
  then show ?case by (cases p) (simp add: console_confirm_plain)
qed simp

theorem answers_meet_prompts_witness:
  "\<exists>c1 c2. console_confirms [(True, c1), (False, c2)] (Some (concat (map typed_line [''yes'', ''n'']))) = ([TimedOut, Refused], Some [])"
proof -
  let ?c = "\<lparr>cx_agent_id = ''a'', cx_target_label = ''x'', cx_target_uri = ''u'', cx_mechanism = ''m'', cx_summary = ''s''\<rparr>"
  have plain: "list_all plain_answer [''yes'', ''n'']" by code_simp
  have parse: "operator_parse (Some ''n'') = Refused" by code_simp
  show ?thesis
    using answers_meet_prompts [OF plain, of "[(True, ?c), (False, ?c)]" "[]"] parse by (intro exI [of _ ?c]) simp
qed

text \<open>
  An answer that is too long spills: the reader gives up after 65 bytes and leaves the rest of the
  line in the stream, where it is the answer to the next prompt. One typed line refuses the
  first action and approves the second.
\<close>

theorem overlong_answer_spills:
  "console_confirms [(False, first), (False, second)] (Some (typed_line (replicate 65 CHR ''n'' @ ''y'') @ ins)) =
     ([Refused, Approved], Some ins)"
proof -
  have eq: "typed_line (replicate 65 CHR ''n'' @ ''y'') = map Typed (replicate 65 CHR ''n'') @ typed_line ''y''"
    by (simp only: typed_line_def map_append append_assoc)
  have plain: "plain_answer ''y''" by code_simp
  have parse: "operator_parse (Some ''y'') = Approved" by code_simp
  have "read_answer_from [] (map Typed (replicate 65 CHR ''n'') @ typed_line ''y'' @ ins) = (Some (Ok None), Some (typed_line ''y'' @ ins))"
    by (rule read_answer_overlong) (simp_all add: newline_def carriage_return_def)
  then have "console_confirm True False first (Some (map Typed (replicate 65 CHR ''n'') @ typed_line ''y'' @ ins)) =
      (Refused, Some (typed_line ''y'' @ ins))"
    by (simp only: console_confirm_def console_write_def console_read_def option.case) (simp add: operator_confirm_def operator_parse_def)
  then show ?thesis by (simp only: eq append_assoc console_confirms.simps prod.case console_confirm_plain [OF plain] parse if_False)
qed

text \<open>
  A prompt can be forged: the label of the target comes from the agent and is shown as it is. For
  every harmless-looking action there is a label with which the prompt for any other action of
  the same agent begins with the complete prompt of the harmless one.
\<close>

theorem prompt_can_be_forged:
  "\<exists>label. prefix (operator_render shown)
     (operator_render \<lparr>cx_agent_id = cx_agent_id shown, cx_target_label = label, cx_target_uri = uri,
        cx_mechanism = mechanism, cx_summary = summary\<rparr>)"
proof
  let ?rest = "cx_target_label shown @ '' ('' @ cx_target_uri shown @ '')'' @ [newline] @
     ''  mechanism: '' @ cx_mechanism shown @ [newline] @
     ''  action:    '' @ cx_summary shown @ [newline] @ ''Approve? [y/N]: ''"
  show "prefix (operator_render shown)
     (operator_render \<lparr>cx_agent_id = cx_agent_id shown, cx_target_label = ?rest, cx_target_uri = uri,
        cx_mechanism = mechanism, cx_summary = summary\<rparr>)"
    by (simp add: operator_render_def)
qed

end
