(* ===== verification/Inventory.thy ===== *)
theory Inventory
  imports Policy Credentials Host_Keys Codec Audit_Chain
begin

text \<open>
  Bulk import of an inventory (\<^verbatim>\<open>chaperone vault import\<close>): the readers of CSV and of \<^verbatim>\<open>ssh_config\<close> files
  (\<^verbatim>\<open>crates/cli/src/import_sources.rs\<close>) and the command that writes vault entries and pair rows
  (\<^verbatim>\<open>import_core.rs\<close>).
\<close>

section \<open>Sources\<close>

record inventory_row =
  ir_name :: string
  ir_host :: string
  ir_port :: nat
  ir_user :: "string option"
  ir_secret :: "string option"

datatype parsed = Row inventory_row | RowFailed nat string

record skipped =
  sk_line :: nat
  sk_reason :: string

record parse_outcome =
  po_rows :: "parsed list"
  po_warnings :: "skipped list"

definition comma :: char where
  "comma = CHR '',''"

definition quote_char :: char where
  "quote_char = CHR 0x22"

definition csv_columns :: "string list" where
  "csv_columns = [''name'', ''host'', ''port'', ''user'', ''secret'']"

text \<open>The reason for which a field is refused, if any.\<close>

definition csv_check :: "string \<Rightarrow> string \<Rightarrow> string option" where
  "csv_check field label =
     (if comma \<in> set field \<or> quote_char \<in> set field
      then Some (label @ '' '' @ [CHR 0x60] @ field @ [CHR 0x60] @ '' contains a forbidden character (, or '' @ [quote_char] @ '')'')
      else None)"

definition optional_column :: "string list \<Rightarrow> nat \<Rightarrow> string option" where
  "optional_column cols i =
     (if i < length cols \<and> trim (cols ! i) \<noteq> [] then Some (trim (cols ! i)) else None)"

definition csv_split :: "string \<Rightarrow> string list" where
  "csv_split line =
     (let cols = split_on comma (trim_end line) in
      if length cols = 6 \<and> is_blank (cols ! 5) then butlast cols else cols)"

definition csv_port :: "string list \<Rightarrow> (string, nat) result" where
  "csv_port cols =
     (case optional_column cols 2 of
        None \<Rightarrow> Ok 22
      | Some p \<Rightarrow> ok_or (''port '' @ [CHR 0x60] @ p @ [CHR 0x60] @ '' is not a number'') (parse_uint 16 p))"

definition guard_none :: "string option \<Rightarrow> (string, unit) result" where
  "guard_none reason = (case reason of None \<Rightarrow> Ok () | Some r \<Rightarrow> Err r)"

definition csv_row :: "string \<Rightarrow> (string, inventory_row) result" where
  "csv_row line =
     (let cols = csv_split line in
      if length cols < 2 then Err ''need at least name,host''
      else (let name = trim (cols ! 0); host = trim (cols ! 1);
                user = optional_column cols 3; secret = optional_column cols 4 in
        if name = [] \<or> host = [] then Err ''name and host are required''
        else bind_res (guard_none (csv_check name ''name'')) (\<lambda>_.
          bind_res (guard_none (csv_check host ''host'')) (\<lambda>_.
          bind_res (csv_port cols) (\<lambda>port.
          if 5 < length cols then
            Err (''row has '' @ dec_of_nat (length cols) @
              '' columns; commas inside fields are not supported '' @ [CHR 0xE2, CHR 0x80, CHR 0x94] @
              '' quote the field or drop the comma'')
          else
            bind_res (guard_none (Option.bind user (\<lambda>u. csv_check u ''user''))) (\<lambda>_.
            bind_res (guard_none (Option.bind secret (\<lambda>s. csv_check s ''secret''))) (\<lambda>_.
            Ok \<lparr>ir_name = name, ir_host = host, ir_port = port, ir_user = user, ir_secret = secret\<rparr>)))))))"

fun csv_rows :: "nat \<Rightarrow> string list \<Rightarrow> parsed list" where
  "csv_rows ln [] = []"
| "csv_rows ln (line # ls) =
     (if is_blank line then csv_rows (Suc ln) ls
      else (case csv_row line of Inl reason \<Rightarrow> RowFailed ln reason | Inr r \<Rightarrow> Row r) # csv_rows (Suc ln) ls)"

definition parse_csv :: "string \<Rightarrow> parse_outcome" where
  "parse_csv content =
     (case str_lines content of
        [] \<Rightarrow> \<lparr>po_rows = [RowFailed 1 ''empty source''], po_warnings = []\<rparr>
      | header # ls \<Rightarrow>
          if map trim (split_on comma (trim header)) \<noteq> csv_columns then
            \<lparr>po_rows = [RowFailed 1 (''header must be exactly '' @ [CHR 0x60] @ join_with [comma] csv_columns @ [CHR 0x60] @
               '' (got '' @ [CHR 0x60] @ trim header @ [CHR 0x60] @ '')'')], po_warnings = []\<rparr>
          else \<lparr>po_rows = csv_rows 2 ls, po_warnings = []\<rparr>)"

text \<open>The state of the \<^verbatim>\<open>ssh_config\<close> reader: what is collected, and the block that is open.\<close>

record config_state =
  cs_rows :: "parsed list"
  cs_warnings :: "skipped list"
  cs_hosts :: "(nat \<times> string list) option"
  cs_hostname :: "string option"
  cs_port :: "nat option"
  cs_user :: "string option"

definition is_host_pattern :: "string \<Rightarrow> bool" where
  "is_host_pattern n \<longleftrightarrow> CHR ''*'' \<in> set n \<or> CHR ''?'' \<in> set n"

text \<open>Closing the open block; \<open>None\<close> is the panic on a block with no name.\<close>

definition config_flush :: "config_state \<Rightarrow> config_state option" where
  "config_flush s =
     (case cs_hosts s of
        None \<Rightarrow> Some s
      | Some (ln, names) \<Rightarrow>
          (case cs_hostname s of
             None \<Rightarrow> Some s
           | Some hn \<Rightarrow>
               if \<not> list_ex is_host_pattern names then
                 (case names of
                    [] \<Rightarrow> None
                  | n # _ \<Rightarrow> Some (s\<lparr>cs_rows := cs_rows s @ [Row \<lparr>ir_name = n, ir_host = hn,
                      ir_port = (case cs_port s of None \<Rightarrow> 22 | Some p \<Rightarrow> p), ir_user = cs_user s, ir_secret = None\<rparr>]\<rparr>))
               else Some (s\<lparr>cs_warnings := cs_warnings s @ [\<lparr>sk_line = ln,
                 sk_reason = ''pattern block '' @ [CHR 0x60] @ ''Host '' @ join_with '' '' names @ [CHR 0x60] @
                   '' with HostName is not a host; skipped''\<rparr>]\<rparr>)))"

definition config_line :: "nat \<Rightarrow> string \<Rightarrow> config_state \<Rightarrow> config_state option" where
  "config_line ln raw s =
     (let line = trim raw in
      if line = [] \<or> starts_with line ''#'' then Some s
      else (case take_word line of (w, rest) \<Rightarrow>
        (let key = to_ascii_lowercase (trim w); val = trim rest in
         if key = ''host'' then
           map_option (\<lambda>s1. s1\<lparr>cs_hosts := Some (ln, split_whitespace val), cs_hostname := None, cs_port := None,
             cs_user := None\<rparr>) (config_flush s)
         else if key = ''hostname'' then Some (s\<lparr>cs_hostname := Some val\<rparr>)
         else if key = ''port'' then
           (case parse_uint 16 val of
              Some p \<Rightarrow> Some (s\<lparr>cs_port := Some p\<rparr>)
            | None \<Rightarrow> Some (s\<lparr>cs_warnings := cs_warnings s @ [\<lparr>sk_line = ln,
                sk_reason = [CHR 0x60] @ ''Port '' @ val @ [CHR 0x60] @ '' is not a number; ignored''\<rparr>]\<rparr>))
         else if key = ''user'' then Some (s\<lparr>cs_user := Some val\<rparr>)
         else Some s)))"

fun config_lines :: "nat \<Rightarrow> string list \<Rightarrow> config_state \<Rightarrow> config_state option" where
  "config_lines ln [] s = Some s"
| "config_lines ln (l # ls) s = Option.bind (config_line ln l s) (config_lines (Suc ln) ls)"

definition config_start :: config_state where
  "config_start = \<lparr>cs_rows = [], cs_warnings = [], cs_hosts = None, cs_hostname = None, cs_port = None, cs_user = None\<rparr>"

definition parse_ssh_config :: "string \<Rightarrow> parse_outcome option" where
  "parse_ssh_config content =
     map_option (\<lambda>s. \<lparr>po_rows = cs_rows s, po_warnings = cs_warnings s\<rparr>)
       (Option.bind (config_lines 1 (str_lines content) config_start) config_flush)"

section \<open>The import\<close>

datatype row_outcome = Imported string | SkippedExists string | Failed string

fun row_outcome_line :: "row_outcome \<Rightarrow> string" where
  "row_outcome_line (Imported entry_path) = ''imported '' @ entry_path"
| "row_outcome_line (SkippedExists entry_path) =
     ''skipped '' @ entry_path @ '' (exists, pre-existing secret kept) -> row added''"
| "row_outcome_line (Failed reason) = ''failed: '' @ reason"

fun schema_problem_text :: "schema_problem \<Rightarrow> string" where
  "schema_problem_text (TomlMessage e) = e"
| "schema_problem_text (UnknownEffect i eff) = ''rule '' @ dec_of_nat i @ '': unknown effect '' @ debug_str eff @
     '' (want allow|deny|needs_confirmation)''"
| "schema_problem_text (BadAxis i label (MatcherError e)) = ''rule '' @ dec_of_nat i @ '': '' @ label @ '': invalid matcher: '' @ e"
| "schema_problem_text (BadPair i j label (MatcherError e)) = ''rule '' @ dec_of_nat i @ '' pair '' @ dec_of_nat j @ '': '' @ label @
     '': invalid matcher: '' @ e"

fun policy_error_text :: "policy_error \<Rightarrow> string" where
  "policy_error_text (ParseError e) = ''policy is not valid TOML: '' @ e"
| "policy_error_text (SchemaError e) = ''policy violates its schema: '' @ schema_problem_text e"

text \<open>What the command is given besides the rows; the rule file is read and written through parameters.\<close>

record import_plan =
  ip_crypto :: crypto
  ip_toml :: "string \<Rightarrow> (string, rule_def list) result"
  ip_quote :: "string \<Rightarrow> string"
  ip_vault :: vault_env
  ip_policy_doc :: string
  ip_rule_name :: string
  ip_cred_scheme :: string
  ip_dry_run :: bool

definition resolved_entry_path :: "string \<Rightarrow> string \<Rightarrow> string" where
  "resolved_entry_path cred_scheme name =
     (case split_once cred_scheme ''://'' of None \<Rightarrow> cred_scheme | Some (_, rest) \<Rightarrow> rest) @ ''/'' @ name"

text \<open>\<^verbatim>\<open>format!("{:?}")\<close> of a matcher.\<close>

fun matcher_debug :: "matcher \<Rightarrow> string" where
  "matcher_debug Any = ''Any''"
| "matcher_debug (Exact v) = ''Exact('' @ debug_str v @ '')''"
| "matcher_debug (Prefix v) = ''Prefix('' @ debug_str v @ '')''"
| "matcher_debug (Glob v) = ''Glob('' @ debug_str v @ '')''"

definition axis_compatible :: "string \<Rightarrow> string \<Rightarrow> bool" where
  "axis_compatible rule_matcher_text row_value =
     (let row_scheme = (case split_once row_value ''://'' of None \<Rightarrow> row_value | Some (a, _) \<Rightarrow> a) in
      row_scheme = [] \<or> contains_sub rule_matcher_text row_scheme \<or> rule_matcher_text = ''*'' \<or>
      starts_with rule_matcher_text ''glob:*'')"

definition import_cred_ref :: "import_plan \<Rightarrow> inventory_row \<Rightarrow> string" where
  "import_cred_ref pl row = ip_cred_scheme pl @ ''/'' @ ir_name row"

definition import_target :: "inventory_row \<Rightarrow> string" where
  "import_target row = ''ssh://'' @ ir_host row @ '':'' @ dec_of_nat (ir_port row)"

definition pair_mentions :: "string \<Rightarrow> string \<Rightarrow> pair_row \<Rightarrow> bool" where
  "pair_mentions cred_ref target_uri p \<longleftrightarrow>
     contains_sub (matcher_debug (p_cred_ref p)) cred_ref \<and> contains_sub (matcher_debug (p_target_uri p)) target_uri"

text \<open>The loop over the rows: the vault, the known paths, the new pairs and the outcomes.\<close>

record import_state =
  im_vault :: local_vault
  im_paths :: "string list"
  im_pairs :: "pair_row list"
  im_outcomes :: "row_outcome list"

definition import_pair :: "import_plan \<Rightarrow> rule \<Rightarrow> inventory_row \<Rightarrow> import_state \<Rightarrow> (string, import_state) result" where
  "import_pair pl r row s =
     (let cred_ref = import_cred_ref pl row; target_uri = import_target row in
      if list_ex (pair_mentions cred_ref target_uri) (r_pairs r) \<or> list_ex (pair_mentions cred_ref target_uri) (im_pairs s)
      then Ok s
      else (case matcher_parse cred_ref of
        Inl (MatcherError e) \<Rightarrow> Err (''cred_ref '' @ [CHR 0x60] @ cred_ref @ [CHR 0x60] @ '': invalid matcher: '' @ e)
      | Inr c \<Rightarrow>
          (case matcher_parse target_uri of
             Inl (MatcherError e) \<Rightarrow> Err (''target_uri '' @ [CHR 0x60] @ target_uri @ [CHR 0x60] @ '': invalid matcher: '' @ e)
           | Inr t \<Rightarrow> Ok (s\<lparr>im_pairs := im_pairs s @ [\<lparr>p_cred_ref = c, p_target_uri = t\<rparr>]\<rparr>))))"

text \<open>\<open>io\<close> and \<open>nonce\<close> are for the vault write of the row.\<close>

definition import_row ::
    "import_plan \<Rightarrow> rule \<Rightarrow> bool \<times> bytes \<Rightarrow> inventory_row \<Rightarrow> import_state \<Rightarrow> (string, import_state) result \<times> local_vault" where
  "import_row pl r io row s =
     (let entry_path = resolved_entry_path (ip_cred_scheme pl) (ir_name row);
          cred_ref = import_cred_ref pl row; target_uri = import_target row in
      if \<not> axis_compatible (matcher_debug (r_cred_ref r)) cred_ref \<or> \<not> axis_compatible (matcher_debug (r_target_uri r)) target_uri
      then (Ok (s\<lparr>im_outcomes := im_outcomes s @ [Failed (cred_ref @ '' -> '' @ target_uri @ '': axis-incompatible with rule '' @
              debug_str (ip_rule_name pl) @ '' (a row that can never match is not added)'')]\<rparr>), im_vault s)
      else if entry_path \<in> set (im_paths s) then
        (import_pair pl r row (s\<lparr>im_outcomes := im_outcomes s @ [SkippedExists entry_path]\<rparr>), im_vault s)
      else (let value = (case ir_secret row of None \<Rightarrow> placeholder_entry_value | Some x \<Rightarrow> x);
                done1 = (\<lambda>v. s\<lparr>im_vault := v, im_paths := im_paths s @ [entry_path],
                  im_outcomes := im_outcomes s @ [Imported entry_path]\<rparr>) in
        if ip_dry_run pl then (import_pair pl r row (done1 (im_vault s)), im_vault s)
        else (case vault_set (ip_vault pl) (fst io) (snd io) entry_path value (im_vault s) of
          (Inl e, v) \<Rightarrow> (Err (''vault set '' @ entry_path @ '': '' @ vault_error_text e), v)
        | (Inr _, v) \<Rightarrow> (import_pair pl r row (done1 v), v))))"

fun import_rows ::
    "import_plan \<Rightarrow> rule \<Rightarrow> (nat \<Rightarrow> bool \<times> bytes) \<Rightarrow> nat \<Rightarrow> inventory_row list \<Rightarrow> import_state \<Rightarrow>
     (string, import_state) result \<times> local_vault" where
  "import_rows pl r io i [] s = (Ok s, im_vault s)"
| "import_rows pl r io i (row # rows) s =
     (case import_row pl r (io i) row s of
        (Inl e, v) \<Rightarrow> (Err e, v)
      | (Inr s1, v) \<Rightarrow> import_rows pl r io (Suc i) rows s1)"

definition ca_row :: "import_plan \<Rightarrow> inventory_row \<Rightarrow> bool" where
  "ca_row pl row \<longleftrightarrow> starts_with (resolved_entry_path (ip_cred_scheme pl) (ir_name row)) ca_namespace"

definition ca_refusal :: "import_plan \<Rightarrow> inventory_row \<Rightarrow> string" where
  "ca_refusal pl row = ''row '' @ [CHR 0x60] @ ir_name row @ [CHR 0x60] @ '' would write into the non-exportable CA namespace ('' @
     resolved_entry_path (ip_cred_scheme pl) (ir_name row) @ ''); the entire import is refused''"

definition add_pairs :: "nat \<Rightarrow> pair_row list \<Rightarrow> rule list \<Rightarrow> rule list" where
  "add_pairs i new_pairs rs =
     (if new_pairs = [] then rs else rs[i := (rs ! i)\<lparr>r_pairs := r_pairs (rs ! i) @ new_pairs\<rparr>])"

definition import_policy :: "import_plan \<Rightarrow> (string, policy) result" where
  "import_policy pl = map_sum (\<lambda>e. ''policy does not parse: '' @ policy_error_text e) id
     (from_toml (ip_crypto pl) (ip_toml pl) (ip_policy_doc pl))"

definition run_import ::
    "import_plan \<Rightarrow> (nat \<Rightarrow> bool \<times> bytes) \<Rightarrow> inventory_row list \<Rightarrow> local_vault \<Rightarrow>
     (string, row_outcome list \<times> string) result \<times> local_vault" where
  "run_import pl io rows v =
     (case import_policy pl of
        Inl e \<Rightarrow> (Err e, v)
      | Inr p \<Rightarrow>
          (case position_from 0 (\<lambda>r. r_name r = Some (ip_rule_name pl)) (rules p) of
             None \<Rightarrow> (Err (''no rule named '' @ debug_str (ip_rule_name pl) @ '' in the policy''), v)
           | Some i \<Rightarrow>
               (case List.find (ca_row pl) rows of
                  Some row \<Rightarrow> (Err (ca_refusal pl row), v)
                | None \<Rightarrow>
                    (case vault_list (ip_vault pl) v of
                       Inl e \<Rightarrow> (Err (''vault list: '' @ vault_error_text e), v)
                     | Inr paths \<Rightarrow>
                         (case import_rows pl (rules p ! i) io 0 rows
                                 \<lparr>im_vault = v, im_paths = paths, im_pairs = [], im_outcomes = []\<rparr> of
                            (Inl e, v1) \<Rightarrow> (Err e, v1)
                          | (Inr s, v1) \<Rightarrow>
                              if ip_dry_run pl then (Ok (im_outcomes s, ip_policy_doc pl), v1)
                              else (let doc = to_toml (ip_quote pl) (from_rules (add_pairs i (im_pairs s) (rules p))) in
                                (case from_toml (ip_crypto pl) (ip_toml pl) doc of
                                   Inl e \<Rightarrow> (Err (''generated policy failed validation: '' @ policy_error_text e), v1)
                                 | Inr _ \<Rightarrow> (Ok (im_outcomes s, doc), v1))))))))"

text \<open>The policy file is replaced through a temporary file: the write, then the rename.\<close>

definition atomic_write :: "(string, unit) result \<Rightarrow> (string, unit) result \<Rightarrow> string \<Rightarrow> string option \<Rightarrow> (string, unit) result \<times> string option" where
  "atomic_write temp rename contents file =
     (case temp of
        Inl e \<Rightarrow> (Err (''temp write: '' @ e), file)
      | Inr _ \<Rightarrow> (case rename of Inl e \<Rightarrow> (Err (''rename: '' @ e), file) | Inr _ \<Rightarrow> (Ok (), Some contents)))"

section \<open>The vault during an import\<close>

lemma vault_set_content:
  assumes "vault_ok e pass v" "length nonce = nonce_len"
  shows "vault_content e (snd (vault_set e io nonce p s v)) = (vault_content e v)(p \<mapsto> s)"
proof -
  obtain m where m: "decrypt_entries e v = Ok m" "bt_ok m" "vault_content e v = map_of m"
    using assms(1) by (rule vault_ok_entries)
  obtain ct where ct: "rewrite e io nonce (bt_insert p s m) v = vault_persist e io (v\<lparr>lv_body_nonce := nonce, lv_body_ciphertext := ct\<rparr>)"
    "decrypt_body e (lv_dek v) nonce ct = Ok (bt_insert p s m)"
    using rewrite_ok [OF _ bt_ok_insert [OF m(2)]] assms(1) unfolding vault_ok_def by blast
  then show ?thesis
    using m by (simp add: vault_set_def vault_content_def vault_persist_def decrypt_entries_def)
qed

text \<open>A vault that an import may leave behind: nothing lost, the authority's namespace untouched.\<close>

definition vault_grows :: "vault_env \<Rightarrow> local_vault \<Rightarrow> local_vault \<Rightarrow> bool" where
  "vault_grows e v v1 \<longleftrightarrow> vault_content e v \<subseteq>\<^sub>m vault_content e v1 \<and>
     (\<forall>p. starts_with p ca_namespace \<longrightarrow> vault_content e v1 p = vault_content e v p)"

lemma vault_grows_refl [simp]: "vault_grows e v v"
  by (simp add: vault_grows_def)

lemma vault_grows_trans: "vault_grows e v v1 \<Longrightarrow> vault_grows e v1 v2 \<Longrightarrow> vault_grows e v v2"
  by (auto simp: vault_grows_def intro: map_le_trans)

lemma vault_grows_set:
  assumes "vault_ok e pass v" "length nonce = nonce_len" "vault_content e v p = None" "\<not> starts_with p ca_namespace"
  shows "vault_grows e v (snd (vault_set e io nonce p s v))"
  using assms by (auto simp: vault_grows_def vault_set_content map_le_def)

definition loop_ok :: "import_plan \<Rightarrow> string \<Rightarrow> import_state \<Rightarrow> bool" where
  "loop_ok pl pass s \<longleftrightarrow> vault_ok (ip_vault pl) pass (im_vault s) \<and> dom (vault_content (ip_vault pl) (im_vault s)) \<subseteq> set (im_paths s)"

lemma import_pair_frame:
  "import_pair pl r row s = Ok s1 \<Longrightarrow> im_vault s1 = im_vault s \<and> im_paths s1 = im_paths s \<and> im_outcomes s1 = im_outcomes s"
  by (auto simp: import_pair_def Let_def split: if_splits sum.splits matcher_error.splits)

lemma import_pair_adds:
  "import_pair pl r row s = Ok s1 \<Longrightarrow> \<exists>ps. im_pairs s1 = im_pairs s @ ps \<and>
     list_all (\<lambda>p. matcher_parse (import_cred_ref pl row) = Ok (p_cred_ref p) \<and> matcher_parse (import_target row) = Ok (p_target_uri p)) ps"
  by (auto simp: import_pair_def Let_def split: if_splits sum.splits matcher_error.splits)

lemma vault_set_result: "vault_ok e pass v \<Longrightarrow> length nonce = nonce_len \<Longrightarrow> fst (vault_set e io nonce p s v) = Ok x \<Longrightarrow> io"
  by (cases io) (auto simp: vault_set_def rewrite_def Let_def vault_persist_def split: sum.splits)

text \<open>What one row does to the vault and to the state of the loop.\<close>

definition row_done :: "import_plan \<Rightarrow> string \<Rightarrow> import_state \<Rightarrow> (string, import_state) result \<times> local_vault \<Rightarrow> bool" where
  "row_done pl pass s res \<longleftrightarrow> vault_grows (ip_vault pl) (im_vault s) (snd res) \<and> (ip_dry_run pl \<longrightarrow> snd res = im_vault s) \<and>
     (case fst res of Inl _ \<Rightarrow> True
      | Inr s1 \<Rightarrow> loop_ok pl pass s1 \<and> im_vault s1 = snd res \<and> length (im_outcomes s1) = Suc (length (im_outcomes s)))"

lemma import_pair_done:
  assumes "loop_ok pl pass s1" "im_vault s1 = v" "vault_grows (ip_vault pl) (im_vault s) v" "ip_dry_run pl \<longrightarrow> v = im_vault s"
    "length (im_outcomes s1) = Suc (length (im_outcomes s))"
  shows "row_done pl pass s (import_pair pl r row s1, v)"
proof (cases "import_pair pl r row s1")
  case (Inl e)
  then show ?thesis using assms by (simp add: row_done_def)
next
  case (Inr s2)
  then show ?thesis using assms import_pair_frame [OF Inr] by (simp add: row_done_def loop_ok_def)
qed

lemma import_row_done:
  assumes "loop_ok pl pass s" "length (snd io) = nonce_len" "\<not> ca_row pl row"
  shows "row_done pl pass s (import_row pl r io row s)"
proof -
  define ep where "ep = resolved_entry_path (ip_cred_scheme pl) (ir_name row)"
  define val where "val = (case ir_secret row of None \<Rightarrow> placeholder_entry_value | Some x \<Rightarrow> x)"
  define s1 where "s1 = (\<lambda>v. s\<lparr>im_vault := v, im_paths := im_paths s @ [ep], im_outcomes := im_outcomes s @ [Imported ep]\<rparr>)"
  let ?set = "vault_set (ip_vault pl) (fst io) (snd io) ep val (im_vault s)"
  define bad where "bad \<longleftrightarrow> \<not> axis_compatible (matcher_debug (r_cred_ref r)) (import_cred_ref pl row) \<or>
      \<not> axis_compatible (matcher_debug (r_target_uri r)) (import_target row)"
  define reason where "reason = import_cred_ref pl row @ '' -> '' @ import_target row @ '': axis-incompatible with rule '' @
      debug_str (ip_rule_name pl) @ '' (a row that can never match is not added)''"
  have eq: "import_row pl r io row s =
     (if bad then (Ok (s\<lparr>im_outcomes := im_outcomes s @ [Failed reason]\<rparr>), im_vault s)
      else if ep \<in> set (im_paths s) then (import_pair pl r row (s\<lparr>im_outcomes := im_outcomes s @ [SkippedExists ep]\<rparr>), im_vault s)
      else if ip_dry_run pl then (import_pair pl r row (s1 (im_vault s)), im_vault s)
      else (case ?set of (Inl e, v) \<Rightarrow> (Err (''vault set '' @ ep @ '': '' @ vault_error_text e), v)
        | (Inr _, v) \<Rightarrow> (import_pair pl r row (s1 v), v)))"
    unfolding import_row_def Let_def ep_def val_def s1_def bad_def reason_def by (rule refl)
  have ok: "vault_ok (ip_vault pl) pass (im_vault s)" "dom (vault_content (ip_vault pl) (im_vault s)) \<subseteq> set (im_paths s)"
    using assms(1) by (simp_all add: loop_ok_def)
  consider "bad" | "\<not> bad" "ep \<in> set (im_paths s)" | "\<not> bad" "ep \<notin> set (im_paths s)" "ip_dry_run pl"
    | "\<not> bad" "ep \<notin> set (im_paths s)" "\<not> ip_dry_run pl" by blast
  then show ?thesis
  proof cases
    case 1
    then show ?thesis using ok by (simp add: eq row_done_def loop_ok_def)
  next
    case 2
    have "row_done pl pass s (import_pair pl r row (s\<lparr>im_outcomes := im_outcomes s @ [SkippedExists ep]\<rparr>), im_vault s)"
      using ok by (intro import_pair_done) (simp_all add: loop_ok_def)
    with 2 show ?thesis by (simp add: eq)
  next
    case 3
    have "row_done pl pass s (import_pair pl r row (s1 (im_vault s)), im_vault s)"
      using ok by (intro import_pair_done) (auto simp: loop_ok_def s1_def)
    with 3 show ?thesis by (simp add: eq)
  next
    case 4
    obtain res v where set: "?set = (res, v)" by fastforce
    have "vault_content (ip_vault pl) (im_vault s) ep = None" using ok(2) 4(2) by blast
    moreover have "\<not> starts_with ep ca_namespace" using assms(3) by (simp add: ca_row_def ep_def)
    ultimately have grows: "vault_grows (ip_vault pl) (im_vault s) v"
      using vault_grows_set [OF ok(1) assms(2), of ep "fst io" val] set by simp
    show ?thesis
    proof (cases res)
      case (Inl e)
      then show ?thesis using 4 set grows by (simp add: eq row_done_def)
    next
      case (Inr u)
      then have "fst io" using vault_set_result [OF ok(1) assms(2), of "fst io" ep val u] set by simp
      then have "loop_ok pl pass (s1 v)"
        using ok set vault_set_ok [OF ok(1) assms(2), of ep val] by (auto simp: loop_ok_def s1_def)
      then have "row_done pl pass s (import_pair pl r row (s1 v), v)"
        using grows 4(3) by (intro import_pair_done) (simp_all add: s1_def)
      then show ?thesis using 4 set Inr by (simp add: eq)
    qed
  qed
qed

definition rows_done :: "import_plan \<Rightarrow> string \<Rightarrow> nat \<Rightarrow> import_state \<Rightarrow> (string, import_state) result \<times> local_vault \<Rightarrow> bool" where
  "rows_done pl pass n s res \<longleftrightarrow> vault_grows (ip_vault pl) (im_vault s) (snd res) \<and> (ip_dry_run pl \<longrightarrow> snd res = im_vault s) \<and>
     (case fst res of Inl _ \<Rightarrow> True | Inr s1 \<Rightarrow> length (im_outcomes s1) = n + length (im_outcomes s))"

lemma import_rows_done:
  assumes "loop_ok pl pass s" "\<And>i. length (snd (io i)) = nonce_len" "\<not> list_ex (ca_row pl) rows"
  shows "rows_done pl pass (length rows) s (import_rows pl r io i rows s)"
  using assms(1,3)
proof (induction rows arbitrary: i s)
  case (Cons row rows)
  have row: "row_done pl pass s (import_row pl r (io i) row s)"
    using Cons.prems assms(2) by (intro import_row_done) auto
  obtain res v where res: "import_row pl r (io i) row s = (res, v)" by fastforce
  show ?case
  proof (cases res)
    case (Inl e)
    then show ?thesis using row res by (simp add: row_done_def rows_done_def)
  next
    case (Inr s1)
    then have s1: "loop_ok pl pass s1" "im_vault s1 = v" "length (im_outcomes s1) = Suc (length (im_outcomes s))"
      "vault_grows (ip_vault pl) (im_vault s) v" "ip_dry_run pl \<longrightarrow> v = im_vault s"
      using row res by (simp_all add: row_done_def)
    have "rows_done pl pass (length rows) s1 (import_rows pl r io (Suc i) rows s1)"
      using Cons s1(1) by simp
    then show ?thesis
      using s1 res Inr by (auto simp: rows_done_def intro: vault_grows_trans split: sum.splits)
  qed
qed (simp add: rows_done_def)

definition row_pair :: "import_plan \<Rightarrow> pair_row \<Rightarrow> inventory_row \<Rightarrow> bool" where
  "row_pair pl p row \<longleftrightarrow> matcher_parse (import_cred_ref pl row) = Ok (p_cred_ref p) \<and> matcher_parse (import_target row) = Ok (p_target_uri p)"

lemma import_row_pairs:
  assumes "fst (import_row pl r io row s) = Ok s1"
  shows "\<exists>ps. im_pairs s1 = im_pairs s @ ps \<and> list_all (\<lambda>p. row_pair pl p row) ps"
proof -
  let ?bad = "\<not> axis_compatible (matcher_debug (r_cred_ref r)) (import_cred_ref pl row) \<or>
      \<not> axis_compatible (matcher_debug (r_target_uri r)) (import_target row)"
  let ?ep = "resolved_entry_path (ip_cred_scheme pl) (ir_name row)"
  let ?set = "vault_set (ip_vault pl) (fst io) (snd io) ?ep (case ir_secret row of None \<Rightarrow> placeholder_entry_value | Some x \<Rightarrow> x) (im_vault s)"
  have pair: "import_pair pl r row s0 = Ok s1 \<Longrightarrow> im_pairs s0 = im_pairs s \<Longrightarrow> \<exists>s0. im_pairs s0 = im_pairs s \<and> import_pair pl r row s0 = Ok s1" for s0
    by blast
  have "im_pairs s1 = im_pairs s \<or> (\<exists>s0. im_pairs s0 = im_pairs s \<and> import_pair pl r row s0 = Ok s1)"
  proof (cases ?bad)
    case True
    then show ?thesis using assms by (auto simp: import_row_def Let_def)
  next
    case good: False
    show ?thesis
    proof (cases "?ep \<in> set (im_paths s)")
      case True
      then show ?thesis using assms good pair by (auto simp: import_row_def Let_def)
    next
      case fresh: False
      obtain res v where set: "?set = (res, v)" by fastforce
      show ?thesis
        using assms good fresh set by (cases "ip_dry_run pl"; cases res) (auto simp: import_row_def Let_def intro: pair)
    qed
  qed
  then show ?thesis
  proof
    assume "im_pairs s1 = im_pairs s"
    then show ?thesis by (intro exI [of _ "[]"]) simp
  next
    assume "\<exists>s0. im_pairs s0 = im_pairs s \<and> import_pair pl r row s0 = Ok s1"
    then obtain s0 where "im_pairs s0 = im_pairs s" "import_pair pl r row s0 = Ok s1" by blast
    with import_pair_adds [OF this(2)] show ?thesis by (simp add: row_pair_def)
  qed
qed

lemma import_rows_pairs:
  "fst (import_rows pl r io i rows s) = Ok s1 \<Longrightarrow>
     \<exists>ps. im_pairs s1 = im_pairs s @ ps \<and> list_all (\<lambda>p. list_ex (row_pair pl p) rows) ps"
proof (induction rows arbitrary: i s)
  case (Cons row rows)
  obtain s0 where s0: "fst (import_row pl r (io i) row s) = Ok s0" "fst (import_rows pl r io (Suc i) rows s0) = Ok s1"
    using Cons.prems by (auto split: prod.splits sum.splits)
  obtain ps where "im_pairs s0 = im_pairs s @ ps" "list_all (\<lambda>p. row_pair pl p row) ps"
    using import_row_pairs [OF s0(1)] by blast
  moreover obtain qs where "im_pairs s1 = im_pairs s0 @ qs" "list_all (\<lambda>p. list_ex (row_pair pl p) rows) qs"
    using Cons.IH [OF s0(2)] by blast
  ultimately show ?case by (intro exI [of _ "ps @ qs"]) (auto simp: list_all_iff)
qed auto

text \<open>An import that gets past its checks leaves the vault of the loop, any other the vault it was given.\<close>

lemma run_import_vault:
  "snd (run_import pl io rows v) = v \<or>
   (\<exists>r paths. vault_list (ip_vault pl) v = Ok paths \<and> List.find (ca_row pl) rows = None \<and>
      snd (run_import pl io rows v) =
        snd (import_rows pl r io 0 rows \<lparr>im_vault = v, im_paths = paths, im_pairs = [], im_outcomes = []\<rparr>))"
proof (cases "import_policy pl")
  case (Inr p)
  show ?thesis
  proof (cases "position_from 0 (\<lambda>r. r_name r = Some (ip_rule_name pl)) (rules p)")
    case None
    then show ?thesis using Inr by (simp add: run_import_def)
  next
    case (Some i)
    show ?thesis
    proof (cases "List.find (ca_row pl) rows = None \<and> (\<exists>paths. vault_list (ip_vault pl) v = Ok paths)")
      case True
      then obtain paths where paths: "List.find (ca_row pl) rows = None" "vault_list (ip_vault pl) v = Ok paths" by blast
      let ?s = "\<lparr>im_vault = v, im_paths = paths, im_pairs = [], im_outcomes = []\<rparr>"
      obtain res v1 where "import_rows pl (rules p ! i) io 0 rows ?s = (res, v1)" by fastforce
      then have "snd (run_import pl io rows v) = snd (import_rows pl (rules p ! i) io 0 rows ?s)"
        using Inr Some paths by (simp add: run_import_def Let_def split: sum.split)
      with paths show ?thesis by blast
    next
      case False
      then show ?thesis using Inr Some by (cases "vault_list (ip_vault pl) v") (auto simp: run_import_def split: option.split)
    qed
  qed
qed (simp add: run_import_def)

section \<open>CSV files\<close>

definition clean_field :: "string \<Rightarrow> bool" where
  "clean_field f \<longleftrightarrow> list_all graphic f \<and> comma \<notin> set f \<and> quote_char \<notin> set f"

definition clean_row :: "inventory_row \<Rightarrow> bool" where
  "clean_row r \<longleftrightarrow> clean_field (ir_name r) \<and> ir_name r \<noteq> [] \<and> clean_field (ir_host r) \<and> ir_host r \<noteq> [] \<and> ir_port r < 2 ^ 16 \<and>
     (case ir_user r of None \<Rightarrow> True | Some u \<Rightarrow> clean_field u \<and> u \<noteq> []) \<and>
     (case ir_secret r of None \<Rightarrow> True | Some u \<Rightarrow> clean_field u \<and> u \<noteq> [])"

definition csv_fields :: "inventory_row \<Rightarrow> string list" where
  "csv_fields r = [ir_name r, ir_host r, dec_of_nat (ir_port r), case ir_user r of None \<Rightarrow> [] | Some u \<Rightarrow> u,
     case ir_secret r of None \<Rightarrow> [] | Some u \<Rightarrow> u]"

text \<open>A file as a fleet tool writes it.\<close>

definition csv_text :: "inventory_row list \<Rightarrow> string" where
  "csv_text rs = concat (map (\<lambda>l. l @ [newline]) (map (join_with [comma]) (csv_columns # map csv_fields rs)))"

lemma clean_trim: "clean_field f \<Longrightarrow> trim f = f"
proof (cases "f = []")
  case False
  assume "clean_field f"
  then have g: "graphic (hd f)" "graphic (last f)" using False by (auto simp: clean_field_def list_all_iff)
  have "trim_start f = f"
    unfolding trim_start_def using g(1) False by (intro trim_left_by_keep ws_not_prefix)
  then show ?thesis using g(2) False by (simp add: trim_def trim_end_graphic)
qed (simp add: trim_def trim_start_def trim_end_def)

lemma clean_dec: "clean_field (dec_of_nat n)"
proof -
  have "graphic x \<and> x \<noteq> comma \<and> x \<noteq> quote_char" if "x \<in> set (dec_of_nat n)" for x
    using dec_of_nat_chars [OF that] by (auto simp: graphic_def comma_def quote_char_def)
  then show ?thesis unfolding clean_field_def list_all_iff by blast
qed

lemma clean_row_fields: "clean_row r \<Longrightarrow> list_all clean_field (csv_fields r)"
  using clean_dec by (auto simp: clean_row_def csv_fields_def clean_field_def split: option.splits)

lemma split_fields:
  "fs \<noteq> [] \<Longrightarrow> list_all (\<lambda>f. c \<notin> set f) fs \<Longrightarrow> split_on c (join_with [c] fs) = fs"
proof (induction fs)
  case (Cons f fs)
  then show ?case by (cases fs) (auto simp: split_on_no_sep split_on_append_sep)
qed simp

lemma join_chars: "x \<in> set (join_with [c] fs) \<Longrightarrow> x = c \<or> (\<exists>f \<in> set fs. x \<in> set f)"
  by (induction "[c]" fs rule: join_with.induct) auto

lemma fields_line:
  assumes "list_all clean_field fs" "2 \<le> length fs"
  shows "list_all graphic (join_with [comma] fs)" "join_with [comma] fs \<noteq> []" "split_on comma (join_with [comma] fs) = fs"
proof -
  show "list_all graphic (join_with [comma] fs)"
    using assms(1) by (auto simp: list_all_iff clean_field_def graphic_def comma_def dest!: join_chars)
  show "join_with [comma] fs \<noteq> []" using assms(2) by (cases fs; cases "tl fs") auto
  show "split_on comma (join_with [comma] fs) = fs"
    using assms by (intro split_fields) (auto simp: list_all_iff clean_field_def)
qed

lemma csv_row_line: "clean_row r \<Longrightarrow> csv_row (join_with [comma] (csv_fields r)) = Ok r"
proof -
  assume r: "clean_row r"
  let ?l = "join_with [comma] (csv_fields r)"
  have fl: "list_all graphic ?l" "?l \<noteq> []" "split_on comma ?l = csv_fields r"
    using fields_line [OF clean_row_fields [OF r]] by (simp_all add: csv_fields_def)
  then have "trim_end ?l = ?l" by (intro trim_end_graphic) (auto simp: list_all_iff)
  then have split: "csv_split ?l = csv_fields r" using fl(3) by (simp add: csv_split_def csv_fields_def)
  have no_check: "csv_check f label = None" if "clean_field f" for f label
    using that by (simp add: csv_check_def clean_field_def)
  have port: "csv_port (csv_fields r) = Ok (ir_port r)"
    using r clean_trim [OF clean_dec] by (simp add: csv_port_def optional_column_def csv_fields_def clean_row_def)
  have user: "optional_column (csv_fields r) 3 = ir_user r" and secret: "optional_column (csv_fields r) 4 = ir_secret r"
    using r clean_trim clean_trim [of "[]"] by (auto simp: optional_column_def clean_field_def [of "[]"] csv_fields_def clean_row_def split: option.splits)
  have fields: "trim (csv_fields r ! 0) = ir_name r" "trim (csv_fields r ! 1) = ir_host r" "length (csv_fields r) = 5"
    using r clean_trim by (simp_all add: csv_fields_def clean_row_def)
  show ?thesis
    unfolding csv_row_def split Let_def port user secret fields
    using r by (auto simp: no_check clean_row_def guard_none_def split: option.splits)
qed

lemma str_lines_concat:
  "list_all (\<lambda>l. newline \<notin> set l \<and> carriage_return \<notin> set l) ls \<Longrightarrow> str_lines (concat (map (\<lambda>l. l @ [newline]) ls)) = ls"
proof (induction ls rule: rev_induct)
  case (snoc l ls)
  have "concat (map (\<lambda>l. l @ [newline]) ls) = [] \<or> last (concat (map (\<lambda>l. l @ [newline]) ls)) = newline"
    by (cases ls rule: rev_cases) simp_all
  then show ?case using snoc str_lines_append_line [of "concat (map (\<lambda>l. l @ [newline]) ls)" l] by simp
qed (simp add: str_lines_def)

lemma graphic_line: "list_all graphic l \<Longrightarrow> newline \<notin> set l \<and> carriage_return \<notin> set l"
  by (auto simp: list_all_iff graphic_def newline_def carriage_return_def)

lemma csv_rows_lines:
  "list_all clean_row rs \<Longrightarrow> csv_rows ln (map (\<lambda>r. join_with [comma] (csv_fields r)) rs) = map Row rs"
proof (induction rs arbitrary: ln)
  case (Cons r rs)
  let ?l = "join_with [comma] (csv_fields r)"
  have fl: "list_all graphic ?l" "?l \<noteq> []"
    using fields_line [OF clean_row_fields, of r] Cons.prems by (simp_all add: csv_fields_def)
  then have "graphic (hd ?l)" "graphic (last ?l)" by (auto simp: list_all_iff)
  then have "trim ?l \<noteq> []"
    using fl(2) trim_left_by_keep [of unicode_ws ?l "length ?l"] ws_not_prefix [of ?l]
    by (simp add: trim_def trim_start_def trim_end_graphic)
  then show ?case using Cons csv_row_line [of r] by (simp add: is_blank_def)
qed simp

section \<open>Sample data\<close>

definition fleet_def :: "string option \<Rightarrow> rule_def" where
  "fleet_def target = \<lparr>rd_effect = ''allow'', rd_name = Some ''fleet'', rd_agent_id = None, rd_cred_ref = Some ''local://f/*'',
     rd_target_uri = target, rd_mechanism = None, rd_pair = [], rd_limits = None, rd_notify = None\<rparr>"

definition sample_plan :: "bool \<Rightarrow> string option \<Rightarrow> import_plan" where
  "sample_plan dry target = \<lparr>ip_crypto = sample_crypto, ip_toml = (\<lambda>doc. Ok [fleet_def target]), ip_quote = id,
     ip_vault = sample_vault_env, ip_policy_doc = [], ip_rule_name = ''fleet'', ip_cred_scheme = ''local://f'', ip_dry_run = dry\<rparr>"

definition sample_row :: "string \<Rightarrow> inventory_row" where
  "sample_row name = \<lparr>ir_name = name, ir_host = ''h'', ir_port = 22, ir_user = None, ir_secret = Some ''s1''\<rparr>"

definition fleet_rule :: rule where
  "fleet_rule = \<lparr>r_name = Some ''fleet'', r_notify_on_use = True, r_effect = Allow, r_agent_id = Any,
     r_cred_ref = Glob ''local://f/*'', r_target_uri = Glob ''ssh://*'', r_mechanism = Any, r_pairs = [], r_limits = no_limits\<rparr>"

lemma sample_plan_policy: "\<exists>p. import_policy (sample_plan dry (Some ''ssh://*'')) = Ok p \<and> rules p = [fleet_rule]"
proof -
  have "read_rules 0 [fleet_def (Some ''ssh://*'')] = Ok [fleet_rule]" by code_simp
  then show ?thesis by (simp add: import_policy_def sample_plan_def from_toml_def)
qed

lemma sample_row_axes:
  "axis_compatible (matcher_debug (r_cred_ref fleet_rule)) (import_cred_ref (sample_plan dry t) (sample_row n))"
  "axis_compatible (matcher_debug (r_target_uri fleet_rule)) (import_target (sample_row n))"
proof -
  have "split_once (''local://f/'' @ n) ''://'' = Some (''local'', ''f/'' @ n)" by (simp add: split_once_def)
  moreover have "contains_sub (matcher_debug (Glob ''local://f/*'')) ''local''" by code_simp
  ultimately show "axis_compatible (matcher_debug (r_cred_ref fleet_rule)) (import_cred_ref (sample_plan dry t) (sample_row n))"
    by (simp add: axis_compatible_def fleet_rule_def import_cred_ref_def sample_plan_def sample_row_def)
  have "split_once (''ssh://h:'' @ dec_of_nat 22) ''://'' = Some (''ssh'', ''h:'' @ dec_of_nat 22)" by (simp add: split_once_def)
  moreover have "contains_sub (matcher_debug (Glob ''ssh://*'')) ''ssh''" by code_simp
  ultimately show "axis_compatible (matcher_debug (r_target_uri fleet_rule)) (import_target (sample_row n))"
    by (simp add: axis_compatible_def fleet_rule_def import_target_def sample_row_def)
qed

lemma sample_row_path: "resolved_entry_path (ip_cred_scheme (sample_plan dry t)) (ir_name (sample_row n)) = ''f/'' @ n"
  by (simp add: resolved_entry_path_def sample_plan_def sample_row_def split_once_def)

lemma sample_row_ca: "\<not> ca_row (sample_plan dry t) (sample_row n)"
  by (simp only: ca_row_def sample_row_path) (simp add: ca_namespace_def)

definition fleet_pair :: pair_row where
  "fleet_pair = \<lparr>p_cred_ref = Exact ''local://f/a'', p_target_uri = Exact ''ssh://h:22''\<rparr>"

lemma sample_target: "import_target (sample_row n) = ''ssh://h:22''"
  by (simp add: import_target_def sample_row_def dec_of_nat_def digits_of.simps)

lemma sample_first_pair:
  "im_pairs s = [] \<Longrightarrow> import_pair (sample_plan dry t) fleet_rule (sample_row ''a'') s = Ok (s\<lparr>im_pairs := [fleet_pair]\<rparr>)"
proof -
  have "matcher_parse ''local://f/a'' = Ok (Exact ''local://f/a'')" "matcher_parse ''ssh://h:22'' = Ok (Exact ''ssh://h:22'')"
    by code_simp+
  moreover have "import_cred_ref (sample_plan dry t) (sample_row ''a'') = ''local://f/a''"
    by (simp add: import_cred_ref_def sample_plan_def sample_row_def)
  moreover assume "im_pairs s = []"
  ultimately show ?thesis by (simp add: import_pair_def Let_def sample_target fleet_rule_def fleet_pair_def)
qed

abbreviation first_write :: "local_vault \<Rightarrow> (vault_error, unit) result \<times> local_vault" where
  "first_write v \<equiv> vault_set sample_vault_env True sample_nonce ''f/a'' ''s1'' v"

lemma sample_first_row:
  assumes "vault_ok sample_vault_env ''pw'' v"
  shows "import_row (sample_plan False t) fleet_rule (True, sample_nonce) (sample_row ''a'')
       \<lparr>im_vault = v, im_paths = [], im_pairs = [], im_outcomes = []\<rparr> =
     (Ok \<lparr>im_vault = snd (first_write v), im_paths = [''f/a''], im_pairs = [fleet_pair], im_outcomes = [Imported ''f/a'']\<rparr>, snd (first_write v))"
proof -
  have nonce: "length sample_nonce = nonce_len" by (simp add: sample_nonce_def nonce_len_def)
  then obtain v1 where "first_write v = (Ok (), v1)" using vault_set_ok(1) [OF assms nonce] by (metis prod.collapse)
  moreover have "ip_vault (sample_plan False t) = sample_vault_env" "\<not> ip_dry_run (sample_plan False t)"
    "ir_secret (sample_row ''a'') = Some ''s1''" by (simp_all add: sample_plan_def sample_row_def)
  ultimately show ?thesis
    unfolding import_row_def Let_def sample_row_path by (simp add: sample_row_axes sample_first_pair)
qed

lemma sample_run:
  assumes "vault_ok sample_vault_env ''pw'' v" "vault_content sample_vault_env v = Map.empty" "\<not> list_ex (ca_row (sample_plan False (Some ''ssh://*''))) rows"
  shows "\<exists>p. import_policy (sample_plan False (Some ''ssh://*'')) = Ok p \<and> rules p = [fleet_rule] \<and>
     run_import (sample_plan False (Some ''ssh://*'')) io rows v =
     (case import_rows (sample_plan False (Some ''ssh://*'')) fleet_rule io 0 rows \<lparr>im_vault = v, im_paths = [], im_pairs = [], im_outcomes = []\<rparr> of
        (Inl e, v1) \<Rightarrow> (Err e, v1)
      | (Inr s, v1) \<Rightarrow> (Ok (im_outcomes s, to_toml id (from_rules (add_pairs 0 (im_pairs s) [fleet_rule]))), v1))"
proof -
  let ?pl = "sample_plan False (Some ''ssh://*'')"
  obtain p where p: "import_policy ?pl = Ok p" "rules p = [fleet_rule]" using sample_plan_policy by blast
  obtain m where m: "decrypt_entries sample_vault_env v = Ok m" "vault_content sample_vault_env v = map_of m"
    using assms(1) by (rule vault_ok_entries)
  then have "m = []" using assms(2) by (simp add: map_of_eq_empty_iff)
  then have l: "vault_list sample_vault_env v = Ok []" using m by (simp add: vault_list_def bt_keys_def)
  have f: "\<exists>q. from_toml sample_crypto (\<lambda>doc. Ok [fleet_def (Some ''ssh://*'')]) doc = Ok q" for doc
  proof -
    have "read_rules 0 [fleet_def (Some ''ssh://*'')] = Ok [fleet_rule]" by code_simp
    then show ?thesis by (simp add: from_toml_def)
  qed
  have none: "List.find (ca_row ?pl) rows = None" using assms(3) by (simp add: find_None_iff list_ex_iff)
  have pos: "r_name fleet_rule = Some (ip_rule_name ?pl)"
    by (simp add: fleet_rule_def sample_plan_def)
  have sel: "ip_vault ?pl = sample_vault_env" "\<not> ip_dry_run ?pl" "ip_crypto ?pl = sample_crypto" "ip_quote ?pl = id"
    "ip_toml ?pl = (\<lambda>doc. Ok [fleet_def (Some ''ssh://*'')])" by (simp_all add: sample_plan_def)
  obtain res v1 where rows: "import_rows ?pl fleet_rule io 0 rows \<lparr>im_vault = v, im_paths = [], im_pairs = [], im_outcomes = []\<rparr> = (res, v1)"
    by fastforce
  have "run_import ?pl io rows v = (case (res, v1) of (Inl e, v1) \<Rightarrow> (Err e, v1)
      | (Inr s, v1) \<Rightarrow> (Ok (im_outcomes s, to_toml id (from_rules (add_pairs 0 (im_pairs s) [fleet_rule]))), v1))"
  proof (cases res)
    case (Inl e)
    then show ?thesis using rows by (simp add: run_import_def p pos none sel l)
  next
    case (Inr s)
    obtain q where "from_toml sample_crypto (\<lambda>doc. Ok [fleet_def (Some ''ssh://*'')])
        (to_toml id (from_rules (add_pairs 0 (im_pairs s) [fleet_rule]))) = Ok q" using f by blast
    then show ?thesis using rows Inr by (simp add: run_import_def p pos none sel l Let_def)
  qed
  with p rows show ?thesis by simp
qed

section \<open>Theorems\<close>

text \<open>
  (C32) An import loses nothing: whatever the rows, the rule file and the outcomes of the vault's writes,
  and also when it stops with an error, every entry that the vault held keeps its secret, nothing is
  written into the namespace of the certificate authority, and a dry run leaves the vault as it is.
\<close>

theorem import_keeps_entries:
  assumes "vault_ok (ip_vault pl) pass v" and "\<And>i. length (snd (io i)) = nonce_len"
  shows "vault_grows (ip_vault pl) v (snd (run_import pl io rows v)) \<and> (ip_dry_run pl \<longrightarrow> snd (run_import pl io rows v) = v)"
proof -
  have rows: "rows_done pl pass (length rows) s (import_rows pl r io 0 rows s)"
    if "s = \<lparr>im_vault = v, im_paths = paths, im_pairs = [], im_outcomes = []\<rparr>" "vault_list (ip_vault pl) v = Ok paths"
      "List.find (ca_row pl) rows = None" for s paths r
  proof (rule import_rows_done [OF _ assms(2)])
    show "\<not> list_ex (ca_row pl) rows" using that(3) by (simp add: find_None_iff list_ex_iff)
    obtain m where "decrypt_entries (ip_vault pl) v = Ok m" "vault_content (ip_vault pl) v = map_of m"
      using assms(1) by (rule vault_ok_entries)
    then have "set paths = dom (vault_content (ip_vault pl) v)" using that(2) by (auto simp: vault_list_def set_bt_keys)
    then show "loop_ok pl pass s" using assms(1) that(1) by (simp add: loop_ok_def)
  qed
  consider "snd (run_import pl io rows v) = v"
    | r paths where "vault_list (ip_vault pl) v = Ok paths" "List.find (ca_row pl) rows = None"
      "snd (run_import pl io rows v) = snd (import_rows pl r io 0 rows \<lparr>im_vault = v, im_paths = paths, im_pairs = [], im_outcomes = []\<rparr>)"
    using run_import_vault [of pl io rows v] by blast
  then show ?thesis
  proof cases
    case (2 r paths)
    then show ?thesis using rows [OF refl 2(1,2), of r] by (simp add: rows_done_def)
  qed simp
qed

theorem import_keeps_entries_witness:
  "\<exists>v. vault_ok sample_vault_env ''pw'' v \<and>
     vault_grows sample_vault_env v (snd (run_import (sample_plan False (Some ''ssh://*'')) (\<lambda>i. (i = 0, sample_nonce)) [sample_row ''a'', sample_row ''b''] v))"
proof -
  obtain v where v: "vault_ok sample_vault_env ''pw'' v" by (rule sample_vault)
  let ?pl = "sample_plan False (Some ''ssh://*'')"
  have pl: "ip_vault ?pl = sample_vault_env" by (simp add: sample_plan_def)
  have "length (snd (i = (0 :: nat), sample_nonce)) = nonce_len" for i by (simp add: sample_nonce_def nonce_len_def)
  from import_keeps_entries [of ?pl "''pw''" v "\<lambda>i. (i = 0, sample_nonce)" "[sample_row ''a'', sample_row ''b'']", OF _ this] v
  show ?thesis unfolding pl by blast
qed

text \<open>
  What an import does to the rules: when it succeeds and is not a dry run, the new document is the rule
  list of the old one with pairs appended to the named rule and nothing else changed, each of the pairs is
  read from a row of the inventory, and there is one line of summary for every row.
\<close>

theorem import_only_adds_pairs:
  assumes "vault_ok (ip_vault pl) pass v" and "\<And>i. length (snd (io i)) = nonce_len"
    and "fst (run_import pl io rows v) = Ok (outs, doc)" and "\<not> ip_dry_run pl"
  shows "\<exists>p i new_pairs. import_policy pl = Ok p \<and>
     position_from 0 (\<lambda>r. r_name r = Some (ip_rule_name pl)) (rules p) = Some i \<and>
     doc = to_toml (ip_quote pl) (from_rules (add_pairs i new_pairs (rules p))) \<and>
     list_all (\<lambda>q. list_ex (row_pair pl q) rows) new_pairs \<and> length outs = length rows"
proof -
  obtain p i paths s where run: "import_policy pl = Ok p"
    "position_from 0 (\<lambda>r. r_name r = Some (ip_rule_name pl)) (rules p) = Some i"
    "List.find (ca_row pl) rows = None" "vault_list (ip_vault pl) v = Ok paths"
    "fst (import_rows pl (rules p ! i) io 0 rows \<lparr>im_vault = v, im_paths = paths, im_pairs = [], im_outcomes = []\<rparr>) = Ok s"
    "doc = to_toml (ip_quote pl) (from_rules (add_pairs i (im_pairs s) (rules p)))" "outs = im_outcomes s"
    using assms(3,4) unfolding run_import_def Let_def
    by (auto split: sum.splits option.splits prod.splits)
  let ?s = "\<lparr>im_vault = v, im_paths = paths, im_pairs = [], im_outcomes = []\<rparr>"
  obtain m where "decrypt_entries (ip_vault pl) v = Ok m" "vault_content (ip_vault pl) v = map_of m"
    using assms(1) by (rule vault_ok_entries)
  then have "loop_ok pl pass ?s" using assms(1) run(4) by (auto simp: loop_ok_def vault_list_def set_bt_keys)
  moreover have "\<not> list_ex (ca_row pl) rows" using run(3) by (simp add: find_None_iff list_ex_iff)
  ultimately have "rows_done pl pass (length rows) ?s (import_rows pl (rules p ! i) io 0 rows ?s)"
    by (intro import_rows_done assms(2))
  then have "length outs = length rows" using run(5,7) by (simp add: rows_done_def)
  moreover have "list_all (\<lambda>q. list_ex (row_pair pl q) rows) (im_pairs s)" using import_rows_pairs [OF run(5)] by simp
  ultimately show ?thesis using run by blast
qed

text \<open>
  CSV files read back: a file with the header and one line per row yields exactly the rows, for
  fields without blanks, commas and quotation marks.
\<close>

theorem csv_reads_back:
  assumes "list_all clean_row rs"
  shows "parse_csv (csv_text rs) = \<lparr>po_rows = map Row rs, po_warnings = []\<rparr>"
proof -
  have cols: "list_all clean_field csv_columns" by code_simp
  have clean: "list_all clean_field fs \<Longrightarrow> newline \<notin> set (join_with [comma] fs) \<and> carriage_return \<notin> set (join_with [comma] fs)" for fs
    using graphic_line by (auto simp: list_all_iff clean_field_def comma_def newline_def carriage_return_def graphic_def dest!: join_chars)
  have "str_lines (csv_text rs) = map (join_with [comma]) (csv_columns # map csv_fields rs)"
    unfolding csv_text_def
    using assms clean cols clean_row_fields by (intro str_lines_concat) (auto simp: list_all_iff)
  then have lines: "str_lines (csv_text rs) = join_with [comma] csv_columns # map (\<lambda>r. join_with [comma] (csv_fields r)) rs"
    by (simp add: comp_def)
  have "map trim (split_on comma (trim (join_with [comma] csv_columns))) = csv_columns" by code_simp
  then show ?thesis using csv_rows_lines [OF assms] by (simp add: parse_csv_def lines)
qed

theorem csv_reads_back_witness:
  "parse_csv (csv_text [sample_row ''a'', sample_row ''b'']) = \<lparr>po_rows = [Row (sample_row ''a''), Row (sample_row ''b'')], po_warnings = []\<rparr>"
proof -
  have "list_all clean_row [sample_row ''a'', sample_row ''b'']"
    by (simp add: clean_row_def sample_row_def clean_field_def graphic_def comma_def quote_char_def)
  from csv_reads_back [OF this] show ?thesis by simp
qed

theorem import_only_adds_pairs_witness:
  "\<exists>v outs doc i new_pairs. vault_ok sample_vault_env ''pw'' v \<and>
     fst (run_import (sample_plan False (Some ''ssh://*'')) (\<lambda>i. (True, sample_nonce)) [sample_row ''a''] v) = Ok (outs, doc) \<and>
     doc = to_toml id (from_rules (add_pairs i new_pairs [fleet_rule])) \<and>
     list_all (\<lambda>q. list_ex (row_pair (sample_plan False (Some ''ssh://*'')) q) [sample_row ''a'']) new_pairs \<and> length outs = 1"
proof -
  let ?pl = "sample_plan False (Some ''ssh://*'')"
  obtain v where v: "vault_ok sample_vault_env ''pw'' v" "vault_content sample_vault_env v = Map.empty" by (rule sample_vault)
  have "\<not> list_ex (ca_row ?pl) [sample_row ''a'']" by (simp add: sample_row_ca)
  from sample_run [OF v this, of "\<lambda>i. (True, sample_nonce)"] obtain p outs doc where
    p: "import_policy ?pl = Ok p" "rules p = [fleet_rule]" and
    run: "fst (run_import ?pl (\<lambda>i. (True, sample_nonce)) [sample_row ''a''] v) = Ok (outs, doc)"
    by (auto simp: sample_first_row [OF v(1)])
  have sel: "ip_vault ?pl = sample_vault_env" "\<not> ip_dry_run ?pl" "ip_quote ?pl = id" by (simp_all add: sample_plan_def)
  have nonce: "length (snd (True, sample_nonce)) = nonce_len" for i :: nat by (simp add: sample_nonce_def nonce_len_def)
  have "vault_ok (ip_vault ?pl) ''pw'' v" using v(1) by (simp only: sel)
  from import_only_adds_pairs [OF this nonce run sel(2)] obtain i new_pairs where
    "doc = to_toml id (from_rules (add_pairs i new_pairs [fleet_rule]))"
    "list_all (\<lambda>q. list_ex (row_pair ?pl q) [sample_row ''a'']) new_pairs" "length outs = 1"
    unfolding sel(3) using p by auto
  with v(1) run show ?thesis by blast
qed

text \<open>
  A failed import is not undone: when the write of a later row fails, the command reports an error,
  and the entries of the earlier rows are in the vault's file, without pair rows.
\<close>

theorem failed_import_leaves_entries:
  "\<exists>v e v1 v2. vault_ok sample_vault_env ''pw'' v \<and> vault_content sample_vault_env v = Map.empty \<and>
     run_import (sample_plan False (Some ''ssh://*'')) (\<lambda>i. (i = 0, sample_nonce)) [sample_row ''a'', sample_row ''b''] v = (Err e, v1) \<and>
     vault_open sample_vault_env (Some (lv_file v1)) ''pw'' = Ok v2 \<and> vault_content sample_vault_env v2 ''f/a'' = Some ''s1''"
proof -
  let ?pl = "sample_plan False (Some ''ssh://*'')"
  obtain v where v: "vault_ok sample_vault_env ''pw'' v" "vault_content sample_vault_env v = Map.empty" by (rule sample_vault)
  have nonce: "length sample_nonce = nonce_len" by (simp add: sample_nonce_def nonce_len_def)
  define va where "va = snd (first_write v)"
  have va: "vault_ok sample_vault_env ''pw'' va" "vault_content sample_vault_env va = [''f/a'' \<mapsto> ''s1'']"
    using vault_set_ok [OF v(1) nonce, of "''f/a''" "''s1''"] v(2) by (simp_all add: va_def)
  let ?s = "\<lparr>im_vault = va, im_paths = [''f/a''], im_pairs = [fleet_pair], im_outcomes = [Imported ''f/a'']\<rparr>"
  obtain m where m: "decrypt_entries sample_vault_env va = Ok m" "bt_ok m" using va(1) by (rule vault_ok_entries)
  obtain ct where "rewrite sample_vault_env False sample_nonce (bt_insert ''f/b'' ''s1'' m) va =
      vault_persist sample_vault_env False (va\<lparr>lv_body_nonce := sample_nonce, lv_body_ciphertext := ct\<rparr>)"
    by (rule rewrite_ok [OF sample_vault_laws bt_ok_insert [OF m(2), of "''f/b''" "''s1''"]])
  then obtain vb where set: "vault_set sample_vault_env False sample_nonce ''f/b'' ''s1'' va = (Err VaultIo, vb)" "lv_file vb = lv_file va"
    using m(1) by (simp add: vault_set_def vault_persist_def)
  have sel: "ip_vault ?pl = sample_vault_env" "\<not> ip_dry_run ?pl" "ir_secret (sample_row ''b'') = Some ''s1''"
    by (simp_all add: sample_plan_def sample_row_def)
  have "\<exists>e. import_row ?pl fleet_rule (False, sample_nonce) (sample_row ''b'') ?s = (Err e, vb)"
    unfolding import_row_def Let_def sample_row_path using set(1) by (simp add: sample_row_axes sel)
  then obtain e where "import_rows ?pl fleet_rule (\<lambda>i. (i = 0, sample_nonce)) 0 [sample_row ''a'', sample_row ''b'']
      \<lparr>im_vault = v, im_paths = [], im_pairs = [], im_outcomes = []\<rparr> = (Err e, vb)"
    using sample_first_row [OF v(1), of "Some ''ssh://*''"] by (auto simp: va_def)
  moreover have "\<not> list_ex (ca_row ?pl) [sample_row ''a'', sample_row ''b'']" by (simp add: sample_row_ca)
  ultimately have "run_import ?pl (\<lambda>i. (i = 0, sample_nonce)) [sample_row ''a'', sample_row ''b''] v = (Err e, vb)"
    using sample_run [OF v, of "[sample_row ''a'', sample_row ''b'']" "\<lambda>i. (i = 0, sample_nonce)"] by auto
  moreover have "vault_open sample_vault_env (Some (lv_file vb)) ''pw'' = Ok va"
    using vault_open_ok [OF va(1)] by (simp add: set(2))
  ultimately show ?thesis using v va(2) by auto
qed

text \<open>
  A rule that is open on its target cannot receive rows: the check compares the scheme of the row with
  the debug text of the matcher, which for an open axis is the word \<^verbatim>\<open>Any\<close>, so every row is reported as
  one that can never match, although the axis matches every target.
\<close>

theorem open_rule_refuses_rows:
  assumes "r_target_uri r = Any"
  shows "\<exists>reason. import_row pl r io row s = (Ok (s\<lparr>im_outcomes := im_outcomes s @ [Failed reason]\<rparr>), im_vault s) \<and>
     matcher_matches (r_target_uri r) (import_target row)"
proof -
  have "split_once (import_target row) ''://'' = Some (''ssh'', ir_host row @ '':'' @ dec_of_nat (ir_port row))"
    by (simp add: import_target_def split_once_def)
  moreover have "\<not> contains_sub (matcher_debug Any) ''ssh''" by code_simp
  ultimately have "\<not> axis_compatible (matcher_debug (r_target_uri r)) (import_target row)"
    using assms by (simp add: axis_compatible_def)
  then show ?thesis unfolding import_row_def Let_def using assms by (simp only: simp_thms if_True matcher_matches.simps) blast
qed

theorem open_rule_refuses_rows_witness:
  "\<exists>reason v. fst (import_row (sample_plan False None) (fleet_rule\<lparr>r_target_uri := Any\<rparr>) (True, []) (sample_row ''a'')
      \<lparr>im_vault = v, im_paths = [], im_pairs = [], im_outcomes = []\<rparr>) =
      Ok \<lparr>im_vault = v, im_paths = [], im_pairs = [], im_outcomes = [Failed reason]\<rparr>"
proof -
  fix v
  let ?s = "\<lparr>im_vault = v, im_paths = [], im_pairs = [], im_outcomes = []\<rparr>" and ?r = "fleet_rule\<lparr>r_target_uri := Any\<rparr>"
  have "r_target_uri ?r = Any" by simp
  then obtain reason where
    "import_row (sample_plan False None) ?r (True, []) (sample_row ''a'') ?s = (Ok (?s\<lparr>im_outcomes := im_outcomes ?s @ [Failed reason]\<rparr>), v)"
    using open_rule_refuses_rows [of ?r "sample_plan False None" "(True, [])" "sample_row ''a''" ?s] by auto
  then show ?thesis by (intro exI [of _ reason] exI [of _ v]) simp
qed

text \<open>
  A row can be taken for another: rows are compared with the existing pairs by containment of their
  texts. A row for \<^verbatim>\<open>app-1\<close> at port 22 is not added when there is a pair for \<^verbatim>\<open>app-10\<close> at
  port 2222 of the same host, and that pair does not authorize it.
\<close>

theorem similar_row_is_dropped:
  "\<exists>r row s. import_pair (sample_plan False None) r row s = Ok s \<and> im_pairs s = [] \<and>
     \<not> list_ex (\<lambda>p. matcher_matches (p_cred_ref p) (import_cred_ref (sample_plan False None) row) \<and>
        matcher_matches (p_target_uri p) (import_target row)) (r_pairs r)"
proof -
  let ?pl = "sample_plan False None"
  let ?row = "\<lparr>ir_name = ''app-1'', ir_host = ''h'', ir_port = 22, ir_user = None, ir_secret = None\<rparr>"
  let ?p = "\<lparr>p_cred_ref = Exact ''local://f/app-10'', p_target_uri = Exact ''ssh://h:2222''\<rparr>"
  let ?r = "fleet_rule\<lparr>r_pairs := [?p]\<rparr>"
  have row: "import_cred_ref ?pl ?row = ''local://f/app-1''" "import_target ?row = ''ssh://h:22''"
    by (simp_all add: import_cred_ref_def sample_plan_def import_target_def dec_of_nat_def digits_of.simps)
  have "pair_mentions ''local://f/app-1'' ''ssh://h:22'' ?p" by code_simp
  then show ?thesis
    by (intro exI [of _ ?r] exI [of _ ?row] exI [of _ "\<lparr>im_vault = undefined, im_paths = [], im_pairs = [], im_outcomes = []\<rparr>"])
      (simp add: import_pair_def Let_def row)
qed

text \<open>
  A wildcard in the inventory becomes a wildcard in the policy: a CSV row whose host is a star is
  accepted, and its pair matches every target at that port.
\<close>

theorem wildcard_row_widens:
  "\<exists>row. csv_row ''x,*,22,,'' = Ok row \<and> matcher_parse (import_target row) = Ok (Glob ''ssh://*:22'') \<and>
     matcher_matches (Glob ''ssh://*:22'') (''ssh://'' @ h @ '':22'')"
proof -
  let ?row = "\<lparr>ir_name = ''x'', ir_host = ''*'', ir_port = 22, ir_user = None, ir_secret = None\<rparr>"
  have "clean_row ?row" by (simp add: clean_row_def clean_field_def graphic_def comma_def quote_char_def)
  moreover have "join_with [comma] (csv_fields ?row) = ''x,*,22,,''"
    by (simp add: csv_fields_def comma_def dec_of_nat_def digits_of.simps)
  ultimately have line: "csv_row ''x,*,22,,'' = Ok ?row" using csv_row_line [of ?row] by simp
  have "import_target ?row = ''ssh://*:22''" by (simp add: import_target_def dec_of_nat_def digits_of.simps)
  moreover have "matcher_parse ''ssh://*:22'' = Ok (Glob ''ssh://*:22'')" by code_simp
  moreover have "matcher_matches (Glob ''ssh://*:22'') (''ssh://'' @ h @ '':22'')"
    by (simp add: glob_match_def star_def ends_with_def)
  ultimately show ?thesis using line by (intro exI [of _ ?row]) simp
qed

text \<open>
  The reader of \<^verbatim>\<open>ssh_config\<close> files panics on a \<^verbatim>\<open>Host\<close> line without a name that is followed by a
  \<^verbatim>\<open>HostName\<close>.
\<close>

theorem nameless_host_panics:
  "parse_ssh_config (''Host'' @ [newline] @ ''HostName h'' @ [newline]) = None"
  by code_simp

end
