(* ===== verification/Ui_Access.thy ===== *)
theory Ui_Access
  imports Protocol
begin

unbundle bit_operations_syntax

text \<open>
  The entrance of the operator web interface (\<^verbatim>\<open>crates/ui/src/lib.rs\<close>, \<^verbatim>\<open>token.rs\<close>, \<^verbatim>\<open>render.rs\<close>
  and the helpers of \<^verbatim>\<open>state.rs\<close> and \<^verbatim>\<open>setup.rs\<close>): the file writer, the access token, the
  Host and Origin guard, the token gate, the page that takes the token, and the escaping of
  text for HTML and for query strings.

  The HTTP library is not modelled: a request is what it hands to the middleware (method, path,
  query, the three headers the code reads, the decoded parameters and form fields), and
  whether a text is acceptable as a header value is an argument.
\<close>

section \<open>Files\<close>

datatype path_entry = Missing | Directory | File bytes

record file_path =
  fp_text :: string
  fp_parent :: string

text \<open>The outcomes of the system calls of one write, in the order they are made.\<close>

record write_io =
  wi_create_dir :: "(string, unit) result"
  wi_temp :: "(string, unit) result"
  wi_write :: "(string, unit) result"
  wi_flush :: "(string, unit) result"
  wi_chmod :: "(string, unit) result"
  wi_persist :: "(string, unit) result"

definition ui_atomic_write :: "file_path \<Rightarrow> write_io \<Rightarrow> bytes \<Rightarrow> path_entry \<Rightarrow> (string, unit) result \<times> path_entry" where
  "ui_atomic_write p io contents entry =
     (case bind_res (map_sum (\<lambda>e. ''create '' @ fp_parent p @ '': '' @ e) id (wi_create_dir io)) (\<lambda>_.
           bind_res (map_sum (\<lambda>e. ''temp file in '' @ fp_parent p @ '': '' @ e) id (wi_temp io)) (\<lambda>_.
           bind_res (wi_write io) (\<lambda>_.
           bind_res (wi_flush io) (\<lambda>_.
           bind_res (wi_chmod io) (\<lambda>_.
             map_sum (\<lambda>e. ''persist '' @ fp_text p @ '': '' @ e) id (wi_persist io)))))) of
        Inl e \<Rightarrow> (Err e, entry)
      | Inr _ \<Rightarrow> (Ok (), File contents))"

section \<open>Text\<close>

definition esc_char :: "char \<Rightarrow> string" where
  "esc_char c =
     (if c = CHR ''&'' then ''&amp;''
      else if c = CHR ''<'' then ''&lt;''
      else if c = CHR ''>'' then ''&gt;''
      else if c = CHR 0x22 then ''&quot;''
      else if c = CHR 0x27 then ''&#39;''
      else [c])"

definition esc :: "string \<Rightarrow> string" where
  "esc raw = concat (map esc_char raw)"

definition field :: "string \<Rightarrow> string \<Rightarrow> string" where
  "field label input = ''<p><label><strong>'' @ esc label @ ''</strong><br>'' @ input @ ''</label></p>''"

definition effect_badge :: "string \<Rightarrow> string" where
  "effect_badge effect =
     ''<span class=\"badge '' @
     (if effect = ''allow'' then ''allow'' else if effect = ''deny'' then ''deny'' else ''confirm'') @
     ''\">'' @ esc effect @ ''</span>''"

definition style_sheet :: string where
  "style_sheet =
     ''body{font-family:system-ui,sans-serif;margin:0;background:#f6f7f9;color:#1a1d21}'' @
     ''header{background:#101418;color:#fff;padding:.8rem '' @
       ''1.2rem;display:flex;gap:1.2rem;align-items:center}'' @
     ''header a{color:#9fd0ff;text-decoration:none;font-weight:600}'' @
     ''main{max-width:56rem;margin:1.2rem auto;padding:0 1rem}'' @
     ''h1{font-size:1.3rem} h2{font-size:1.05rem;margin-top:1.6rem}'' @
     ''table{border-collapse:collapse;width:100%;background:#fff}'' @
     ''th,td{border:1px solid #d8dde3;padding:.45rem .6rem;text-align:left;font-size:.92rem}'' @
     ''th{background:#eef1f4}'' @
     ''input,select,textarea{font:inherit;padding:.35rem;border:1px solid '' @
       ''#b8c0c8;border-radius:4px;width:100%;box-sizing:border-box}'' @
     ''form.inline{display:inline}'' @
     ''.card{background:#fff;border:1px solid #d8dde3;border-radius:6px;padding:1rem '' @
       ''1.2rem;margin-bottom:1rem}'' @
     ''.ok{background:#e5f6ec;border:1px solid #9adbb4;padding:.55rem '' @
       ''.8rem;border-radius:6px;margin:.6rem 0}'' @
     ''.err{background:#fdeceb;border:1px solid #f2a69d;padding:.55rem '' @
       ''.8rem;border-radius:6px;margin:.6rem 0}'' @
     ''.halt{background:#2b0b0b;color:#ffd9d4;border:1px solid #a33;padding:.7rem '' @
       ''.9rem;border-radius:6px;margin:.6rem 0;font-weight:600}'' @
     ''.badge{font-size:.8rem;padding:.15rem .5rem;border-radius:10px;border:1px solid '' @
       ''#b8c0c8;background:#eef1f4}'' @
     ''.allow{background:#e5f6ec}.deny{background:#fdeceb}.confirm{background:#fdf6e3}'' @
     ''.muted{color:#66707a;font-size:.85rem}'' @
     ''button{font:inherit;padding:.4rem .9rem;border-radius:4px;border:1px solid '' @
       ''#2b62a8;background:#2b62a8;color:#fff;cursor:pointer}'' @
     ''button.danger{background:#a83232;border-color:#a83232}'' @
     ''.grid{display:grid;grid-template-columns:minmax(0,1fr) minmax(0,1fr);gap:1rem}'' @
     ''code{background:#eef1f4;padding:.05rem .3rem;border-radius:3px}''"

definition nav_links :: "(string \<times> string) list" where
  "nav_links = [(''/'', ''Status''), (''/rules'', ''Rules''), (''/secrets'', ''Secrets''),
     (''/agents'', ''Agents''), (''/setup'', ''Setup'')]"

definition layout ::
    "string \<Rightarrow> nat \<Rightarrow> string option \<Rightarrow> string option \<Rightarrow> string option \<Rightarrow> string \<Rightarrow> string" where
  "layout title setup_pending halted flash_ok flash_err body =
     ''<!doctype html><html lang=\"en\"><head><meta charset=\"utf-8\">'' @
     ''<meta name=\"viewport\" content=\"width=device-width,initial-scale=1\">'' @
     ''<title>Chaperone '' @ [CHR 0xE2, CHR 0x80, CHR 0x94] @ '' '' @ esc title @ ''</title><style>'' @
       style_sheet @ ''</style></head><body>'' @
     ''<header><strong style=\"letter-spacing:.06em\">CHAPERONE</strong>'' @
     concat (map (\<lambda>(href, label). ''<a href=\"'' @ href @ ''\">'' @ label @ ''</a>'') nav_links) @
     (if 0 < setup_pending then
        ''<span class=\"badge\" style=\"margin-left:auto;border-color:#e6b35a;background:#3a2f14;color:#ffdf9'' @
          ''e\">'' @
        dec_of_nat setup_pending @ '' setup step'' @ (if setup_pending = 1 then [] else ''s'') @ '' pending</span>''
      else []) @
     ''</header><main>'' @
     (case halted of None \<Rightarrow> [] | Some reason \<Rightarrow>
        ''<div class=\"halt\">Gateway halted '' @ [CHR 0xE2, CHR 0x80, CHR 0x94] @ '' brokering stopped. '' @
          esc reason @
        '' Restart <code>chaperone serve</code> to resume.</div>'') @
     (case flash_ok of None \<Rightarrow> [] | Some m \<Rightarrow> ''<div class=\"ok\">'' @ esc m @ ''</div>'') @
     (case flash_err of None \<Rightarrow> [] | Some m \<Rightarrow> ''<div class=\"err\">'' @ esc m @ ''</div>'') @
     body @ ''</main></body></html>''"

text \<open>\<^verbatim>\<open>urlenc\<close>: every byte outside the unreserved set as a percent escape.\<close>

definition unreserved :: "char \<Rightarrow> bool" where
  "unreserved c \<longleftrightarrow> (let n = (of_char c :: nat) in
     65 \<le> n \<and> n \<le> 90 \<or> 97 \<le> n \<and> n \<le> 122 \<or> 48 \<le> n \<and> n \<le> 57 \<or> c \<in> {CHR ''-'', CHR ''_'', CHR ''.'', CHR ''~''})"

definition urlenc_byte :: "char \<Rightarrow> string" where
  "urlenc_byte c = (let n = (of_char c :: nat) in
     if unreserved c then [c]
     else [CHR ''%'', ''0123456789ABCDEF'' ! (n div 16), ''0123456789ABCDEF'' ! (n mod 16)])"

definition urlenc :: "string \<Rightarrow> string" where
  "urlenc s = concat (map urlenc_byte s)"

text \<open>\<^verbatim>\<open>char::to_digit(16)\<close>.\<close>

definition hex_value :: "char \<Rightarrow> nat option" where
  "hex_value c = (let n = (of_char c :: nat) in
     if 48 \<le> n \<and> n \<le> 57 then Some (n - 48)
     else if 97 \<le> n \<and> n \<le> 102 then Some (n - 87)
     else if 65 \<le> n \<and> n \<le> 70 then Some (n - 55)
     else None)"

text \<open>The UTF-8 text of the character with a code below 256: what pushing a byte as a char writes.\<close>

definition utf8_of_byte :: "nat \<Rightarrow> string" where
  "utf8_of_byte n = (if n < 128 then [char_of n] else [char_of (192 + n div 64), char_of (128 + n mod 64)])"

definition percent_escape :: "string \<Rightarrow> nat option" where
  "percent_escape s =
     (case s of
        c # h # l # _ \<Rightarrow>
          if c = CHR ''%'' then
            (case (hex_value h, hex_value l) of (Some hi, Some lo) \<Rightarrow> Some (hi * 16 + lo) | _ \<Rightarrow> None)
          else None
      | _ \<Rightarrow> None)"

fun percent_decode :: "string \<Rightarrow> string" where
  "percent_decode [] = []"
| "percent_decode (c # cs) =
     (case percent_escape (c # cs) of
        Some n \<Rightarrow> utf8_of_byte n @ percent_decode (drop 2 cs)
      | None \<Rightarrow> (if c = CHR ''+'' then '' '' else utf8_of_byte (of_char c)) @ percent_decode cs)"

section \<open>The access token\<close>

definition token_bytes :: nat where
  "token_bytes = 32"

record ui_token =
  ut_raw :: string

definition byte_of :: "char \<Rightarrow> 8 word" where
  "byte_of c = word_of_nat (of_char c)"

definition constant_time_eq :: "bytes \<Rightarrow> bytes \<Rightarrow> bool" where
  "constant_time_eq a b =
     (if length a \<noteq> length b then False
      else fold (\<lambda>(x, y) diff. diff OR (byte_of x XOR byte_of y)) (zip a b) 0 = 0)"

definition token_verify :: "ui_token \<Rightarrow> string \<Rightarrow> bool" where
  "token_verify t candidate = constant_time_eq (ut_raw t) candidate"

text \<open>\<open>random\<close> is what the system's generator fills the buffer with.\<close>

definition token_rotate ::
    "crypto \<Rightarrow> file_path \<Rightarrow> write_io \<Rightarrow> bytes \<Rightarrow> path_entry \<Rightarrow> (string, string) result \<times> path_entry" where
  "token_rotate c p io random entry =
     (let token = encode_signature c random in
      (case ui_atomic_write p io token entry of
         (Inl e, entry') \<Rightarrow> (Err e, entry')
       | (Inr _, entry') \<Rightarrow> (Ok token, entry')))"

text \<open>\<open>read\<close> is the text of the file or the error; \<open>why\<close> is the decoder's message.\<close>

definition token_load :: "crypto \<Rightarrow> file_path \<Rightarrow> (string, string) result \<Rightarrow> string \<Rightarrow> (string, ui_token) result" where
  "token_load c p read why =
     (case read of
        Inl e \<Rightarrow> Err (''cannot read UI token at '' @ fp_text p @ '': '' @ e)
      | Inr txt \<Rightarrow>
          (case decode_signature c (trim txt) of
             None \<Rightarrow> Err (''UI token at '' @ fp_text p @ '' is not valid base64url: '' @ why)
           | Some decoded \<Rightarrow>
               if length decoded \<noteq> token_bytes
               then Err (''UI token at '' @ fp_text p @ '' decodes to '' @ dec_of_nat (length decoded) @
                      '' bytes, not '' @ dec_of_nat token_bytes)
               else Ok \<lparr>ut_raw = trim txt\<rparr>))"

section \<open>Requests and responses\<close>

text \<open>
  A header value is \<open>None\<close> where \<^verbatim>\<open>to_str\<close> fails. The parameters are the
  decoded query, one entry per key; the form fields are the decoded pairs of the body, in order.
\<close>

type_synonym header_value = "string option"
type_synonym pairs = "(string \<times> string) list"

record ui_request =
  uq_method :: string
  uq_path :: string
  uq_query :: "string option"
  uq_host :: "header_value option"
  uq_origin :: "header_value option"
  uq_cookie :: "header_value option"
  uq_params :: pairs
  uq_form :: pairs

datatype ui_response =
    Forbidden string
  | SeeOther string
  | SeeOtherCookie string string
  | Html string
  | NotFound
  | MethodNotAllowed
  | FormRejected
  | ServerError

definition allowed_hosts :: "nat \<Rightarrow> string list" where
  "allowed_hosts port = [''127.0.0.1:'' @ dec_of_nat port, ''localhost:'' @ dec_of_nat port]"

definition host_ok :: "nat \<Rightarrow> ui_request \<Rightarrow> bool" where
  "host_ok port rq = (case uq_host rq of Some (Some h) \<Rightarrow> h \<in> set (allowed_hosts port) | _ \<Rightarrow> False)"

definition origin_ok :: "nat \<Rightarrow> ui_request \<Rightarrow> bool" where
  "origin_ok port rq =
     (case uq_origin rq of
        None \<Rightarrow> True
      | Some origin \<Rightarrow>
          (let txt = (case origin of None \<Rightarrow> [] | Some t \<Rightarrow> t) in
           list_ex (\<lambda>a. txt = ''http://'' @ a) (allowed_hosts port)))"

definition loopback_guard ::
    "nat \<Rightarrow> (ui_request \<Rightarrow> 's \<Rightarrow> ui_response \<times> 's) \<Rightarrow> ui_request \<Rightarrow> 's \<Rightarrow> ui_response \<times> 's" where
  "loopback_guard port inner rq s =
     (if \<not> host_ok port rq \<or> \<not> origin_ok port rq
      then (Forbidden (''refused: this UI answers only on http://127.0.0.1'' @ [CHR 0x0A]), s)
      else inner rq s)"

definition cookie_name :: string where
  "cookie_name = ''chaperone_ui''"

definition token_param :: string where
  "token_param = ''token''"

fun first_stripped :: "string \<Rightarrow> string list \<Rightarrow> string option" where
  "first_stripped p [] = None"
| "first_stripped p (s # ss) = (case strip_prefix s p of Some rest \<Rightarrow> Some rest | None \<Rightarrow> first_stripped p ss)"

definition extract_cookie :: "header_value option \<Rightarrow> string option" where
  "extract_cookie header =
     (case header of
        Some (Some line) \<Rightarrow> first_stripped (cookie_name @ ''='') (map trim (split_on (CHR '';'') line))
      | _ \<Rightarrow> None)"

definition parse_query_value :: "string \<Rightarrow> string \<Rightarrow> string option" where
  "parse_query_value qs key = map_option percent_decode (first_stripped (key @ ''='') (split_on (CHR ''&'') qs))"

definition strip_token_from_query :: "ui_request \<Rightarrow> string" where
  "strip_token_from_query rq =
     (case uq_query rq of
        None \<Rightarrow> uq_path rq
      | Some qs \<Rightarrow>
          (let kept = filter (\<lambda>p. \<not> starts_with p (token_param @ ''='')) (split_on (CHR ''&'') qs) in
           if kept = [] then uq_path rq else uq_path rq @ ''?'' @ join_with ''&'' kept))"

text \<open>\<open>header_ok\<close>: the HTTP library accepts the text as a header value.\<close>

definition cookie_redirect :: "(string \<Rightarrow> bool) \<Rightarrow> string \<Rightarrow> string \<Rightarrow> ui_response" where
  "cookie_redirect header_ok location token =
     (let cookie = cookie_name @ ''='' @ token @ ''; HttpOnly; SameSite=Strict; Path=/; Max-Age=86400'' in
      if header_ok location \<and> header_ok cookie then SeeOtherCookie location cookie else ServerError)"

definition presents_token :: "ui_token \<Rightarrow> ui_request \<Rightarrow> bool" where
  "presents_token t rq = (case extract_cookie (uq_cookie rq) of None \<Rightarrow> False | Some v \<Rightarrow> token_verify t v)"

definition token_gate ::
    "(string \<Rightarrow> bool) \<Rightarrow> ui_token \<Rightarrow> (ui_request \<Rightarrow> 's \<Rightarrow> ui_response \<times> 's) \<Rightarrow> ui_request \<Rightarrow> 's \<Rightarrow> ui_response \<times> 's"
  where
  "token_gate header_ok t inner rq s =
     (if uq_path rq = ''/token'' then inner rq s
      else if presents_token t rq then inner rq s
      else if uq_method rq = ''GET'' then
        (case Option.bind (uq_query rq) (\<lambda>qs. parse_query_value qs token_param) of
           Some provided \<Rightarrow>
             if token_verify t provided then (cookie_redirect header_ok (strip_token_from_query rq) provided, s)
             else (SeeOther (''/token?next='' @ uq_path rq), s)
         | None \<Rightarrow> (SeeOther (''/token?next='' @ uq_path rq), s))
      else (Forbidden ''refused: a valid UI access token is required (run 'chaperone ui-token show')'', s))"

definition safe_next :: "string \<Rightarrow> string" where
  "safe_next raw =
     (if starts_with raw ''/'' \<and> \<not> starts_with raw ''//'' \<and> newline \<notin> set raw then raw else ''/'')"

definition plus_to_space :: "string \<Rightarrow> string" where
  "plus_to_space s = map (\<lambda>c. if c = CHR ''+'' then CHR '' '' else c) s"

definition token_page :: "pairs \<Rightarrow> string" where
  "token_page params =
     layout ''Token'' 0 None None None
      (''<h1>Chaperone UI access</h1>'' @
       ''<p>This UI is gated by a per-instance access token (D41). The token was created with '' @
         ''<code>chaperone ui-token rotate</code> and lives at <code>0600</code> in your config directory '' @
         ''alongside the audit key.</p>'' @
       ''<p>To retrieve it: <code>chaperone ui-token show --token &lt;PATH&gt;</code></p>'' @
       (case map_of params ''err'' of None \<Rightarrow> [] | Some e \<Rightarrow>
          ''<div class=\"err\">'' @ esc (plus_to_space e) @ ''</div>'') @
       ''<form method=\"post\" action=\"/token\">'' @
       ''<p><label>Access token<br><input name=\"token\" required spellcheck=\"false\" '' @
         ''autocomplete=\"off\"></label></p>'' @
       ''<input type=\"hidden\" name=\"next\" value=\"'' @
       esc (case map_of params ''next'' of None \<Rightarrow> ''/'' | Some n \<Rightarrow> safe_next n) @ ''\">'' @
       ''<button type=\"submit\">Open</button></form>'')"

text \<open>
  A required form field occurs exactly once, a defaulted one at most once; anything else is
  rejected before the handler runs.
\<close>

definition required_field :: "pairs \<Rightarrow> string \<Rightarrow> string option" where
  "required_field f k = (case filter (\<lambda>kv. fst kv = k) f of [(_, v)] \<Rightarrow> Some v | _ \<Rightarrow> None)"

definition optional_field :: "pairs \<Rightarrow> string \<Rightarrow> string option option" where
  "optional_field f k =
     (case filter (\<lambda>kv. fst kv = k) f of [] \<Rightarrow> Some None | [(_, v)] \<Rightarrow> Some (Some v) | _ \<Rightarrow> None)"

definition default_field :: "pairs \<Rightarrow> string \<Rightarrow> string option" where
  "default_field f k = map_option (\<lambda>v. case v of None \<Rightarrow> [] | Some s \<Rightarrow> s) (optional_field f k)"

definition token_submit :: "(string \<Rightarrow> bool) \<Rightarrow> ui_token \<Rightarrow> string \<Rightarrow> string \<Rightarrow> ui_response" where
  "token_submit header_ok t token next =
     (if token_verify t (trim token) then cookie_redirect header_ok (safe_next next) (trim token)
      else SeeOther (''/token?err='' @ urlenc ''that token does not match''))"

definition ui_front ::
    "(string \<Rightarrow> bool) \<Rightarrow> ui_token \<Rightarrow> nat \<Rightarrow> (ui_request \<Rightarrow> 's \<Rightarrow> ui_response \<times> 's) \<Rightarrow> ui_request \<Rightarrow> 's \<Rightarrow> ui_response \<times> 's"
  where
  "ui_front header_ok t port handlers = loopback_guard port (token_gate header_ok t handlers)"

section \<open>Lemmas\<close>

lemma byte_of_inj: "byte_of x = byte_of y \<longleftrightarrow> x = y"
proof
  assume "byte_of x = byte_of y"
  then have "(of_char x :: nat) mod 256 = of_char y mod 256"
    by (simp add: byte_of_def word_of_nat_eq_iff take_bit_eq_mod)
  then show "x = y" by (metis char_of_mod_256 char_of_char)
qed simp

lemma or_xor_zero: "d OR (byte_of x XOR byte_of y) = 0 \<longleftrightarrow> d = 0 \<and> x = y"
proof -
  have "byte_of x XOR byte_of y = 0 \<longleftrightarrow> byte_of x = byte_of y"
    by (metis xor.right_neutral xor.assoc xor_self_eq xor.left_neutral)
  then show ?thesis by (simp add: or_eq_0_iff byte_of_inj)
qed

lemma fold_diff_zero:
  "length a = length b \<Longrightarrow>
   fold (\<lambda>(x, y) diff. diff OR (byte_of x XOR byte_of y)) (zip a b) d = 0 \<longleftrightarrow> d = 0 \<and> a = b"
  by (induction a b arbitrary: d rule: list_induct2) (auto simp: or_xor_zero)

lemma constant_time_eq_iff [simp]: "constant_time_eq a b \<longleftrightarrow> a = b"
  by (auto simp: constant_time_eq_def fold_diff_zero)

lemma token_verify_iff [simp]: "token_verify t candidate \<longleftrightarrow> candidate = ut_raw t"
  by (auto simp: token_verify_def)

lemma write_outcome:
  "(case x of Inl e \<Rightarrow> (Inl e, a) | Inr _ \<Rightarrow> (Inr (), b)) = (r, entry') \<Longrightarrow>
   r = Inr () \<and> entry' = b \<or> (\<exists>e. r = Inl e) \<and> entry' = a"
  by (cases x) auto

text \<open>A file is replaced as a whole or left alone.\<close>

lemma ui_atomic_write_cases:
  "ui_atomic_write p io contents entry = (r, entry') \<Longrightarrow>
   r = Ok () \<and> entry' = File contents \<or> (\<exists>e. r = Err e) \<and> entry' = entry"
  unfolding ui_atomic_write_def by (rule write_outcome)

lemma token_rotate_writes:
  "token_rotate c p io random entry = (Ok t, entry') \<Longrightarrow> t = encode_signature c random \<and> entry' = File t"
  by (auto simp: token_rotate_def Let_def split: prod.splits sum.splits dest!: ui_atomic_write_cases)

text \<open>
  A rotated token is the one that the next start of the interface loads, and from then on
  exactly this text opens it: the byte-by-byte comparison that folds the differences together
  accepts a candidate if and only if it is the token.
\<close>

theorem rotated_token_opens:
  assumes "b64u_reads_back c" "b64u_trimmed c" "length random = token_bytes"
    and "token_rotate c p io random entry = (Ok t, File txt)"
  shows "\<exists>tok. token_load c p (Ok txt) why = Ok tok \<and> (\<forall>cand. token_verify tok cand \<longleftrightarrow> cand = t)"
  using token_rotate_writes [OF assms(4)] assms(1-3)
  by (auto simp: token_load_def encode_signature_def decode_signature_def b64u_reads_back_def b64u_trimmed_def)

definition io_fine :: write_io where
  "io_fine = \<lparr>wi_create_dir = Ok (), wi_temp = Ok (), wi_write = Ok (), wi_flush = Ok (), wi_chmod = Ok (), wi_persist = Ok ()\<rparr>"

lemma ui_atomic_write_fine [simp]: "ui_atomic_write p io_fine contents entry = (Ok (), File contents)"
  by (simp add: ui_atomic_write_def io_fine_def)

theorem rotated_token_opens_witness:
  "\<exists>tok. token_load sample_crypto \<lparr>fp_text = ''t'', fp_parent = ''.''\<rparr> (Ok (encode_signature sample_crypto sample_seed)) [] = Ok tok \<and>
     (\<forall>cand. token_verify tok cand \<longleftrightarrow> cand = encode_signature sample_crypto sample_seed)"
  by (rule rotated_token_opens [OF sample_crypto_ok(3,5), of sample_seed _ io_fine Missing])
    (simp_all add: sample_seed_def token_bytes_def token_rotate_def Let_def)

section \<open>Escaping\<close>

definition is_markup :: "char \<Rightarrow> bool" where
  "is_markup c \<longleftrightarrow> c \<in> {CHR ''<'', CHR ''>'', CHR 0x22, CHR 0x27}"

text \<open>The markup of a page: its tags and attribute quotes, without the text between them.\<close>

definition markup :: "string \<Rightarrow> string" where
  "markup s = filter is_markup s"

definition entities :: "(string \<times> char) list" where
  "entities = [(''&amp;'', CHR ''&''), (''&lt;'', CHR ''<''), (''&gt;'', CHR ''>''), (''&quot;'', CHR 0x22), (''&#39;'', CHR 0x27)]"

text \<open>How a browser reads text content and attribute values.\<close>

fun html_text :: "string \<Rightarrow> string" where
  "html_text [] = []"
| "html_text (c # cs) =
     (case List.find (\<lambda>ent. starts_with (c # cs) (fst ent)) entities of
        Some (name, ch) \<Rightarrow> ch # html_text (drop (length name - 1) cs)
      | None \<Rightarrow> c # html_text cs)"

lemma markup_append [simp]: "markup (a @ b) = markup a @ markup b"
  by (simp add: markup_def)

lemma markup_concat: "markup (concat xs) = concat (map markup xs)"
  by (induction xs) (simp_all add: markup_def [of "[]"])

lemma esc_Cons: "esc (c # s) = esc_char c @ esc s"
  by (simp add: esc_def)

lemma markup_esc_char: "markup (esc_char c) = []"
  by (auto simp: markup_def esc_char_def is_markup_def)

lemma markup_esc [simp]: "markup (esc s) = []"
  by (simp add: esc_def markup_concat comp_def markup_esc_char)

lemma html_text_plain: "c \<noteq> CHR ''&'' \<Longrightarrow> html_text (c # s) = c # html_text s"
  by (simp add: entities_def)

lemma html_text_esc_char: "html_text (esc_char c @ s) = c # html_text s"
proof (cases "c \<in> {CHR ''&'', CHR ''<'', CHR ''>'', CHR 0x22, CHR 0x27}")
  case True
  then show ?thesis by (auto simp: esc_char_def entities_def)
next
  case False
  then show ?thesis by (auto simp: esc_char_def html_text_plain simp del: html_text.simps)
qed

text \<open>
  Text that goes through the escaper is inert and intact: it contributes no tag and no
  attribute quote to the page, and a browser that reads it back shows exactly the text that
  was given.
\<close>

theorem esc_inert: "markup (esc s) = [] \<and> html_text (esc s) = s"
  by (induction s) (simp_all add: esc_Cons html_text_esc_char esc_def [of "[]"] markup_def [of "[]"] markup_esc_char)

lemma hex_value_upper: "n < 16 \<Longrightarrow> hex_value (''0123456789ABCDEF'' ! n) = Some n"
  by (auto simp: hex_value_def numeral_eq_Suc less_Suc_eq)

lemma percent_decode_urlenc_byte:
  "percent_decode (urlenc_byte c @ s) = utf8_of_byte (of_char c) @ percent_decode s"
proof (cases "unreserved c")
  case True
  then have "c \<noteq> CHR ''%''" "c \<noteq> CHR ''+''" by (auto simp: unreserved_def Let_def)
  then show ?thesis using True by (simp add: urlenc_byte_def percent_escape_def split: list.splits)
next
  case False
  have "(of_char c :: nat) < 256" by simp
  then have "(of_char c :: nat) div 16 < 16" by (simp add: less_mult_imp_div_less)
  then show ?thesis using False by (simp add: urlenc_byte_def percent_escape_def hex_value_upper Let_def)
qed

lemma percent_decode_urlenc: "percent_decode (urlenc s) = concat (map (\<lambda>c. utf8_of_byte (of_char c)) s)"
  by (induction s) (simp_all add: urlenc_def percent_decode_urlenc_byte)

lemma utf8_bytes_length: "length s \<le> length (concat (map (\<lambda>c. utf8_of_byte (of_char c)) s))"
  by (induction s) (auto simp: utf8_of_byte_def)

text \<open>
  The query decoder undoes the encoder exactly on ASCII text. A byte outside ASCII is
  read back as the character with that code and grows to two bytes.
\<close>

theorem percent_decode_urlenc_ascii:
  "percent_decode (urlenc s) = s \<longleftrightarrow> list_all (\<lambda>c. (of_char c :: nat) < 128) s"
proof (induction s)
  case (Cons c s)
  show ?case
  proof (cases "(of_char c :: nat) < 128")
    case True
    then show ?thesis using Cons by (simp add: percent_decode_urlenc utf8_of_byte_def)
  next
    case False
    then show ?thesis
      using utf8_bytes_length [of s] by (auto simp: percent_decode_urlenc utf8_of_byte_def dest: arg_cong [where f = length])
  qed
qed (simp add: urlenc_def)

section \<open>The entrance\<close>

text \<open>What a request must carry to reach a handler.\<close>

definition admitted :: "ui_token \<Rightarrow> nat \<Rightarrow> ui_request \<Rightarrow> bool" where
  "admitted t port rq \<longleftrightarrow>
     (\<exists>h. uq_host rq = Some (Some h) \<and> h \<in> set (allowed_hosts port)) \<and>
     (\<forall>origin. uq_origin rq = Some origin \<longrightarrow> (\<exists>a \<in> set (allowed_hosts port). origin = Some (''http://'' @
       a))) \<and>
     extract_cookie (uq_cookie rq) = Some (ut_raw t)"

lemma ui_front_admitted:
  assumes "uq_path rq \<noteq> ''/token''"
  shows "ui_front header_ok t port handlers rq s =
    (if admitted t port rq then handlers rq s else (fst (ui_front header_ok t port handlers rq s), s))"
  using assms
  by (auto simp: ui_front_def loopback_guard_def token_gate_def presents_token_def admitted_def host_ok_def
      origin_ok_def list_ex_iff Let_def split: option.splits if_splits)

lemma ui_front_refusal:
  assumes "uq_path rq \<noteq> ''/token''" "\<not> admitted t port rq"
  shows "fst (ui_front header_ok t port handlers rq s) \<noteq> Html page"
  using assms
  by (auto simp: ui_front_def loopback_guard_def token_gate_def presents_token_def admitted_def host_ok_def
      origin_ok_def list_ex_iff Let_def cookie_redirect_def split: option.splits if_splits)

end
