(* ===== verification/Ui_Console.thy ===== *)
theory Ui_Console
  imports Ui_Access Inventory Policy_Guard Operator_Channels
begin

text \<open>
  The operator web interface behind its entrance (\<^verbatim>\<open>crates/ui/src\<close>): the mechanism catalogue
  (\<^verbatim>\<open>matrix.rs\<close>), the rule preview (\<^verbatim>\<open>preview.rs\<close>), the pages and form handlers (\<^verbatim>\<open>pages.rs\<close>), the
  setup wizard (\<^verbatim>\<open>setup.rs\<close>), the connect flow (\<^verbatim>\<open>connect.rs\<close>) and the router (\<^verbatim>\<open>lib.rs\<close>).

  A handler maps the request's form and the state of the daemon to a response and a state. The
  vault, the enrollment store, the policy parser and writer and the gateway are the ones of
  their own theories. The outcome of every file operation, the clock and the random bytes of one
  request are part of \<open>ui_env\<close>; so are the routing of the HTTP library and the TOML reader.
\<close>

section \<open>The mechanism catalogue\<close>

datatype maturity = Stable | Caveated | Planned

fun maturity_badge :: "maturity \<Rightarrow> string" where
  "maturity_badge Stable = [CHR 0xE2, CHR 0x9C, CHR 0x85] @ '' supported''"
| "maturity_badge Caveated = [CHR 0xE2, CHR 0x9A, CHR 0xA0, CHR 0xEF, CHR 0xB8, CHR 0x8F] @ '' partial''"
| "maturity_badge Planned = [CHR 0xF0, CHR 0x9F, CHR 0x97, CHR 0xBA, CHR 0xEF, CHR 0xB8, CHR 0x8F] @ '' planned''"

record mechanism_row =
  mr_id :: string
  mr_label :: string
  mr_lifecycle :: string
  mr_credential_form :: string
  mr_maturity :: maturity
  mr_confirmation :: string

definition mechanisms :: "mechanism_row list" where
  "mechanisms =
     [\<lparr>mr_id = ''http-bearer'', mr_label = ''HTTP bearer token'', mr_lifecycle = ''one-shot'',
       mr_credential_form = ''bearer token'', mr_maturity = Stable, mr_confirmation = ''per policy''\<rparr>,
      \<lparr>mr_id = ''http-basic'', mr_label = ''HTTP basic auth'', mr_lifecycle = ''one-shot'',
       mr_credential_form = ''password (username rides the intent)'', mr_maturity = Stable,
       mr_confirmation = ''per policy''\<rparr>,
      \<lparr>mr_id = ''db-scram'', mr_label = ''PostgreSQL SCRAM-SHA-256'', mr_lifecycle = ''one-shot or session'',
       mr_credential_form = ''database password'', mr_maturity = Stable, mr_confirmation = ''per policy''\<rparr>,
      \<lparr>mr_id = ''ssh'', mr_label = ''SSH session'', mr_lifecycle = ''session'',
       mr_credential_form = ''Ed25519 private key'', mr_maturity = Stable, mr_confirmation = ''per policy''\<rparr>,
      \<lparr>mr_id = ''local-privilege'', mr_label = ''Local privileged command'', mr_lifecycle = ''session (one pinned exec)'',
       mr_credential_form = ''none (sudoers / pin allowlist)'', mr_maturity = Stable,
       mr_confirmation = ''ALWAYS unless command+args exactly pinned''\<rparr>]"

record service_template =
  st_mechanism :: string
  st_name :: string
  st_target_uri :: string
  st_note :: "string option"

definition templates :: "service_template list" where
  "templates =
     [\<lparr>st_mechanism = ''http-bearer'', st_name = ''Any HTTPS API (general case)'', st_target_uri = ''https://*'',
       st_note = None\<rparr>,
      \<lparr>st_mechanism = ''http-bearer'', st_name = ''GitHub REST API v3'', st_target_uri = ''https://api.github.com/*'',
       st_note = Some (''Use a fine-grained PAT scoped to needed repos only. Tested shape.'')\<rparr>,
      \<lparr>st_mechanism = ''http-bearer'', st_name = ''GraphQL API (GitHub v4, Hasura, ...)'',
       st_target_uri = ''https://*/graphql'', st_note = Some (''POST-with-JSON rides the same injector.'')\<rparr>,
      \<lparr>st_mechanism = ''http-bearer'', st_name = ''Kubernetes API'', st_target_uri = ''https://kubernetes.default.svc/*'',
       st_note = Some ([CHR 0xE2, CHR 0x9A, CHR 0xA0, CHR 0xEF, CHR 0xB8, CHR 0x8F] @
         '' custom/private CA roots are not configurable yet (backlog C1): works against clusters with '' @
         ''publicly-trusted certs.'')\<rparr>,
      \<lparr>st_mechanism = ''http-bearer'', st_name = ''OAuth2 client-credentials endpoint (manual)'',
       st_target_uri = ''https://*'',
       st_note = Some (''Token fetched once into the vault by the operator; automatic refresh is post-v1.'')\<rparr>,
      \<lparr>st_mechanism = ''http-basic'', st_name = ''Any HTTPS API (basic auth)'', st_target_uri = ''https://*'',
       st_note = Some (''Username travels in the intent, password stays in the vault.'')\<rparr>,
      \<lparr>st_mechanism = ''db-scram'', st_name = ''PostgreSQL (incl. Supabase/RDS/Cloud SQL)'',
       st_target_uri = ''postgres://USER@HOST:5432/DBNAME'',
       st_note = Some ([CHR 0xE2, CHR 0x9A, CHR 0xA0, CHR 0xEF, CHR 0xB8, CHR 0x8F] @
         '' TLS-to-DB is NOT negotiated yet (D27): restrict to networks you trust.'')\<rparr>,
      \<lparr>st_mechanism = ''ssh'', st_name = ''SSH host (shell or remote commands)'', st_target_uri = ''ssh://USER@HOST'',
       st_note = Some (''Host keys are pinned (TOFU or known_hosts import); a changed key is a hard refusal.'')\<rparr>,
      \<lparr>st_mechanism = ''local-privilege'', st_name = ''Local privileged commands (systemctl, apt, ...)'',
       st_target_uri = ''local://HOST'',
       st_note = Some (''Every use is confirmed unless the operator pinned the exact command+args; the helper re-checks '' @
         ''authoritatively.'')\<rparr>]"

definition templates_for :: "string \<Rightarrow> service_template list" where
  "templates_for mechanism = filter (\<lambda>t. st_mechanism t = mechanism) templates"

definition mechanism_of :: "string \<Rightarrow> mechanism_row option" where
  "mechanism_of ident = List.find (\<lambda>m. mr_id m = ident) mechanisms"

section \<open>The rule preview\<close>

definition parse_or_exact :: "string \<Rightarrow> matcher" where
  "parse_or_exact raw = (case matcher_parse raw of Inl _ \<Rightarrow> Exact raw | Inr m \<Rightarrow> m)"

definition form_axis :: "string \<Rightarrow> matcher" where
  "form_axis raw = (if raw = [] then Any else parse_or_exact raw)"

fun candidate_pairs :: "string list \<Rightarrow> pair_row list option" where
  "candidate_pairs [] = Some []"
| "candidate_pairs (l # ls) =
     (let line = trim l in
      if line = [] then candidate_pairs ls
      else (case split_once line ''|'' of
              None \<Rightarrow> None
            | Some (cred, target) \<Rightarrow>
                map_option (\<lambda>ps. \<lparr>p_cred_ref = parse_or_exact (trim cred), p_target_uri = parse_or_exact (trim target)\<rparr> # ps)
                  (candidate_pairs ls)))"

definition candidate_rule :: "string \<Rightarrow> string \<Rightarrow> string \<Rightarrow> string \<Rightarrow> string \<Rightarrow> string \<Rightarrow> rule option" where
  "candidate_rule mechanism target_uri agent_id cred_ref effect pairs_raw =
     Option.bind (effect_parse effect) (\<lambda>eff.
       map_option (\<lambda>pairs. \<lparr>r_name = None, r_notify_on_use = True, r_effect = eff, r_agent_id = form_axis agent_id,
         r_cred_ref = form_axis cred_ref, r_target_uri = form_axis target_uri, r_mechanism = form_axis mechanism,
         r_pairs = pairs, r_limits = no_limits\<rparr>) (candidate_pairs (str_lines pairs_raw)))"

definition rule_sentence :: "rule \<Rightarrow> string" where
  "rule_sentence r =
     ''This rule would '' @
     (case r_effect r of Allow \<Rightarrow> ''allow'' | NeedsConfirmation \<Rightarrow> ''ask a human, then allow'' | Deny \<Rightarrow> ''deny'') @
     '': agent '' @ matcher_describe (r_agent_id r) @ '', using credential '' @ matcher_describe (r_cred_ref r) @
     '', against target '' @ matcher_describe (r_target_uri r) @ '', over '' @ matcher_describe (r_mechanism r) @
       ''.''"

definition pairs_sentence :: "rule \<Rightarrow> string" where
  "pairs_sentence r =
     (if r_pairs r = [] then []
      else ''  It also binds '' @ dec_of_nat (length (r_pairs r)) @
        '' credential(s) to their own endpoint (D43):'' @ [CHR 0x0A] @
        join_with [newline] (map (\<lambda>p.
          ''    '' @ matcher_describe (p_cred_ref p) @ '' '' @ [CHR 0xE2, CHR 0x86, CHR 0x92] @ '' '' @
            matcher_describe (p_target_uri p)) (r_pairs r)))"

definition glob_unbounded :: "matcher \<Rightarrow> bool" where
  "glob_unbounded m =
     (case m of Glob g \<Rightarrow> star \<in> set g \<and> (contains_sub g ''*.'' \<or> contains_sub g ''*/'') | _ \<Rightarrow> False)"

definition boundary_caveat :: "rule \<Rightarrow> string option" where
  "boundary_caveat r =
     (if list_ex glob_unbounded [r_target_uri r, r_cred_ref r]
      then Some (''Caveat: in a glob, '' @ [CHR 0x60] @ ''*'' @ [CHR 0x60] @ '' spans every character '' @
        [CHR 0xE2, CHR 0x80, CHR 0x94] @ '' including '' @ [CHR 0x60] @ ''/'' @ [CHR 0x60] @ '' and '' @
        [CHR 0x60] @ '':'' @ [CHR 0x60] @ ''. A star before a dot does not enforce a hostname boundary, so '' @
        [CHR 0x60] @ ''ssh://*.internal'' @ [CHR 0x60] @ '' also matches '' @ [CHR 0x60] @
        ''ssh://evil.com/.internal'' @ [CHR 0x60] @ ''. Where a boundary matters, anchor with '' @ [CHR 0x60] @
        ''exact:'' @ [CHR 0x60] @ '' or '' @ [CHR 0x60] @ ''prefix:'' @ [CHR 0x60] @
        '' on the trusted portion and leave '' @ [CHR 0x60] @ ''*'' @ [CHR 0x60] @
        '' only on an open-ended tail.'')
      else None)"

definition preview_block :: "rule \<Rightarrow> string" where
  "preview_block r =
     ''<div class=\"card\"><strong>Preview (not saved yet)</strong><br>'' @ esc (rule_sentence r) @
     (if pairs_sentence r = [] then [] else ''<br>'' @ esc (pairs_sentence r)) @
     (case boundary_caveat r of None \<Rightarrow> [] | Some caveat \<Rightarrow> ''<p class=\"err\">'' @
       esc caveat @ ''</p>'') @
     ''</div>''"

definition verdict_block :: "string \<Rightarrow> string \<Rightarrow> string" where
  "verdict_block effect label =
     ''<div class=\"card\"><strong>Verdict: '' @
     (if effect = ''allow'' then ''allow '' @ [CHR 0xE2, CHR 0x80, CHR 0x94] @ '' permitted without prompting''
      else if effect = ''needs_confirmation'' then ''needs_confirmation '' @ [CHR 0xE2, CHR 0x80, CHR 0x94] @
        '' a human must approve each use''
      else ''deny '' @ [CHR 0xE2, CHR 0x80, CHR 0x94] @ '' refused'') @
     ''</strong><br><span class=\"muted\">reached by</span> <code>'' @ label @ ''</code></div>''"

section \<open>State\<close>

record ui_config =
  uc_policy_path :: file_path
  uc_vault_path :: string
  uc_enrollment_path :: string
  uc_audit_key_path :: file_path
  uc_token :: ui_token
  uc_port :: nat

text \<open>
  \<open>us_vault\<close> is the opened vault (its file is inside); \<open>us_vault_file\<close> says that a vault file
  exists that is not open.
\<close>

record ui_state =
  us_policy :: path_entry
  us_audit_key :: path_entry
  us_vault :: "local_vault option"
  us_vault_file :: bool
  us_enrollment :: enrollment_store
  us_gateway :: "gateway option"
  us_event_hub :: "event_hub option"
  us_events_path :: "string option"

datatype ui_handler =
    TokenPage | TokenSubmit | Dashboard | SetupPage | CreateVault | CreatePolicy | CreateAuditKey
  | SecretsPage | SecretsStore | SecretsDelete | AgentsPage | AgentsEnroll | AgentsRevoke
  | RulesPage | RulesNew | RulesAdd | RulesDelete | RawPage | RawSave | PolicyTest
  | ConnectPage | ConnectSubmit | ConnectDone

type_synonym ui_routes = "(string \<times> string \<times> ui_handler) list"

text \<open>
  The first group is third-party code: cryptography, codecs, the TOML reader and quoting, the
  header check and the routing of the HTTP library. The second is what one request meets.
\<close>

record ui_env =
  ue_crypto :: crypto
  ue_codec :: store_codec
  ue_vault :: vault_env
  ue_toml :: "string \<Rightarrow> (string, rule_def list) result"
  ue_quote :: "string \<Rightarrow> string"
  ue_header_ok :: "string \<Rightarrow> bool"
  ue_route :: "ui_routes \<Rightarrow> string \<Rightarrow> string \<Rightarrow> ui_response + ui_handler"
  ue_cause :: "enrollment_error \<Rightarrow> string"
  ue_read_error :: string
  ue_vault_error :: string
  ue_vault_io :: bool
  ue_enroll_io :: bool
  ue_policy_io :: write_io
  ue_audit_io :: write_io
  ue_nonce :: bytes
  ue_now :: string
  ue_seed :: bytes
  ue_salt :: bytes
  ue_dek :: bytes
  ue_seal_nonce :: bytes

record provision =
  pv_policy :: bool
  pv_vault :: bool
  pv_audit_key :: bool
  pv_enrollment :: bool

definition provisioned :: "ui_state \<Rightarrow> provision" where
  "provisioned st = \<lparr>pv_policy = (us_policy st \<noteq> Missing), pv_vault = (us_vault st \<noteq> None \<or> us_vault_file st),
     pv_audit_key = (us_audit_key st \<noteq> Missing), pv_enrollment = (es_file (us_enrollment st) \<noteq> None)\<rparr>"

definition provision_complete :: "provision \<Rightarrow> bool" where
  "provision_complete p \<longleftrightarrow> pv_policy p \<and> pv_vault p \<and> pv_audit_key p"

definition provision_missing :: "provision \<Rightarrow> nat" where
  "provision_missing p =
     (if pv_policy p then 0 else 1) + (if pv_vault p then 0 else 1) + (if pv_audit_key p then 0 else 1)"

definition setup_pending :: "ui_state \<Rightarrow> nat" where
  "setup_pending st = provision_missing (provisioned st)"

text \<open>\<^verbatim>\<open>read_to_string\<close>: a directory, a missing file and text that is not UTF-8 are errors.\<close>

definition read_text :: "path_entry \<Rightarrow> string option" where
  "read_text entry = (case entry of File doc \<Rightarrow> if utf8_valid doc then Some doc else None | _ \<Rightarrow> None)"

definition current_policy :: "ui_env \<Rightarrow> ui_config \<Rightarrow> ui_state \<Rightarrow> (string, policy) result" where
  "current_policy env cfg st =
     (case read_text (us_policy st) of
        None \<Rightarrow> Err (''cannot read '' @ fp_text (uc_policy_path cfg) @ '': '' @ ue_read_error env)
      | Some doc \<Rightarrow> map_sum policy_error_text id (from_toml (ue_crypto env) (ue_toml env) doc))"

definition halted_reason :: "ui_state \<Rightarrow> string option" where
  "halted_reason st =
     (case us_gateway st of
        None \<Rightarrow> None
      | Some g \<Rightarrow> if gw_halted g then Some (case gw_halt_reason g of None \<Rightarrow> [] | Some r \<Rightarrow> r) else None)"

definition ui_page :: "string \<Rightarrow> string option \<Rightarrow> string option \<Rightarrow> string \<Rightarrow> ui_state \<Rightarrow> ui_response" where
  "ui_page title flash_ok flash_err body st =
     Html (layout title (setup_pending st) (halted_reason st) flash_ok flash_err body)"

definition flash_from :: "pairs \<Rightarrow> string option \<times> string option" where
  "flash_from flash = (map_option plus_to_space (map_of flash ''msg''), map_option plus_to_space (map_of flash ''err''))"

definition short_hash :: "string \<Rightarrow> string" where
  "short_hash h = take 12 h"

fun vault_error_display :: "ui_env \<Rightarrow> ui_config \<Rightarrow> vault_error \<Rightarrow> string" where
  "vault_error_display env cfg VaultIo = ''vault i/o: '' @ ue_vault_error env"
| "vault_error_display env cfg (VaultCorrupt e) = ''vault corrupt: '' @ e"
| "vault_error_display env cfg WrongPassphrase = ''passphrase does not open this vault''"
| "vault_error_display env cfg (VaultSeal e) = sealer_error_text e"
| "vault_error_display env cfg VaultAlreadyExists = ''a vault already exists at '' @ uc_vault_path cfg"

fun enrollment_error_text :: "ui_env \<Rightarrow> enrollment_error \<Rightarrow> string" where
  "enrollment_error_text env EnrollmentIo = ''enrollment store i/o: '' @ ue_cause env EnrollmentIo"
| "enrollment_error_text env EnrollmentCorrupt = ''enrollment store corrupt: '' @ ue_cause env EnrollmentCorrupt"
| "enrollment_error_text env (BadPublicKey p) =
     ''public key must be base64url of 32 bytes: '' @ ue_cause env (BadPublicKey p)"
| "enrollment_error_text env (EnrollmentDuplicate ident) =
     ''agent '' @ ident @ '' is already enrolled and live; revoke first to rotate''"
| "enrollment_error_text env (MissingSponsor what) =
     ''enrollment requires a named human sponsor (RAE L0): '' @ what @ '' is empty''"

section \<open>Status\<close>

definition vault_paths :: "ui_env \<Rightarrow> ui_state \<Rightarrow> string list option" where
  "vault_paths env st =
     Option.bind (us_vault st) (\<lambda>v. case vault_list (ue_vault env) v of Inl _ \<Rightarrow> None | Inr ps \<Rightarrow> Some ps)"

definition counter_cards :: "nat \<Rightarrow> nat \<Rightarrow> nat \<Rightarrow> string" where
  "counter_cards rule_count secrets agent_count =
     ''<div class=\"grid\">'' @
     ''<div class=\"card\"><h2><a href=\"/rules\">Rules</a></h2><p style=\"font-size:2rem;margin:.2rem 0\">'' @
       dec_of_nat rule_count @ ''</p>'' @
     ''<p class=\"muted\">first-match-wins, default-deny underneath</p></div>'' @
     ''<div class=\"card\"><h2><a href=\"/secrets\">Secrets</a></h2><p style=\"font-size:2rem;margin:.2rem '' @
       ''0\">'' @ dec_of_nat secrets @ ''</p>'' @
     ''<p class=\"muted\">values never displayed once stored</p></div>'' @
     ''</div>'' @
     ''<div class=\"card\"><h2><a href=\"/agents\">Agents</a></h2><p style=\"font-size:2rem;margin:.2rem 0\">'' @
       dec_of_nat agent_count @ ''</p>'' @
     ''<p class=\"muted\">live enrollments</p></div>''"

definition dashboard :: "ui_env \<Rightarrow> ui_config \<Rightarrow> pairs \<Rightarrow> ui_state \<Rightarrow> ui_response" where
  "dashboard env cfg flash st =
     (let prov = provisioned st;
          secrets = (case vault_paths env st of None \<Rightarrow> 0 | Some ps \<Rightarrow> length ps);
          agent_count = length (filter (\<lambda>r. er_revoked_at r = None) (enrollment_list (us_enrollment st)));
          rule_count = (case current_policy env cfg st of Inl _ \<Rightarrow> 0 | Inr p \<Rightarrow> length (rules p)) in
      ui_page ''Status'' (fst (flash_from flash)) (snd (flash_from flash))
       (''<h1>Status</h1>'' @
        (case us_gateway st of
           Some g \<Rightarrow>
             ''<p>Broker: <strong>'' @ (if gw_halted g then ''HALTED'' else ''brokering'') @
             ''</strong> '' @ [CHR 0xC2, CHR 0xB7] @ '' ruleset <code>'' @ esc (short_hash (gw_ruleset_hash g)) @
               ''</code></p>''
         | None \<Rightarrow>
             ''<p>Broker: <strong>not running</strong> (setup mode '' @ [CHR 0xE2, CHR 0x80, CHR 0x94] @
               '' finish <a href=\"/setup\">setup</a>, then start <code>chaperone serve</code>).</p>'') @
        (if \<not> provision_complete prov then
           ''<div class=\"err\">Setup incomplete: '' @ dec_of_nat (provision_missing prov) @ '' step'' @
           (if provision_missing prov = 1 then [] else ''s'') @
           '' pending. <a href=\"/setup\">Continue setup</a>.</div>''
         else []) @
        counter_cards rule_count secrets agent_count @
        (case (us_event_hub st, us_events_path st) of
           (Some hub, Some path) \<Rightarrow>
             ''<div class=\"card\"><h2>Event feed</h2><p>'' @ dec_of_nat (unat (subscriber_count hub)) @
             '' subscribers on <code>'' @ esc path @
             ''</code>.<br><span class=\"muted\">tail with: <code>chaperone tail --socket '' @ esc path @
             ''</code> or any stream reader.</span></p></div>''
         | _ \<Rightarrow>
             ''<p class=\"muted\">Event feed not bound; start serve with <code>--events-socket PATH</code> to '' @
               ''broadcast decisions live.</p>''))
       st)"

section \<open>Secrets\<close>

definition secret_row :: "ui_env \<Rightarrow> local_vault \<Rightarrow> string \<Rightarrow> string" where
  "secret_row env v path =
     ''<tr><td><code>'' @ esc path @ ''</code></td><td class=\"muted\">[redacted] '' @
     dec_of_nat (case vault_get (ue_vault env) v path of Inr (Some s) \<Rightarrow> length s | _ \<Rightarrow> 0) @
     '' bytes present</td><td><form class=\"inline\" method=\"post\" action=\"/secrets/delete\"><input '' @
       ''type=\"hidden\" name=\"path\" value=\"'' @
     esc path @ ''\"><button class=\"danger\" type=\"submit\">delete</button></form></td></tr>''"

definition secrets_page :: "ui_env \<Rightarrow> ui_config \<Rightarrow> pairs \<Rightarrow> ui_state \<Rightarrow> ui_response" where
  "secrets_page env cfg flash st =
     (case us_vault st of
        None \<Rightarrow>
          ui_page ''Secrets'' (fst (flash_from flash)) (snd (flash_from flash))
           (''<h1>Secrets</h1>'' @
            ''<div class=\"err\">The vault is not open. Complete <a href=\"/setup\">setup</a>, or restart the '' @
              ''daemon and enter its passphrase.</div>'')
           st
      | Some v \<Rightarrow>
          ui_page ''Secrets'' (fst (flash_from flash)) (snd (flash_from flash))
           (''<h1>Secrets</h1>'' @
            (case vault_list (ue_vault env) v of
               Inr paths \<Rightarrow>
                 if paths = [] then ''<p class=\"muted\">No secrets stored yet.</p>''
                 else ''<table><tr><th>Path</th><th>Held value</th><th></th></tr>'' @
                   concat (map (secret_row env v) (sort paths)) @ ''</table>''
             | Inl e \<Rightarrow> ''<div class=\"err\">vault list failed: '' @
               esc (vault_error_display env cfg e) @ ''</div>'') @
            ''<h2>Add or rotate a secret</h2><p class=\"muted\">Storing an existing path again rotates it in '' @
              ''place (same path, new value '' @ [CHR 0xE2, CHR 0x80, CHR 0x94] @
              '' cred_refs never change). The value is never re-displayed afterwards.</p>'' @
            ''<form method=\"post\" action=\"/secrets\">'' @
            field ''Vault path (e.g. prod/github/token)''
              (''<input name=\"path\" required placeholder=\"prod/github/token\">'') @
            field ''Value (paste once; never shown again)''
              (''<textarea name=\"value\" rows=\"3\" required spellcheck=\"false\"></textarea>'') @
            ''<button type=\"submit\">Store secret</button></form>'')
           st)"

definition trim_slashes :: "string \<Rightarrow> string" where
  "trim_slashes s = rev (dropWhile (\<lambda>c. c = CHR ''/'') (rev (dropWhile (\<lambda>c. c = CHR ''/'') s)))"

definition redirect_with :: "string \<Rightarrow> string \<Rightarrow> ui_response" where
  "redirect_with target msg = SeeOther (target @ urlenc msg)"

definition secrets_store :: "ui_env \<Rightarrow> ui_config \<Rightarrow> string \<Rightarrow> string \<Rightarrow> ui_state \<Rightarrow> ui_response \<times> ui_state" where
  "secrets_store env cfg form_path form_value st =
     (case us_vault st of
        None \<Rightarrow> (SeeOther ''/secrets?err=vault+not+open'', st)
      | Some v \<Rightarrow>
          (let path = trim_slashes (trim form_path) in
           if path = [] \<or> form_value = [] then (SeeOther ''/secrets?err=path+and+value+are+required'', st)
           else (case vault_set (ue_vault env) (ue_vault_io env) (ue_nonce env) path form_value v of
                   (Inr _, v') \<Rightarrow>
                     (redirect_with ''/secrets?msg='' (''stored local://'' @
                       path), st\<lparr>us_vault := Some v'\<rparr>)
                 | (Inl e, v') \<Rightarrow>
                     (redirect_with ''/secrets?err='' (vault_error_display env cfg e), st\<lparr>us_vault := Some v'\<rparr>))))"

definition secrets_delete :: "ui_env \<Rightarrow> ui_config \<Rightarrow> string \<Rightarrow> ui_state \<Rightarrow> ui_response \<times> ui_state" where
  "secrets_delete env cfg form_path st =
     (case us_vault st of
        None \<Rightarrow> (SeeOther ''/secrets?err=vault+not+open'', st)
      | Some v \<Rightarrow>
          (case vault_delete (ue_vault env) (ue_vault_io env) (ue_nonce env) (trim form_path) v of
             (Inr True, v') \<Rightarrow> (SeeOther ''/secrets?msg=deleted'', st\<lparr>us_vault := Some v'\<rparr>)
           | (Inr False, v') \<Rightarrow> (SeeOther ''/secrets?msg=was+not+present'', st\<lparr>us_vault := Some v'\<rparr>)
           | (Inl e, v') \<Rightarrow>
               (redirect_with ''/secrets?err='' (vault_error_display env cfg e), st\<lparr>us_vault := Some v'\<rparr>)))"

section \<open>Agents\<close>

definition agent_row :: "enrollment_record \<Rightarrow> string" where
  "agent_row r =
     (let revoked = er_revoked_at r \<noteq> None in
      ''<tr><td><code>'' @ esc (er_agent_id r) @ ''</code></td><td><span class=\"badge '' @
      (if revoked then ''deny'' else ''allow'') @ ''\">'' @ (if revoked then ''REVOKED'' else ''live'') @
      ''</span></td><td class=\"muted\">'' @ esc (er_enrolled_at r) @ ''</td><td class=\"muted\">'' @
      esc (if er_sponsor_id r = [] then ''<none: pre-RAE legacy>'' else er_sponsor_id r) @
      ''</td><td class=\"muted\">'' @ esc (take 12 (er_public_key r)) @ ''...</td><td>'' @
      (if revoked then []
       else ''<form class=\"inline\" method=\"post\" action=\"/agents/revoke\"><input type=\"hidden\" name=\"agent_id\" '' @
         ''value=\"'' @
         esc (er_agent_id r) @ ''\"><button class=\"danger\" type=\"submit\">revoke</button></form>'') @
      ''</td></tr>'')"

definition agents_page :: "ui_env \<Rightarrow> ui_config \<Rightarrow> pairs \<Rightarrow> ui_state \<Rightarrow> ui_response" where
  "agents_page env cfg flash st =
     ui_page ''Agents'' (fst (flash_from flash)) (snd (flash_from flash))
      (''<h1>Agents</h1>'' @
       (if enrollment_list (us_enrollment st) = [] then ''<p class=\"muted\">No agents enrolled yet.</p>''
        else ''<table><tr><th>Agent</th><th>Status</th><th>Enrolled</th><th>Sponsor</th><th>Key</th><th></th></'' @
          ''tr>'' @
          concat (map agent_row (enrollment_list (us_enrollment st))) @ ''</table>'') @
       ''<h2>Enroll an agent</h2><p class=\"muted\">Paste the agent's public key: base64url of exactly 32 '' @
         ''bytes (what its key store publishes out-of-band), not a JSON blob.</p>'' @
       ''<form method=\"post\" action=\"/agents/enroll\">'' @
       field ''Agent id'' (''<input name=\"agent_id\" required placeholder=\"agent:my-agent\">'') @
       field ''Public key (base64url, 32 bytes)'' (''<input name=\"public_key\" required spellcheck=\"false\">'') @
       field ''Sponsor id (RAE: the human vouching for this agent)''
         (''<input name=\"sponsor_id\" required placeholder=\"you@example.com or @gh-handle\">'') @
       field ''Sponsor name'' (''<input name=\"sponsor_name\" required placeholder=\"Jane Q. Operator\">'') @
       ''<button type=\"submit\">Enroll</button></form>'')
      st"

record enroll_form =
  ef_agent_id :: string
  ef_public_key :: string
  ef_sponsor_id :: "string option"
  ef_sponsor_name :: "string option"

definition or_default :: "string option \<Rightarrow> string" where
  "or_default v = (case v of None \<Rightarrow> [] | Some s \<Rightarrow> s)"

definition agents_enroll :: "ui_env \<Rightarrow> enroll_form \<Rightarrow> ui_state \<Rightarrow> ui_response \<times> ui_state" where
  "agents_enroll env form st =
     (let agent_id = trim (ef_agent_id form);
          sponsor_id = or_default (ef_sponsor_id form);
          sponsor_name = or_default (ef_sponsor_name form) in
      if agent_id = [] then (SeeOther ''/agents?err=agent+id+required'', st)
      else if trim sponsor_id = [] \<or> trim sponsor_name = []
      then (SeeOther ''/agents?err=sponsor+id+and+name+required+(RAE)'', st)
      else (case decode_public_key (ue_crypto env) (trim (ef_public_key form)) of
              Inl e \<Rightarrow>
                (redirect_with ''/agents?err=''
                   (''that is not a bare base64url Ed25519 public key: '' @ enrollment_error_text env e), st)
            | Inr _ \<Rightarrow>
                (case enroll (ue_crypto env) (ue_codec env) (ue_enroll_io env) agent_id (trim (ef_public_key form))
                        (trim sponsor_id) (trim sponsor_name) (ue_now env) False (us_enrollment st) of
                   (Inr _, es) \<Rightarrow>
                     (redirect_with ''/agents?msg='' (''enrolled '' @
                       agent_id), st\<lparr>us_enrollment := es\<rparr>)
                 | (Inl e, es) \<Rightarrow>
                     (redirect_with ''/agents?err='' (enrollment_error_text env e), st\<lparr>us_enrollment := es\<rparr>))))"

definition agents_revoke :: "ui_env \<Rightarrow> string \<Rightarrow> ui_state \<Rightarrow> ui_response \<times> ui_state" where
  "agents_revoke env form_agent st =
     (case revoke (ue_codec env) (ue_enroll_io env) (trim form_agent) (ue_now env) (us_enrollment st) of
        (Inr True, es) \<Rightarrow>
          (redirect_with ''/agents?msg='' (''revoked '' @ trim form_agent @ ''; effective immediately''),
           st\<lparr>us_enrollment := es\<rparr>)
      | (Inr False, es) \<Rightarrow> (SeeOther ''/agents?msg=was+not+enrolled'', st\<lparr>us_enrollment := es\<rparr>)
      | (Inl e, es) \<Rightarrow> (redirect_with ''/agents?err='' (enrollment_error_text env e), st\<lparr>us_enrollment := es\<rparr>))"

section \<open>Rules\<close>

definition axis_text :: "matcher \<Rightarrow> string" where
  "axis_text m = (case matcher_source m of None \<Rightarrow> ''*'' | Some s \<Rightarrow> s)"

definition rule_axes_text :: "rule \<Rightarrow> string" where
  "rule_axes_text r =
     ''agent='' @ axis_text (r_agent_id r) @ '' '' @ [CHR 0xC2, CHR 0xB7] @ '' cred='' @ axis_text (r_cred_ref r) @
     '' '' @ [CHR 0xC2, CHR 0xB7] @ '' target='' @ axis_text (r_target_uri r) @ '' '' @ [CHR 0xC2, CHR 0xB7] @
       '' mech='' @ axis_text (r_mechanism r)"

definition rule_pairs_text :: "rule \<Rightarrow> string" where
  "rule_pairs_text r =
     (if r_pairs r = [] then []
      else '' '' @ [CHR 0xC2, CHR 0xB7] @ '' '' @ dec_of_nat (length (r_pairs r)) @ '' pair(s): '' @
        join_with ''; '' (map (\<lambda>p. axis_text (p_cred_ref p) @ '' '' @ [CHR 0xE2, CHR 0x86, CHR 0x92] @
          '' '' @ axis_text (p_target_uri p)) (r_pairs r)))"

definition limits_text :: "limits \<Rightarrow> string" where
  "limits_text l =
     (case max_response_bytes l of None \<Rightarrow> [] | Some v \<Rightarrow> ''max_response='' @
       dec_of_nat (unat v)) @
     (case session_ttl_s l of None \<Rightarrow> [] | Some v \<Rightarrow> '' ttl='' @ dec_of_nat (unat v) @ ''s'')"

definition rule_row :: "nat \<Rightarrow> rule \<Rightarrow> string" where
  "rule_row index r =
     ''<tr><td>'' @ dec_of_nat index @ ''</td><td>'' @ esc (or_default (r_name r)) @ ''</td><td>'' @
     effect_badge (effect_str (r_effect r)) @ ''</td><td class=\"muted\">'' @
     esc (rule_axes_text r @ rule_pairs_text r) @ ''</td><td>'' @
     (if r_notify_on_use r then [CHR 0xE2, CHR 0x9C, CHR 0x85] else [CHR 0xE2, CHR 0x80, CHR 0x94]) @
       ''</td><td class=\"muted\">'' @
     esc (trim (limits_text (r_limits r))) @
     ''</td><td><form class=\"inline\" method=\"post\" action=\"/rules/delete\"><input type=\"hidden\" '' @
       ''name=\"index\" value=\"'' @
     dec_of_nat index @ ''\"><button class=\"danger\" type=\"submit\">delete</button></form></td></tr>''"

definition rules_page :: "ui_env \<Rightarrow> ui_config \<Rightarrow> pairs \<Rightarrow> ui_state \<Rightarrow> ui_response" where
  "rules_page env cfg flash st =
     ui_page ''Rules'' (fst (flash_from flash)) (snd (flash_from flash))
      (''<h1>Rules</h1>'' @
       (case current_policy env cfg st of
          Inl e \<Rightarrow>
            ''<div class=\"err\">policy.toml does not parse: '' @ esc e @
            '' <a href=\"/policy/raw\">Fix it in the raw editor</a>.</div>''
        | Inr p \<Rightarrow>
            (if rules p = [] then
               ''<p class=\"muted\">No rules: EVERYTHING is denied by the structural default-deny floor. Add your '' @
                 ''first rule below.</p>''
             else
               ''<table><tr><th>#</th><th>Name</th><th>Effect</th><th>Match '' @
                 ''axes</th><th>Notify</th><th>Limits</th><th></th></tr>'' @
               concat (map (\<lambda>(i, r). rule_row i r) (List.enumerate 0 (rules p))) @ ''</table>'') @
            ''<p><a href=\"/rules/new\"><button type=\"button\">Add a rule</button></a> or <a '' @
              ''href=\"/policy/raw\">edit the TOML directly</a>.</p>''))
      st"

definition mechanism_option :: "(string \<Rightarrow> string) \<Rightarrow> string \<Rightarrow> mechanism_row \<Rightarrow> string" where
  "mechanism_option id_text mech m =
     ''<option value=\"'' @ id_text (mr_id m) @ ''\"'' @ (if mr_id m = mech then '' selected'' else []) @ ''>'' @
     esc (mr_label m) @ '' ['' @ maturity_badge (mr_maturity m) @ '']</option>''"

definition template_picker :: "string \<Rightarrow> service_template list \<Rightarrow> string" where
  "template_picker template_id ts =
     (if ts \<noteq> [] then
        ''<p><label><strong>Service template</strong><br><select name=\"template\">'' @
        ''<option value=\"\">custom (free-text target)</option>'' @
        concat (map (\<lambda>t. ''<option value=\"'' @ esc (st_name t) @ ''\"'' @
          (if st_name t = template_id then '' selected'' else []) @ ''>'' @ esc (st_name t) @ ''</option>'') ts) @
        ''</select></label></p>'' @
        ''<button type=\"submit\" formnovalidate>Load template '' @ [CHR 0xE2, CHR 0x86, CHR 0x92] @ ''</button>''
      else ''<button type=\"submit\">Choose '' @ [CHR 0xE2, CHR 0x86, CHR 0x92] @ ''</button>'')"

definition mechanism_card :: "string \<Rightarrow> string" where
  "mechanism_card mech =
     (case mechanism_of mech of
        None \<Rightarrow> []
      | Some m \<Rightarrow>
          ''<div class=\"card\"><strong>'' @ esc (mr_label m) @ ''</strong> <span class=\"badge\">'' @
          maturity_badge (mr_maturity m) @ ''</span><br><span class=\"muted\">Lifecycle: '' @ esc (mr_lifecycle m) @
          '' '' @ [CHR 0xC2, CHR 0xB7] @ '' Vault holds: '' @ esc (mr_credential_form m) @ '' '' @
            [CHR 0xC2, CHR 0xB7] @ '' Confirmation: '' @
          esc (mr_confirmation m) @ ''</span></div>'')"

definition effect_select :: "string \<Rightarrow> string" where
  "effect_select effect =
     ''<select name=\"effect\">'' @ [CHR 0x0A] @ ''         <option value=\"allow\"'' @
     (if effect = ''allow'' then '' selected'' else []) @
     ''>allow '' @ [CHR 0xE2, CHR 0x80, CHR 0x94] @ '' proceed without prompting</option>'' @ [CHR 0x0A] @
       ''         <option value=\"needs_confirmation\"'' @
     (if effect = ''needs_confirmation'' then '' selected'' else []) @
     ''>needs_confirmation '' @ [CHR 0xE2, CHR 0x80, CHR 0x94] @ '' human gate each use</option>'' @ [CHR 0x0A] @
       ''         <option value=\"deny\"'' @
     (if effect = ''deny'' then '' selected'' else []) @
     ''>deny '' @ [CHR 0xE2, CHR 0x80, CHR 0x94] @ '' explicit refusal</option></select>''"

definition pairs_area :: "string \<Rightarrow> string" where
  "pairs_area pairs_prefill =
     ''<textarea name=\"pairs\" rows=\"4\" spellcheck=\"false\" placeholder=\"local://ssh/fleet/app-01 | '' @
       ''ssh://app-01.internal:22&#10;local://ssh/fleet/app-02 | ssh://app-02.internal:22\">'' @
     esc pairs_prefill @
     ''</textarea><p class=\"muted\">Leave blank for a plain axis rule. When set, the request must match '' @
       ''one binding <em>in addition</em> to the axes above '' @ [CHR 0xE2, CHR 0x80, CHR 0x94] @
       '' this is how one rule binds each fleet key to its own host (D43). Each field takes the same '' @
       ''<code>glob:</code>/<code>prefix:</code>/<code>exact:</code> tags as the axes; a bare value is '' @
       ''an exact match.</p>''"

text \<open>The values the editor is filled with: the query, then the template, then empty.\<close>

record rule_prefill =
  pf_target :: string
  pf_agent :: string
  pf_cred :: string
  pf_pairs :: string
  pf_effect :: string

definition query_value :: "pairs \<Rightarrow> string \<Rightarrow> string" where
  "query_value params k = or_default (map_of params k)"

definition chosen_template :: "pairs \<Rightarrow> service_template option" where
  "chosen_template params =
     List.find (\<lambda>t. st_name t = query_value params ''template'') (templates_for (query_value params ''mechanism''))"

definition rule_prefill_of :: "pairs \<Rightarrow> rule_prefill" where
  "rule_prefill_of params = \<lparr>
     pf_target = (let from_query = query_value params ''target_uri'' in
       if from_query = [] then (case chosen_template params of None \<Rightarrow> [] | Some t \<Rightarrow> st_target_uri t)
       else from_query),
     pf_agent = query_value params ''agent_id'',
     pf_cred = query_value params ''cred_ref'',
     pf_pairs = query_value params ''pairs'',
     pf_effect = (let e = query_value params ''effect'' in if e = [] then ''allow'' else e)\<rparr>"

definition rule_preview :: "pairs \<Rightarrow> string" where
  "rule_preview params =
     (let pf = rule_prefill_of params in
      (case candidate_rule (query_value params ''mechanism'') (pf_target pf) (pf_agent pf) (pf_cred pf)
              (pf_effect pf) (pf_pairs pf) of
         Some candidate \<Rightarrow> preview_block candidate
       | None \<Rightarrow>
           ''<div class=\"card\"><strong>Preview unavailable</strong><br><span class=\"muted\">the effect is not '' @
             ''one of allow / needs_confirmation / deny, so there is nothing valid to describe              '' @
             ''yet.</span></div>''))"

definition rules_new :: "ui_env \<Rightarrow> pairs \<Rightarrow> ui_state \<Rightarrow> ui_response" where
  "rules_new env params st =
     (let mech = query_value params ''mechanism''; pf = rule_prefill_of params in
      ui_page ''Add rule'' None None
       (''<h1>Add a rule</h1>'' @
        ''<p class=\"muted\">Step 1: choose how the agent reaches out. Badges are the CONNECTIVITY-MATRIX '' @
          ''maturity column '' @ [CHR 0xE2, CHR 0x80, CHR 0x94] @ '' read a '' @
          [CHR 0xE2, CHR 0x9A, CHR 0xA0, CHR 0xEF, CHR 0xB8, CHR 0x8F] @
          '' caveat BEFORE building on it.</p>'' @
        ''<form method=\"get\" action=\"/rules/new\">'' @
        ''<p><label><strong>Mechanism</strong><br><select name=\"mechanism\">'' @
        concat (map (mechanism_option (\<lambda>s. s) mech) mechanisms) @ ''</select></label></p>'' @
        template_picker (query_value params ''template'') (templates_for mech) @
        ''</form>'' @
        mechanism_card mech @
        (case Option.bind (chosen_template params) st_note of None \<Rightarrow> [] | Some note \<Rightarrow>
           ''<div class=\"err\">'' @ esc note @ ''</div>'') @
        ''<form method=\"post\" action=\"/rules/add\">'' @
        ''<input type=\"hidden\" name=\"mechanism\" value=\"'' @ esc mech @ ''\">'' @
        field ''Rule name (optional)'' (''<input name=\"name\" placeholder=\"ci agent may read github\">'') @
        field ''Target URI glob (free text; templates prefill a tested shape)''
          (''<input name=\"target_uri\" placeholder=\"https://api.example.com/*\" value=\"'' @ esc (pf_target pf) @
           ''\" spellcheck=\"false\">'') @
        ''<datalist id=\"agent-ids\">'' @
        concat (map (\<lambda>r. ''<option value=\"'' @ esc (er_agent_id r) @
          ''\">'') (enrollment_list (us_enrollment st))) @
        ''</datalist>'' @
        ''<datalist id=\"cred-refs\">'' @
        concat (map (\<lambda>p. ''<option value=\"local://'' @ esc p @ ''\">'')
          (case vault_paths env st of None \<Rightarrow> [] | Some ps \<Rightarrow> ps)) @
        ''</datalist>'' @
        ''<div class=\"grid\"><p><label><strong>Agent id</strong> (empty = any)<br><input name=\"agent_id\" '' @
          ''list=\"agent-ids\" value=\"'' @
        esc (pf_agent pf) @
        ''\" placeholder=\"agent:my-agent\" spellcheck=\"false\"></label></p><p><label><strong>Credential '' @
          ''reference</strong> (scheme://path)<br><input name=\"cred_ref\" list=\"cred-refs\" value=\"'' @
        esc (pf_cred pf) @
        ''\" placeholder=\"local://prod/github/token\" spellcheck=\"false\"></label></p></div>'' @
        field ''Effect'' (effect_select (pf_effect pf)) @
        ''<p><label><input type=\"checkbox\" name=\"notify_on_use\" checked> notify me when this credential '' @
          ''is used (on_use)</label></p>'' @
        field ''Credential-to-endpoint bindings (optional; one per line: cred_ref | target_uri)'' (pairs_area (pf_pairs pf)) @
        ''<div class=\"grid\">'' @
        field ''Max response bytes (optional)''
          (''<input name=\"max_response_bytes\" inputmode=\"numeric\" placeholder=\"1048576\">'') @
        field ''Session TTL seconds (optional)''
          (''<input name=\"session_ttl_s\" inputmode=\"numeric\" placeholder=\"300\">'') @
        ''</div>'' @
        rule_preview params @
        ''<p><button type=\"submit\">Validate &amp; save rule</button> <a href=\"/policy/test\">Test a '' @
          ''request against the saved rules '' @ [CHR 0xE2, CHR 0x86, CHR 0x92] @ ''</a></p></form>'')
       st)"

record rule_form =
  rf_name :: string
  rf_mechanism :: string
  rf_agent_id :: string
  rf_cred_ref :: string
  rf_target_uri :: string
  rf_pairs :: string
  rf_effect :: string
  rf_notify_on_use :: "string option"
  rf_max_response_bytes :: string
  rf_session_ttl_s :: string

text \<open>The pair rows of the form, from line number \<open>li\<close> on; the error is the message shown.\<close>

fun form_pairs :: "nat \<Rightarrow> string list \<Rightarrow> (string, pair_row list) result" where
  "form_pairs li [] = Ok []"
| "form_pairs li (l # ls) =
     (let line = trim l in
      if line = [] then form_pairs (Suc li) ls
      else (case split_once line ''|'' of
              None \<Rightarrow> Err (''pair line '' @ dec_of_nat (li + 1) @ '' must be '' @ [CHR 0x60] @
                ''cred_ref | target_uri'' @ [CHR 0x60])
            | Some (cred_raw, target_raw) \<Rightarrow>
                (case matcher_parse (trim cred_raw) of
                   Inl (MatcherError e) \<Rightarrow> Err (''pair line '' @ dec_of_nat (li + 1) @
                     '' cred_ref: invalid matcher: '' @ e)
                 | Inr c \<Rightarrow>
                     (case matcher_parse (trim target_raw) of
                        Inl (MatcherError e) \<Rightarrow>
                          Err (''pair line '' @ dec_of_nat (li + 1) @ '' target_uri: invalid matcher: '' @ e)
                      | Inr t \<Rightarrow>
                          map_sum id (\<lambda>ps. \<lparr>p_cred_ref = c, p_target_uri = t\<rparr> # ps) (form_pairs (Suc li) ls)))))"

definition parse_u64 :: "string \<Rightarrow> u64 option" where
  "parse_u64 s = map_option word_of_nat (parse_uint 64 s)"

definition form_rule :: "rule_form \<Rightarrow> pair_row list \<Rightarrow> rule" where
  "form_rule form pairs = \<lparr>
     r_name = (if trim (rf_name form) = [] then None else Some (trim (rf_name form))),
     r_notify_on_use = (rf_notify_on_use form \<in> {Some ''on'', Some ''true''}),
     r_effect = (case effect_parse (rf_effect form) of None \<Rightarrow> Deny | Some e \<Rightarrow> e),
     r_agent_id = form_axis (trim (rf_agent_id form)),
     r_cred_ref = form_axis (trim (rf_cred_ref form)),
     r_target_uri = form_axis (trim (rf_target_uri form)),
     r_mechanism = form_axis (rf_mechanism form),
     r_pairs = pairs,
     r_limits = \<lparr>max_response_bytes = parse_u64 (trim (rf_max_response_bytes form)),
                 session_ttl_s = parse_u64 (trim (rf_session_ttl_s form))\<rparr>\<rparr>"

text \<open>Rendered by the policy writer, read back by the policy parser, and only then written.\<close>

definition validated_doc :: "ui_env \<Rightarrow> rule list \<Rightarrow> (policy_error, string) result" where
  "validated_doc env rs =
     (let doc = to_toml (ue_quote env) (from_rules rs) in
      map_sum id (\<lambda>_. doc) (from_toml (ue_crypto env) (ue_toml env) doc))"

definition write_policy :: "ui_env \<Rightarrow> ui_config \<Rightarrow> string \<Rightarrow> ui_state \<Rightarrow> (string, unit) result \<times> ui_state" where
  "write_policy env cfg doc st =
     (case ui_atomic_write (uc_policy_path cfg) (ue_policy_io env) doc (us_policy st) of
        (r, entry) \<Rightarrow> (r, st\<lparr>us_policy := entry\<rparr>))"

definition rules_add :: "ui_env \<Rightarrow> ui_config \<Rightarrow> rule_form \<Rightarrow> ui_state \<Rightarrow> ui_response \<times> ui_state" where
  "rules_add env cfg form st =
     (if mechanism_of (rf_mechanism form) = None then (SeeOther ''/rules/new?err=unknown+mechanism'', st)
      else if rf_effect form \<notin> {''allow'', ''deny'', ''needs_confirmation''}
      then (SeeOther ''/rules/new?err=unknown+effect'', st)
      else (case form_pairs 0 (str_lines (rf_pairs form)) of
              Inl msg \<Rightarrow> (redirect_with ''/rules/new?err='' msg, st)
            | Inr pairs \<Rightarrow>
                (case current_policy env cfg st of
                   Inl e \<Rightarrow> (redirect_with ''/rules?err='' (''current policy does not parse; fix it first: '' @
                     e), st)
                 | Inr p \<Rightarrow>
                     (case validated_doc env (rules p @ [form_rule form pairs]) of
                        Inl e \<Rightarrow>
                          (redirect_with ''/rules?err=''
                            (''generated policy failed validation (not saved): '' @ policy_error_text e), st)
                      | Inr doc \<Rightarrow>
                          (case write_policy env cfg doc st of
                             (Inr _, st') \<Rightarrow>
                               (if (case us_gateway st of None \<Rightarrow> False | Some g \<Rightarrow> \<not> gw_halted g)
                                then redirect_with ''/rules?msg='' (''rule saved. The integrity guard will halt this daemon until you restart with the new policy.'')
                                else SeeOther ''/rules?msg=rule+saved'', st')
                           | (Inl e, st') \<Rightarrow> (redirect_with ''/rules?err='' e, st'))))))"

definition rules_delete :: "ui_env \<Rightarrow> ui_config \<Rightarrow> nat \<Rightarrow> ui_state \<Rightarrow> ui_response \<times> ui_state" where
  "rules_delete env cfg index st =
     (case current_policy env cfg st of
        Inl e \<Rightarrow> (redirect_with ''/rules?err='' e, st)
      | Inr p \<Rightarrow>
          if length (rules p) \<le> index then (SeeOther ''/rules?err=no+such+rule'', st)
          else (case validated_doc env (take index (rules p) @ drop (Suc index) (rules p)) of
                  Inl e \<Rightarrow>
                    (redirect_with ''/rules?err=''
                      (''generated policy failed validation (not saved): '' @ policy_error_text e), st)
                | Inr doc \<Rightarrow>
                    (case write_policy env cfg doc st of
                       (Inr _, st') \<Rightarrow> (SeeOther ''/rules?msg=rule+deleted%3B+restart+the+gateway+to+apply'', st')
                     | (Inl e, st') \<Rightarrow> (redirect_with ''/rules?err='' e, st'))))"

section \<open>The policy document\<close>

definition raw_page :: "pairs \<Rightarrow> ui_state \<Rightarrow> ui_response" where
  "raw_page flash st =
     ui_page ''Policy TOML'' None None
      (''<h1>Policy TOML</h1>'' @
       (case snd (flash_from flash) of None \<Rightarrow> [] | Some e \<Rightarrow>
          ''<div class=\"err\">'' @ esc (plus_to_space e) @ ''</div>'') @
       ''<form method=\"post\" action=\"/policy/raw\"><textarea name=\"doc\" rows=\"18\" spellcheck=\"false\">'' @
       esc (or_default (read_text (us_policy st))) @
       ''</textarea><p><button type=\"submit\">Validate &amp; save</button> <span class=\"muted\">saved '' @
         ''through the one validator; invalid documents are refused</span></p></form>'')
      st"

record test_form =
  tf_agent_id :: string
  tf_cred_ref :: string
  tf_target_uri :: string
  tf_mechanism :: string

definition test_inputs :: "test_form \<Rightarrow> string" where
  "test_inputs form =
     ''<form method=\"post\" action=\"/policy/test\" class=\"card\"><input name=\"agent_id\" value=\"'' @
     esc (tf_agent_id form) @
     ''\" placeholder=\"agent:my-agent\" spellcheck=\"false\"><br><input name=\"cred_ref\" value=\"'' @
     esc (tf_cred_ref form) @
     ''\" placeholder=\"local://prod/github/token\" spellcheck=\"false\"><br><input name=\"target_uri\" '' @
       ''value=\"'' @
     esc (tf_target_uri form) @
     ''\" placeholder=\"https://api.github.com/user\" spellcheck=\"false\"><br><input name=\"mechanism\" '' @
       ''value=\"'' @
     esc (tf_mechanism form) @
     ''\" placeholder=\"http-bearer\" spellcheck=\"false\"><p><button type=\"submit\">Evaluate</button> <span '' @
       ''class=\"muted\">runs the real engine against your saved rules; nothing is enforced and nothing is '' @
       ''contacted</span></p></form>''"

definition policy_test :: "ui_env \<Rightarrow> test_form \<Rightarrow> ui_state \<Rightarrow> ui_response" where
  "policy_test env form st =
     (case from_toml (ue_crypto env) (ue_toml env) (or_default (read_text (us_policy st))) of
        Inl e \<Rightarrow>
          ui_page ''Decision test'' None None
           (''<h1>Decision test</h1>'' @
            ''<div class=\"err\">The saved policy did not load, so no verdict can be given: '' @
              policy_error_text e @ ''</div>'' @
            ''<p><a href=\"/rules\">Back to rules</a></p>'')
           st
      | Inr p \<Rightarrow>
          (let d = evaluate p \<lparr>q_agent_id = trim (tf_agent_id form), q_cred_ref = trim (tf_cred_ref form),
                 q_target_uri = trim (tf_target_uri form), q_mechanism = trim (tf_mechanism form), q_declared = None\<rparr> in
           ui_page ''Decision test'' None None
            (''<h1>Decision test</h1>'' @
             verdict_block (effect_str (d_effect d)) (source_label (d_source d)) @
             test_inputs form @
             ''<p><a href=\"/rules\">Back to rules</a></p>'')
            st))"

definition raw_save :: "ui_env \<Rightarrow> ui_config \<Rightarrow> string \<Rightarrow> ui_state \<Rightarrow> ui_response \<times> ui_state" where
  "raw_save env cfg doc st =
     (case from_toml (ue_crypto env) (ue_toml env) doc of
        Inr _ \<Rightarrow>
          (case write_policy env cfg doc st of
             (Inr _, st') \<Rightarrow> (SeeOther ''/rules?msg=policy+saved%3B+restart+the+gateway+to+apply'', st')
           | (Inl e, st') \<Rightarrow> (redirect_with ''/policy/raw?err='' e, st'))
      | Inl e \<Rightarrow> (redirect_with ''/policy/raw?err='' (''NOT saved, schema rejected it: '' @
        policy_error_text e), st))"

section \<open>Setup\<close>

definition tick :: "bool \<Rightarrow> string" where
  "tick b = (if b then [CHR 0xE2, CHR 0x9C, CHR 0x85] else [CHR 0xE2, CHR 0x8F, CHR 0xB8])"

definition no_recovery_warning :: string where
  "no_recovery_warning =
     ''<div class=\"err\"><strong>There is no recovery path for this vault.</strong> If you lose this '' @
       ''passphrase the secrets inside are gone '' @ [CHR 0xE2, CHR 0x80, CHR 0x94] @
       '' no reset, no backdoor, no support escalation; that absence is the security model working, not '' @
       ''an oversight. <strong>Backing up</strong> means copying the sealed file itself somewhere safe '' @
       ''(it stays encrypted, and a copy still needs this passphrase to open). Full procedure: '' @
       ''LOCAL-VAULT-GUIDE.md '' @ [CHR 0xC2, CHR 0xA7] @ ''6.</div>''"

definition vault_form :: string where
  "vault_form =
     ''<form method=\"post\" action=\"/setup/vault\"><p><label>Passphrase<br><input type=\"password\" '' @
       ''name=\"passphrase\" autocomplete=\"new-password\" required></label></p><p><label>Confirm '' @
       ''passphrase<br><input type=\"password\" name=\"confirm\" autocomplete=\"new-password\" '' @
       ''required></label></p><button type=\"submit\">Create vault</button></form>''"

definition setup_page :: "ui_config \<Rightarrow> pairs \<Rightarrow> ui_state \<Rightarrow> ui_response" where
  "setup_page cfg flash st =
     (let prov = provisioned st in
      ui_page ''Setup'' (map_of flash ''msg'') (map_of flash ''err'')
       (''<h1>Setup</h1>'' @
        ''<p class=\"muted\">Each step writes the real file the gateway reads. Nothing here is a '' @
          ''simulation; re-run any step to replace an artifact.</p>'' @
        (if provision_complete prov then
           ''<div class=\"ok\">All required artifacts exist. Restart <code>chaperone serve</code> (or it is '' @
             ''already running) and the broker will pick them up.</div>''
         else []) @
        ''<h2>1 '' @ [CHR 0xC2, CHR 0xB7] @ '' Agent enrollment store '' @ tick (pv_enrollment prov) @
          ''</h2><p class=\"muted\"><code>'' @
        esc (uc_enrollment_path cfg) @
        ''</code> '' @ [CHR 0xE2, CHR 0x80, CHR 0x94] @
          '' created automatically when you <a href=\"/agents\">enroll the first agent</a>.</p>'' @
        ''<h2>2 '' @ [CHR 0xC2, CHR 0xB7] @ '' Policy file '' @ tick (pv_policy prov) @
          ''</h2><p class=\"muted\"><code>'' @
        esc (fp_text (uc_policy_path cfg)) @ ''</code></p>'' @
        (if pv_policy prov then
           ''<p><a href=\"/rules\">Edit rules</a> or <a href=\"/policy/raw\">view the TOML</a>.</p>''
         else
           ''<form method=\"post\" action=\"/setup/policy\"><button type=\"submit\">Write empty default-deny '' @
             ''policy</button><span class=\"muted\"> (an empty document is a VALID pure default-deny ruleset: '' @
             ''every intent denied until you add rules)</span></form>'') @
        ''<h2>3 '' @ [CHR 0xC2, CHR 0xB7] @ '' Local secret vault '' @ tick (pv_vault prov) @
          ''</h2><p class=\"muted\"><code>'' @
        esc (uc_vault_path cfg) @
        ''</code> '' @ [CHR 0xE2, CHR 0x80, CHR 0x94] @
          '' argon2id + AES-256-GCM, sealed with your passphrase (<a href=\"#\" '' @
          ''title=\"LOCAL-VAULT-GUIDE.md\">guide</a>)</p>'' @
        (if pv_vault prov then [] else no_recovery_warning @ vault_form) @
        ''<h2>4 '' @ [CHR 0xC2, CHR 0xB7] @ '' Audit chain signing key '' @ tick (pv_audit_key prov) @
          ''</h2><p class=\"muted\"><code>'' @
        esc (fp_text (uc_audit_key_path cfg)) @
        ''</code> '' @ [CHR 0xE2, CHR 0x80, CHR 0x94] @
          '' Ed25519 seed; every audit record is signed with it. Back this file up.</p>'' @
        (if pv_audit_key prov then []
         else ''<form method=\"post\" action=\"/setup/audit-key\"><button type=\"submit\">Generate audit '' @
           ''key</button></form>''))
       st)"

definition create_vault :: "ui_env \<Rightarrow> ui_config \<Rightarrow> string \<Rightarrow> string \<Rightarrow> ui_state \<Rightarrow> ui_response \<times> ui_state" where
  "create_vault env cfg passphrase confirm st =
     (if passphrase = [] then (SeeOther ''/setup?err=passphrase+must+not+be+empty'', st)
      else if passphrase \<noteq> confirm then (SeeOther ''/setup?err=passphrases+do+not+match'', st)
      else (case vault_create (ue_vault env) (pv_vault (provisioned st)) (ue_vault_io env) ''passphrase'' passphrase
                   (ue_salt env) (ue_dek env) (ue_seal_nonce env) (ue_nonce env) of
              Inr v \<Rightarrow> (SeeOther ''/setup?msg=vault+created'', st\<lparr>us_vault := Some v\<rparr>)
            | Inl e \<Rightarrow> (redirect_with ''/setup?err='' (''vault create failed: '' @
              vault_error_display env cfg e), st)))"

definition create_policy :: "ui_env \<Rightarrow> ui_config \<Rightarrow> ui_state \<Rightarrow> ui_response \<times> ui_state" where
  "create_policy env cfg st =
     (if us_policy st \<noteq> Missing then (SeeOther ''/setup?err=policy+already+exists'', st)
      else (case write_policy env cfg (to_toml (ue_quote env) policy_empty) st of
              (Inr _, st') \<Rightarrow> (SeeOther ''/setup?msg=default-deny+policy+written'', st')
            | (Inl e, st') \<Rightarrow> (redirect_with ''/setup?err='' e, st')))"

text \<open>The key file holds the encoded seed.\<close>

definition write_audit_key :: "ui_env \<Rightarrow> ui_config \<Rightarrow> ui_state \<Rightarrow> (string, unit) result \<times> ui_state" where
  "write_audit_key env cfg st =
     (case ui_atomic_write (uc_audit_key_path cfg) (ue_audit_io env)
             (encode_signature (ue_crypto env) (ue_seed env)) (us_audit_key st) of
        (r, entry) \<Rightarrow> (r, st\<lparr>us_audit_key := entry\<rparr>))"

definition create_audit_key :: "ui_env \<Rightarrow> ui_config \<Rightarrow> ui_state \<Rightarrow> ui_response \<times> ui_state" where
  "create_audit_key env cfg st =
     (if us_audit_key st \<noteq> Missing
      then (SeeOther ''/setup?err=audit+key+already+exists%3B+refusing+to+overwrite'', st)
      else (case write_audit_key env cfg st of
              (Inr _, st') \<Rightarrow>
                (redirect_with ''/setup?msg=''
                   (''audit key written; public key: '' @
                    b64u_encode (ue_crypto env) (ed_public (ue_crypto env) (ue_seed env))), st')
            | (Inl e, st') \<Rightarrow> (redirect_with ''/setup?err='' e, st')))"

section \<open>The connect flow\<close>

record connect_form =
  cf_mechanism :: string
  cf_agent_id :: string
  cf_cred_ref :: string
  cf_target_uri :: string
  cf_effect :: string
  cf_public_key :: string
  cf_sponsor_id :: string
  cf_sponsor_name :: string
  cf_secret :: string

definition connect_card :: "string \<Rightarrow> string" where
  "connect_card mech =
     (case mechanism_of mech of
        None \<Rightarrow> []
      | Some m \<Rightarrow>
          ''<div class=\"card\"><strong>'' @ esc (mr_label m) @ ''</strong> <span class=\"badge\">'' @
          maturity_badge (mr_maturity m) @ ''</span><br><span class=\"muted\">Holds: '' @ esc (mr_credential_form m) @
          '' &middot; Confirmation: '' @ esc (mr_confirmation m) @ ''</span></div>'')"

definition connect_page :: "pairs \<Rightarrow> ui_state \<Rightarrow> ui_response" where
  "connect_page params st =
     (let mech = (case map_of params ''mechanism'' of None \<Rightarrow> ''http-bearer'' | Some m \<Rightarrow> m) in
      ui_page ''Connect a service'' None None
       (''<h1>Connect a service</h1>'' @
        ''<p class=\"muted\">One form, four artifacts: a rule, a vault entry, an enrolled agent, and a test '' @
          ''command you can paste. <a href=\"/setup\">The step-by-step wizard</a> remains if you prefer '' @
          ''it.</p>'' @
        (if us_vault st = None then
           ''<div class=\"err\">No vault is open. Create one in <a href=\"/setup\">Setup</a> first &mdash; this '' @
             ''flow stores your credential in it and will not create one implicitly.</div>''
         else []) @
        ''<form method=\"post\" action=\"/connect\">'' @
        ''<p><label><strong>How does the agent reach it?</strong><br><select name=\"mechanism\">'' @
        concat (map (mechanism_option esc mech) mechanisms) @ ''</select></label></p>'' @
        connect_card mech @
        field ''Which agent? (the enrolled identity)''
          (''<input name=\"agent_id\" placeholder=\"agent:my-agent\" spellcheck=\"false\" required>'') @
        field (''Whose credential is responsible? (RAE L0 '' @ [CHR 0xE2, CHR 0x80, CHR 0x94] @
          '' attribution must terminate at a named human)'')
          (''<input name=\"sponsor_id\" placeholder=\"human:alice\" spellcheck=\"false\" required>'') @
        field ''Sponsor name'' (''<input name=\"sponsor_name\" placeholder=\"Alice\" spellcheck=\"false\" required>'') @
        field ''Agent public key (base64url Ed25519, as the agent holds it)''
          (''<input name=\"public_key\" placeholder=\"base64url\" spellcheck=\"false\" required>'') @
        field (''Which credential? (scheme://path '' @ [CHR 0xE2, CHR 0x80, CHR 0x94] @ '' the name, not the value)'')
          (''<input name=\"cred_ref\" placeholder=\"local://prod/github/token\" spellcheck=\"false\" required>'') @
        field ''The credential itself (stored in the vault; never shown again)''
          (''<input name=\"secret\" type=\"password\" autocomplete=\"off\" required>'') @
        field ''Against what target?''
          (''<input name=\"target_uri\" placeholder=\"https://api.github.com/*\" spellcheck=\"false\" required>'') @
        ''<p><label><strong>Effect</strong><br><select name=\"effect\"><option value=\"allow\">allow &mdash; '' @
          ''proceed without prompting</option><option value=\"needs_confirmation\">needs_confirmation &mdash; '' @
          ''human gate each use</option><option value=\"deny\">deny &mdash; explicit '' @
          ''refusal</option></select></label></p>'' @
        ''<p><button type=\"submit\">Connect</button> <span class=\"muted\">validates everything first, then '' @
          ''writes; the rule goes last</span></p></form>'')
       st)"

definition connect_err :: "string \<Rightarrow> ui_response" where
  "connect_err msg = redirect_with ''/connect?err='' msg"

definition connect_path :: "connect_form \<Rightarrow> string" where
  "connect_path form =
     trim_slashes (case strip_prefix (trim (cf_cred_ref form)) ''local://'' of
       None \<Rightarrow> trim (cf_cred_ref form) | Some r \<Rightarrow> r)"

text \<open>The part before the first write: the message, or the document to write.\<close>

definition connect_check :: "ui_env \<Rightarrow> ui_config \<Rightarrow> connect_form \<Rightarrow> ui_state \<Rightarrow> (string, string) result" where
  "connect_check env cfg form st =
     (let agent_id = trim (cf_agent_id form); cred_ref = trim (cf_cred_ref form) in
      if us_vault st = None
      then Err (''no vault is open - create one in Setup first; this flow never creates one implicitly because '' @
        ''that would add a second secret to this form'')
      else if agent_id = [] \<or> cred_ref = [] then Err ''agent id and credential reference are both required''
      else if trim (cf_sponsor_id form) = [] \<or> trim (cf_sponsor_name form) = []
      then Err ''a named sponsor is required - attribution must terminate at a human''
      else if cf_secret form = [] then Err ''the credential itself is required''
      else (case decode_public_key (ue_crypto env) (trim (cf_public_key form)) of
        Inl e \<Rightarrow> Err (''that is not a bare base64url Ed25519 public key: '' @ enrollment_error_text env e)
      | Inr _ \<Rightarrow>
        if mechanism_of (trim (cf_mechanism form)) = None then Err ''unknown mechanism''
        else (case candidate_rule (trim (cf_mechanism form)) (trim (cf_target_uri form)) agent_id cred_ref
                     (trim (cf_effect form)) [] of
          None \<Rightarrow> Err ''the effect must be allow, needs_confirmation, or deny''
        | Some candidate \<Rightarrow>
          (case current_policy env cfg st of
             Inl e \<Rightarrow> Err (''the current policy does not parse, so nothing was written: '' @ e)
           | Inr p \<Rightarrow>
             (case validated_doc env (rules p @ [candidate\<lparr>r_name := Some (''connect: '' @
               cred_ref)\<rparr>]) of
                Inl e \<Rightarrow> Err (''the generated policy failed validation, so nothing was written: '' @
                  policy_error_text e)
              | Inr rendered \<Rightarrow>
                if connect_path form = [] then Err ''the credential reference needs a path after local://''
                else Ok rendered)))))"

definition is_file :: "path_entry \<Rightarrow> bool" where
  "is_file entry = (case entry of File _ \<Rightarrow> True | _ \<Rightarrow> False)"

definition connect_store_secret ::
    "ui_env \<Rightarrow> ui_config \<Rightarrow> string \<Rightarrow> string \<Rightarrow> ui_state \<Rightarrow> (string, unit) result \<times> ui_state" where
  "connect_store_secret env cfg cred_path secret st =
     (case us_vault st of
        None \<Rightarrow> (Ok (), st)
      | Some v \<Rightarrow>
          (case vault_set (ue_vault env) (ue_vault_io env) (ue_nonce env) cred_path secret v of
             (Inl e, v') \<Rightarrow>
               (Err (''the secret could not be stored, so NO rule was written: '' @ vault_error_display env cfg e),
                st\<lparr>us_vault := Some v'\<rparr>)
           | (Inr _, v') \<Rightarrow> (Ok (), st\<lparr>us_vault := Some v'\<rparr>)))"

definition connect_enroll :: "ui_env \<Rightarrow> connect_form \<Rightarrow> ui_state \<Rightarrow> (string, unit) result \<times> ui_state" where
  "connect_enroll env form st =
     (case enroll (ue_crypto env) (ue_codec env) (ue_enroll_io env) (trim (cf_agent_id form)) (trim (cf_public_key form))
             (trim (cf_sponsor_id form)) (trim (cf_sponsor_name form)) (ue_now env) False (us_enrollment st) of
        (Inl e, es) \<Rightarrow>
          (Err (''the agent could not be enrolled, so NO rule was written: '' @ enrollment_error_text env e),
           st\<lparr>us_enrollment := es\<rparr>)
      | (Inr _, es) \<Rightarrow> (Ok (), st\<lparr>us_enrollment := es\<rparr>))"

definition connect_audit_key :: "ui_env \<Rightarrow> ui_config \<Rightarrow> ui_state \<Rightarrow> (string, unit) result \<times> ui_state" where
  "connect_audit_key env cfg st =
     (if is_file (us_audit_key st) then (Ok (), st)
      else (case write_audit_key env cfg st of
              (Inl e, st') \<Rightarrow> (Err (''the audit key could not be written, so NO rule was written: '' @
                e), st')
            | (Inr _, st') \<Rightarrow> (Ok (), st')))"

definition connect_submit :: "ui_env \<Rightarrow> ui_config \<Rightarrow> connect_form \<Rightarrow> ui_state \<Rightarrow> ui_response \<times> ui_state" where
  "connect_submit env cfg form st =
     (case connect_check env cfg form st of
        Inl msg \<Rightarrow> (connect_err msg, st)
      | Inr rendered \<Rightarrow>
          (case connect_store_secret env cfg (connect_path form) (cf_secret form) st of
             (Inl msg, st1) \<Rightarrow> (connect_err msg, st1)
           | (Inr _, st1) \<Rightarrow>
               (case connect_enroll env form st1 of
                  (Inl msg, st2) \<Rightarrow> (connect_err msg, st2)
                | (Inr _, st2) \<Rightarrow>
                    (case connect_audit_key env cfg st2 of
                       (Inl msg, st3) \<Rightarrow> (connect_err msg, st3)
                     | (Inr _, st3) \<Rightarrow>
                         (case write_policy env cfg rendered st3 of
                            (Inl e, st4) \<Rightarrow> (connect_err (''the policy could not be written: '' @ e), st4)
                          | (Inr _, st4) \<Rightarrow>
                              (SeeOther (''/connect/done?cred_ref='' @ urlenc (trim (cf_cred_ref form)) @
                                 ''&agent_id='' @ urlenc (trim (cf_agent_id form))), st4))))))"

definition connect_done :: "ui_config \<Rightarrow> pairs \<Rightarrow> ui_state \<Rightarrow> ui_response" where
  "connect_done cfg params st =
     ui_page ''Connected'' None None
      (''<h1>Connected</h1>'' @
       ''<div class=\"ok\">Rule, vault entry, and enrolled identity are in place. Restart the gateway to '' @
         ''load the new policy.</div>'' @
       ''<div class=\"card\"><strong>Prove it end to end</strong><br><span class=\"muted\">This enrolls a '' @
         ''throwaway keypair and sends one signed intent. It references your credential by name; it never '' @
         ''carries the value.</span><br><code>python3 docs/skill/test-agent.py --enroll-store '' @
       esc (uc_enrollment_path cfg) @ '' --agent-id '' @ esc (query_value params ''agent_id'') @ ''</code></div>'' @
       ''<p class=\"muted\">Credential reference: <code>'' @ esc (query_value params ''cred_ref'') @
       ''</code></p><p><a href=\"/rules\">Review the rule</a> &middot; <a href=\"/policy/test\">Test a '' @
         ''request</a> &middot; <a href=\"/connect\">Connect another</a></p>'')
      st"

section \<open>The router\<close>

definition routes :: ui_routes where
  "routes =
     [(''/token'', ''GET'', TokenPage), (''/token'', ''POST'', TokenSubmit), (''/'', ''GET'', Dashboard),
      (''/setup'', ''GET'', SetupPage), (''/setup/vault'', ''POST'', CreateVault),
      (''/setup/policy'', ''POST'', CreatePolicy), (''/setup/audit-key'', ''POST'', CreateAuditKey),
      (''/secrets'', ''GET'', SecretsPage), (''/secrets'', ''POST'', SecretsStore),
      (''/secrets/delete'', ''POST'', SecretsDelete), (''/agents'', ''GET'', AgentsPage),
      (''/agents'', ''POST'', AgentsEnroll), (''/agents/enroll'', ''POST'', AgentsEnroll),
      (''/agents/revoke'', ''POST'', AgentsRevoke), (''/rules'', ''GET'', RulesPage),
      (''/rules/new'', ''GET'', RulesNew), (''/rules/add'', ''POST'', RulesAdd),
      (''/rules/delete'', ''POST'', RulesDelete), (''/policy/raw'', ''GET'', RawPage),
      (''/policy/raw'', ''POST'', RawSave), (''/policy/test'', ''POST'', PolicyTest),
      (''/connect'', ''GET'', ConnectPage), (''/connect'', ''POST'', ConnectSubmit),
      (''/connect/done'', ''GET'', ConnectDone)]"

definition rule_form_of :: "pairs \<Rightarrow> rule_form option" where
  "rule_form_of f =
     Option.bind (default_field f ''name'') (\<lambda>name. Option.bind (required_field f ''mechanism'') (\<lambda>mech.
     Option.bind (default_field f ''agent_id'') (\<lambda>agent. Option.bind (default_field f ''cred_ref'') (\<lambda>cred.
     Option.bind (default_field f ''target_uri'') (\<lambda>target. Option.bind (default_field f ''pairs'') (\<lambda>prs.
     Option.bind (required_field f ''effect'') (\<lambda>eff. Option.bind (optional_field f ''notify_on_use'') (\<lambda>notify.
     Option.bind (default_field f ''max_response_bytes'') (\<lambda>maxb. Option.bind (default_field f ''session_ttl_s'') (\<lambda>ttl.
       Some \<lparr>rf_name = name, rf_mechanism = mech, rf_agent_id = agent, rf_cred_ref = cred, rf_target_uri = target,
         rf_pairs = prs, rf_effect = eff, rf_notify_on_use = notify, rf_max_response_bytes = maxb,
         rf_session_ttl_s = ttl\<rparr>))))))))))"

definition connect_form_of :: "pairs \<Rightarrow> connect_form option" where
  "connect_form_of f =
     (case map (required_field f) [''mechanism'', ''agent_id'', ''cred_ref'', ''target_uri'', ''effect'', ''public_key'',
             ''sponsor_id'', ''sponsor_name'', ''secret''] of
        [Some m, Some a, Some c, Some t, Some e, Some k, Some si, Some sn, Some s] \<Rightarrow>
          Some \<lparr>cf_mechanism = m, cf_agent_id = a, cf_cred_ref = c, cf_target_uri = t, cf_effect = e,
            cf_public_key = k, cf_sponsor_id = si, cf_sponsor_name = sn, cf_secret = s\<rparr>
      | _ \<Rightarrow> None)"

definition enroll_form_of :: "pairs \<Rightarrow> enroll_form option" where
  "enroll_form_of f =
     Option.bind (required_field f ''agent_id'') (\<lambda>a. Option.bind (required_field f ''public_key'') (\<lambda>k.
     Option.bind (optional_field f ''sponsor_id'') (\<lambda>si. Option.bind (optional_field f ''sponsor_name'') (\<lambda>sn.
       Some \<lparr>ef_agent_id = a, ef_public_key = k, ef_sponsor_id = si, ef_sponsor_name = sn\<rparr>))))"

definition test_form_of :: "pairs \<Rightarrow> test_form option" where
  "test_form_of f =
     (case map (required_field f) [''agent_id'', ''cred_ref'', ''target_uri'', ''mechanism''] of
        [Some a, Some c, Some t, Some m] \<Rightarrow>
          Some \<lparr>tf_agent_id = a, tf_cred_ref = c, tf_target_uri = t, tf_mechanism = m\<rparr>
      | _ \<Rightarrow> None)"

definition with_form :: "'f option \<Rightarrow> ('f \<Rightarrow> ui_state \<Rightarrow> ui_response \<times> ui_state) \<Rightarrow> ui_state \<Rightarrow> ui_response \<times> ui_state" where
  "with_form form handler st = (case form of None \<Rightarrow> (FormRejected, st) | Some f \<Rightarrow> handler f st)"

definition two_fields :: "pairs \<Rightarrow> string \<Rightarrow> string \<Rightarrow> (string \<times> string) option" where
  "two_fields f a b =
     (case (required_field f a, required_field f b) of (Some x, Some y) \<Rightarrow> Some (x, y) | _ \<Rightarrow> None)"

fun run_handler :: "ui_env \<Rightarrow> ui_config \<Rightarrow> ui_request \<Rightarrow> ui_handler \<Rightarrow> ui_state \<Rightarrow> ui_response \<times> ui_state" where
  "run_handler env cfg rq TokenPage st = (Html (token_page (uq_params rq)), st)"
| "run_handler env cfg rq TokenSubmit st =
     (case (required_field (uq_form rq) ''token'', default_field (uq_form rq) ''next'') of
        (Some token, Some next) \<Rightarrow> (token_submit (ue_header_ok env) (uc_token cfg) token next, st)
      | _ \<Rightarrow> (FormRejected, st))"
| "run_handler env cfg rq Dashboard st = (dashboard env cfg (uq_params rq) st, st)"
| "run_handler env cfg rq SetupPage st = (setup_page cfg (uq_params rq) st, st)"
| "run_handler env cfg rq CreateVault st =
     with_form (two_fields (uq_form rq) ''passphrase'' ''confirm'') (\<lambda>(p, c). create_vault env cfg p c) st"
| "run_handler env cfg rq CreatePolicy st = create_policy env cfg st"
| "run_handler env cfg rq CreateAuditKey st = create_audit_key env cfg st"
| "run_handler env cfg rq SecretsPage st = (secrets_page env cfg (uq_params rq) st, st)"
| "run_handler env cfg rq SecretsStore st =
     with_form (two_fields (uq_form rq) ''path'' ''value'') (\<lambda>(p, v). secrets_store env cfg p v) st"
| "run_handler env cfg rq SecretsDelete st =
     with_form (required_field (uq_form rq) ''path'') (secrets_delete env cfg) st"
| "run_handler env cfg rq AgentsPage st = (agents_page env cfg (uq_params rq) st, st)"
| "run_handler env cfg rq AgentsEnroll st = with_form (enroll_form_of (uq_form rq)) (agents_enroll env) st"
| "run_handler env cfg rq AgentsRevoke st =
     with_form (required_field (uq_form rq) ''agent_id'') (agents_revoke env) st"
| "run_handler env cfg rq RulesPage st = (rules_page env cfg (uq_params rq) st, st)"
| "run_handler env cfg rq RulesNew st = (rules_new env (uq_params rq) st, st)"
| "run_handler env cfg rq RulesAdd st = with_form (rule_form_of (uq_form rq)) (rules_add env cfg) st"
| "run_handler env cfg rq RulesDelete st =
     with_form (Option.bind (required_field (uq_form rq) ''index'') (parse_uint 64)) (rules_delete env cfg) st"
| "run_handler env cfg rq RawPage st = (raw_page (uq_params rq) st, st)"
| "run_handler env cfg rq RawSave st = with_form (required_field (uq_form rq) ''doc'') (raw_save env cfg) st"
| "run_handler env cfg rq PolicyTest st =
     with_form (test_form_of (uq_form rq)) (\<lambda>f s. (policy_test env f s, s)) st"
| "run_handler env cfg rq ConnectPage st = (connect_page (uq_params rq) st, st)"
| "run_handler env cfg rq ConnectSubmit st = with_form (connect_form_of (uq_form rq)) (connect_submit env cfg) st"
| "run_handler env cfg rq ConnectDone st = (connect_done cfg (uq_params rq) st, st)"

definition ui_dispatch :: "ui_env \<Rightarrow> ui_config \<Rightarrow> ui_request \<Rightarrow> ui_state \<Rightarrow> ui_response \<times> ui_state" where
  "ui_dispatch env cfg rq st =
     (case ue_route env routes (uq_method rq) (uq_path rq) of
        Inl refusal \<Rightarrow> (refusal, st)
      | Inr h \<Rightarrow> run_handler env cfg rq h st)"

definition ui_handle :: "ui_env \<Rightarrow> ui_config \<Rightarrow> ui_request \<Rightarrow> ui_state \<Rightarrow> ui_response \<times> ui_state" where
  "ui_handle env cfg rq st =
     ui_front (ue_header_ok env) (uc_token cfg) (uc_port cfg) (ui_dispatch env cfg) rq st"

section \<open>Who reaches a handler\<close>

text \<open>
  What the HTTP library's router promises: a handler is run only for the path it is registered
  under and for its method (a HEAD request runs the GET handler), and a request that matches no
  route gets one of the two standard refusals.
\<close>

definition routes_exactly :: "(ui_routes \<Rightarrow> string \<Rightarrow> string \<Rightarrow> ui_response + ui_handler) \<Rightarrow> bool" where
  "routes_exactly route \<longleftrightarrow> (\<forall>rs m p.
     (\<forall>h. route rs m p = Inr h \<longrightarrow> (\<exists>m'. (p, m', h) \<in> set rs \<and> (m' = m \<or> m' = ''GET'' \<and> m = ''HEAD''))) \<and>
     (\<forall>r. route rs m p = Inl r \<longrightarrow> r \<in> {NotFound, MethodNotAllowed}))"

lemma routes_exactlyD:
  assumes "routes_exactly route" "route rs m p = Inr h"
  obtains m' where "(p, m', h) \<in> set rs" "m' = m \<or> m' = ''GET'' \<and> m = ''HEAD''"
  using assms unfolding routes_exactly_def by blast

lemma routes_token: "(''/token'', m, h) \<in> set routes \<Longrightarrow> h \<in> {TokenPage, TokenSubmit}"
  by (auto simp: routes_def)

lemma token_handlers:
  assumes "h \<in> {TokenPage, TokenSubmit}"
  shows "snd (run_handler env cfg rq h st) = st"
    "fst (run_handler env cfg rq h st) = Html page \<Longrightarrow> page = token_page (uq_params rq)"
  using assms
  by (auto simp: token_submit_def cookie_redirect_def Let_def split: option.splits if_splits)

lemma ui_dispatch_token:
  assumes "routes_exactly (ue_route env)" "uq_path rq = ''/token''"
  shows "snd (ui_dispatch env cfg rq st) = st"
    "fst (ui_dispatch env cfg rq st) = Html page \<Longrightarrow> page = token_page (uq_params rq)"
proof -
  have "snd (ui_dispatch env cfg rq st) = st \<and>
    (fst (ui_dispatch env cfg rq st) = Html page \<longrightarrow> page = token_page (uq_params rq))"
  proof (cases "ue_route env routes (uq_method rq) (uq_path rq)")
    case (Inl r)
    then have "r \<in> {NotFound, MethodNotAllowed}" using assms(1) unfolding routes_exactly_def by blast
    then show ?thesis using Inl by (auto simp: ui_dispatch_def)
  next
    case (Inr h)
    then obtain m' where "(uq_path rq, m', h) \<in> set routes" by (rule routes_exactlyD [OF assms(1)])
    then have "h \<in> {TokenPage, TokenSubmit}" using routes_token assms(2) by simp
    then show ?thesis using token_handlers Inr by (simp add: ui_dispatch_def)
  qed
  then show "snd (ui_dispatch env cfg rq st) = st"
    "fst (ui_dispatch env cfg rq st) = Html page \<Longrightarrow> page = token_page (uq_params rq)"
    by blast+
qed

text \<open>
  (C24) Nothing behind the entrance is reached without the access token. Whatever a request does
  to the state of the daemon, and whatever page it is shown apart from the page that asks for
  the token, it named the loopback address as its host, it came from no other origin, and its
  cookie carried exactly the token of this instance.
\<close>

theorem ui_requires_token:
  assumes "routes_exactly (ue_route env)"
    and "ui_handle env cfg rq st = (resp, st')"
    and "st' \<noteq> st \<or> (\<exists>page. resp = Html page \<and> page \<noteq> token_page (uq_params rq))"
  shows "admitted (uc_token cfg) (uc_port cfg) rq"
proof (rule ccontr)
  assume out: "\<not> admitted (uc_token cfg) (uc_port cfg) rq"
  show False
  proof (cases "uq_path rq = ''/token''")
    case True
    have "fst (ui_handle env cfg rq st) = Html page \<Longrightarrow> page = token_page (uq_params rq)" for page
      using ui_dispatch_token(2) [OF assms(1) True]
      by (auto simp: ui_handle_def ui_front_def loopback_guard_def token_gate_def True split: if_splits)
    moreover have "snd (ui_handle env cfg rq st) = st"
      using ui_dispatch_token(1) [OF assms(1) True]
      by (simp add: ui_handle_def ui_front_def loopback_guard_def token_gate_def True)
    ultimately show False using assms(2,3) by auto
  next
    case False
    have "fst (ui_handle env cfg rq st) \<noteq> Html page" for page
      using ui_front_refusal [OF False out] by (simp add: ui_handle_def)
    moreover have "snd (ui_handle env cfg rq st) = st"
      using ui_front_admitted [OF False, of "ue_header_ok env" "uc_token cfg" "uc_port cfg" "ui_dispatch env cfg" st] out
      unfolding ui_handle_def by (metis snd_conv)
    ultimately show False using assms(2,3) by auto
  qed
qed

section \<open>What the pages show\<close>

text \<open>Two states that differ only in the values of the secrets, not in their paths and lengths.\<close>

definition same_lengths :: "ui_env \<Rightarrow> local_vault \<Rightarrow> local_vault \<Rightarrow> bool" where
  "same_lengths env v w \<longleftrightarrow> vault_list (ue_vault env) v = vault_list (ue_vault env) w \<and>
     (\<forall>p. map_sum id (map_option length) (vault_get (ue_vault env) v p) =
          map_sum id (map_option length) (vault_get (ue_vault env) w p))"

definition same_but_secrets :: "ui_env \<Rightarrow> ui_state \<Rightarrow> ui_state \<Rightarrow> bool" where
  "same_but_secrets env s t \<longleftrightarrow> t = s\<lparr>us_vault := us_vault t\<rparr> \<and>
     rel_option (same_lengths env) (us_vault s) (us_vault t)"

definition get_handlers :: "ui_handler set" where
  "get_handlers = {TokenPage, Dashboard, SetupPage, SecretsPage, AgentsPage, RulesPage, RulesNew, RawPage,
     ConnectPage, ConnectDone}"

lemma routes_get: "(p, ''GET'', h) \<in> set routes \<Longrightarrow> h \<in> get_handlers"
  by (auto simp: routes_def get_handlers_def)

lemma same_but_secrets_fields:
  assumes "same_but_secrets env s t"
  shows "us_policy t = us_policy s" "us_audit_key t = us_audit_key s" "us_vault_file t = us_vault_file s"
    "us_enrollment t = us_enrollment s" "us_gateway t = us_gateway s" "us_event_hub t = us_event_hub s"
    "us_events_path t = us_events_path s" "us_vault t = None \<longleftrightarrow> us_vault s = None"
proof -
  have t: "t = s\<lparr>us_vault := us_vault t\<rparr>" and r: "rel_option (same_lengths env) (us_vault s) (us_vault t)"
    using assms by (simp_all add: same_but_secrets_def)
  show "us_policy t = us_policy s" "us_audit_key t = us_audit_key s" "us_vault_file t = us_vault_file s"
    "us_enrollment t = us_enrollment s" "us_gateway t = us_gateway s" "us_event_hub t = us_event_hub s"
    "us_events_path t = us_events_path s"
    by (subst t, simp)+
  show "us_vault t = None \<longleftrightarrow> us_vault s = None" using r by (cases "us_vault s"; cases "us_vault t") auto
qed

lemma secret_row_same:
  assumes "same_lengths env v w"
  shows "secret_row env v p = secret_row env w p"
proof -
  have "map_sum id (map_option length) (vault_get (ue_vault env) v p) =
      map_sum id (map_option length) (vault_get (ue_vault env) w p)"
    using assms by (simp add: same_lengths_def)
  then have "(case vault_get (ue_vault env) v p of Inr (Some s) \<Rightarrow> length s | _ \<Rightarrow> 0) =
      (case vault_get (ue_vault env) w p of Inr (Some s) \<Rightarrow> length s | _ \<Rightarrow> 0)"
    by (cases "vault_get (ue_vault env) v p"; cases "vault_get (ue_vault env) w p") (auto split: option.splits)
  then show ?thesis unfolding secret_row_def by (simp only:)
qed

lemma vault_paths_same: "same_but_secrets env s t \<Longrightarrow> vault_paths env t = vault_paths env s"
  by (cases "us_vault s"; cases "us_vault t") (auto simp: same_but_secrets_def vault_paths_def same_lengths_def)

lemma ui_page_same:
  assumes "same_but_secrets env s t"
  shows "ui_page title ok err body t = ui_page title ok err body s" "provisioned t = provisioned s"
    "current_policy env cfg t = current_policy env cfg s"
  using same_but_secrets_fields [OF assms]
  by (simp_all only: ui_page_def setup_pending_def provisioned_def halted_reason_def current_policy_def)

lemma secrets_page_same:
  assumes "same_but_secrets env s t"
  shows "secrets_page env cfg flash t = secrets_page env cfg flash s"
proof (cases "us_vault s")
  case None
  then have "us_vault t = None" using same_but_secrets_fields(8) [OF assms] by simp
  then show ?thesis using None ui_page_same(1) [OF assms] by (simp only: secrets_page_def option.case)
next
  case (Some v)
  then obtain w where w: "us_vault t = Some w" "same_lengths env v w"
    using assms by (cases "us_vault t") (auto simp: same_but_secrets_def)
  then have "vault_list (ue_vault env) w = vault_list (ue_vault env) v" by (simp add: same_lengths_def)
  moreover have "secret_row env w = secret_row env v" using secret_row_same [OF w(2)] by auto
  ultimately show ?thesis
    using Some w(1) ui_page_same(1) [OF assms] by (simp only: secrets_page_def option.case)
qed

lemma get_pages_same:
  assumes "same_but_secrets env s t" "h \<in> get_handlers"
  shows "fst (run_handler env cfg rq h t) = fst (run_handler env cfg rq h s)"
proof -
  note f = same_but_secrets_fields [OF assms(1)] and u = ui_page_same [OF assms(1)] and v = vault_paths_same [OF assms(1)]
  consider "h = SecretsPage" | "h \<in> {TokenPage, Dashboard, SetupPage, AgentsPage, RulesPage, RulesNew, RawPage, ConnectPage, ConnectDone}"
    using assms(2) unfolding get_handlers_def by blast
  then show ?thesis
  proof cases
    case 1
    then show ?thesis using secrets_page_same [OF assms(1)] by (simp only: run_handler.simps fst_conv)
  next
    case 2
    then consider "h = TokenPage" | "h = Dashboard" | "h = SetupPage" | "h = AgentsPage" | "h = RulesPage"
      | "h = RulesNew" | "h = RawPage" | "h = ConnectPage" | "h = ConnectDone" by blast
    then show ?thesis
      by cases (simp_all only: run_handler.simps fst_conv dashboard_def setup_page_def agents_page_def rules_page_def
        rules_new_def raw_page_def connect_page_def connect_done_def f u v)
  qed
qed

text \<open>
  (C30) No page shows a stored secret. For every GET request, of an operator or of anyone else, the
  response is the same in two states of the daemon whose vaults hold different values under the
  same paths: at most the length of a value is visible.
\<close>

theorem pages_hide_secrets:
  assumes "routes_exactly (ue_route env)" "uq_method rq = ''GET''" "same_but_secrets env st st'"
  shows "fst (ui_handle env cfg rq st') = fst (ui_handle env cfg rq st)"
proof -
  have "fst (ui_dispatch env cfg rq st') = fst (ui_dispatch env cfg rq st)"
  proof (cases "ue_route env routes (uq_method rq) (uq_path rq)")
    case (Inr h)
    then obtain m' where "(uq_path rq, m', h) \<in> set routes" "m' = uq_method rq \<or> m' = ''GET'' \<and> uq_method rq = ''HEAD''"
      by (rule routes_exactlyD [OF assms(1)])
    then have "h \<in> get_handlers" using routes_get assms(2) by auto
    then show ?thesis using get_pages_same [OF assms(3)] Inr by (simp add: ui_dispatch_def)
  qed (simp add: ui_dispatch_def)
  then show ?thesis
    by (simp add: ui_handle_def ui_front_def loopback_guard_def token_gate_def split: option.split)
qed

text \<open>
  The messages of a refused form are lost on two pages. Every refusal of the connect flow, and
  every malformed pair line of the rule editor, redirects with the reason in the query, but the
  page it redirects to is the same page with and without that reason.
\<close>

theorem refusal_reasons_are_not_shown:
  "connect_page ((''err'', msg) # params) st = connect_page params st \<and>
   rules_new env ((''err'', msg) # params) st = rules_new env params st"
proof -
  have q: "query_value ((''err'', msg) # params) k = query_value params k" if "k \<noteq> ''err''" for k
    using that by (simp add: query_value_def)
  have t: "chosen_template ((''err'', msg) # params) = chosen_template params"
    by (simp add: chosen_template_def q)
  have "rule_prefill_of ((''err'', msg) # params) = rule_prefill_of params"
    unfolding rule_prefill_of_def t by (simp add: q)
  moreover from this have "rule_preview ((''err'', msg) # params) = rule_preview params"
    by (simp only: rule_preview_def q not_Cons_self2 simp_thms) (simp add: q)
  moreover have "map_of ((''err'', msg) # params) ''mechanism'' = map_of params ''mechanism''" by simp
  ultimately show ?thesis by (simp add: connect_page_def rules_new_def q t)
qed

definition frames :: "(string \<Rightarrow> string) \<Rightarrow> bool" where
  "frames f \<longleftrightarrow> (\<exists>pre post. \<forall>body. f body = pre @ body @ post)"

lemma frames_append:
  "frames (\<lambda>body. body @ post)"
  "frames f \<Longrightarrow> frames (\<lambda>body. a @ f body)"
proof -
  show "frames (\<lambda>body. body @ post)"
    unfolding frames_def by (rule exI [of _ "[]"]) auto
  assume "frames f"
  then obtain pre post' where "\<forall>body. f body = pre @ body @ post'" unfolding frames_def by blast
  then have "\<forall>body. a @ f body = (a @ pre) @ body @ post'" by simp
  then show "frames (\<lambda>body. a @ f body)" unfolding frames_def by blast
qed

lemma ui_page_body: "\<exists>pre post. \<forall>body. ui_page title ok err body st = Html (pre @ body @ post)"
proof -
  have "frames (layout title (setup_pending st) (halted_reason st) ok err)"
    unfolding layout_def [abs_def] by (intro frames_append)
  then show ?thesis by (simp add: ui_page_def frames_def)
qed

text \<open>
  The verdict of the decision test names the rule without escaping its name: a rule whose
  name is markup puts that markup into the operator's page.
\<close>

theorem rule_name_reaches_page_raw:
  assumes "from_toml (ue_crypto env) (ue_toml env) (or_default (read_text (us_policy st))) = Ok p"
    and "d_source (evaluate p \<lparr>q_agent_id = trim (tf_agent_id form), q_cred_ref = trim (tf_cred_ref form),
      q_target_uri = trim (tf_target_uri form), q_mechanism = trim (tf_mechanism form), q_declared = None\<rparr>) =
      FromRule i (Some name) row"
  shows "\<exists>before after. policy_test env form st = Html (before @ name @ after)"
proof -
  have "\<exists>a b. source_label (FromRule i (Some name) row) = a @ name @ b"
    by (rule exI [where x = "''rule['' @ dec_of_nat i @ ''] (''"]) auto
  then obtain a b where lab: "source_label (FromRule i (Some name) row) = a @ name @ b" by blast
  have "\<exists>x y. verdict_block eff (a @ name @ b) = x @ name @ y" for eff
    unfolding verdict_block_def by (metis append.assoc)
  then obtain x y where v: "verdict_block (effect_str (d_effect (evaluate p \<lparr>q_agent_id = trim (tf_agent_id form),
      q_cred_ref = trim (tf_cred_ref form), q_target_uri = trim (tf_target_uri form),
      q_mechanism = trim (tf_mechanism form), q_declared = None\<rparr>))) (a @ name @ b) = x @ name @ y" by blast
  obtain pre post where page: "ui_page ''Decision test'' None None body st = Html (pre @ body @ post)" for body
    using ui_page_body by blast
  show ?thesis unfolding policy_test_def assms(1) sum.case Let_def assms(2) lab v page by (metis append.assoc)
qed

section \<open>Samples\<close>

definition sample_route :: "ui_routes \<Rightarrow> string \<Rightarrow> string \<Rightarrow> ui_response + ui_handler" where
  "sample_route rs m p =
     (case List.find (\<lambda>(p', m', h). p' = p \<and> (m' = m \<or> m' = ''GET'' \<and> m = ''HEAD'')) rs of
        None \<Rightarrow> Inl NotFound | Some (_, _, h) \<Rightarrow> Inr h)"

lemma sample_route_ok: "routes_exactly sample_route"
  by (auto simp: routes_exactly_def sample_route_def find_Some_iff split: option.splits) (metis nth_mem)+

definition sample_ui_env :: "rule_def list \<Rightarrow> ui_env" where
  "sample_ui_env defs = \<lparr>ue_crypto = sample_crypto, ue_codec = sample_store_codec, ue_vault = sample_vault_env,
     ue_toml = (\<lambda>_. Ok defs), ue_quote = (\<lambda>s. s), ue_header_ok = (\<lambda>_. True), ue_route = sample_route,
     ue_cause = (\<lambda>_. []), ue_read_error = [], ue_vault_error = [], ue_vault_io = True, ue_enroll_io = True,
     ue_policy_io = io_fine, ue_audit_io = io_fine, ue_nonce = sample_nonce, ue_now = ''t0'', ue_seed = sample_seed,
     ue_salt = ''salt'', ue_dek = sample_dek, ue_seal_nonce = sample_nonce\<rparr>"

definition sample_ui_config :: ui_config where
  "sample_ui_config = \<lparr>uc_policy_path = \<lparr>fp_text = ''p'', fp_parent = ''.''\<rparr>, uc_vault_path = ''v'', uc_enrollment_path = ''e'',
     uc_audit_key_path = \<lparr>fp_text = ''k'', fp_parent = ''.''\<rparr>, uc_token = \<lparr>ut_raw = ''tok''\<rparr>, uc_port = 80\<rparr>"

definition sample_ui_state :: "path_entry \<Rightarrow> local_vault option \<Rightarrow> ui_state" where
  "sample_ui_state entry v = \<lparr>us_policy = entry, us_audit_key = Missing, us_vault = v, us_vault_file = False,
     us_enrollment = enrollment_in_memory, us_gateway = None, us_event_hub = None, us_events_path = None\<rparr>"

definition sample_ui_request :: "string \<Rightarrow> string \<Rightarrow> ui_request" where
  "sample_ui_request m p = \<lparr>uq_method = m, uq_path = p, uq_query = None, uq_host = Some (Some ''localhost:80''),
     uq_origin = None, uq_cookie = Some (Some ''a=b; chaperone_ui=tok''), uq_params = [], uq_form = []\<rparr>"

lemma sample_ui_env_sel [simp]:
  "ue_crypto (sample_ui_env d) = sample_crypto" "ue_codec (sample_ui_env d) = sample_store_codec"
  "ue_vault (sample_ui_env d) = sample_vault_env" "ue_toml (sample_ui_env d) = (\<lambda>_. Ok d)"
  "ue_quote (sample_ui_env d) = (\<lambda>s. s)" "ue_route (sample_ui_env d) = sample_route"
  "ue_policy_io (sample_ui_env d) = io_fine" "ue_audit_io (sample_ui_env d) = io_fine"
  "ue_nonce (sample_ui_env d) = sample_nonce" "ue_vault_io (sample_ui_env d)" "ue_enroll_io (sample_ui_env d)"
  by (simp_all add: sample_ui_env_def)

lemma sample_host: "''localhost:80'' \<in> set (allowed_hosts 80)"
  by (simp add: allowed_hosts_def dec_of_nat_def digits_of.simps)

lemma sample_cookie: "extract_cookie (Some (Some ''a=b; chaperone_ui=tok'')) = Some ''tok''"
  by (simp add: extract_cookie_def cookie_name_def trim_def trim_start_def trim_end_def unicode_ws_def strip_prefix_def)

lemma sample_dispatch:
  "ui_handle (sample_ui_env d) sample_ui_config (sample_ui_request m p) st =
     ui_dispatch (sample_ui_env d) sample_ui_config (sample_ui_request m p) st"
  using sample_host sample_cookie
  by (simp add: ui_handle_def ui_front_def loopback_guard_def token_gate_def host_ok_def origin_ok_def presents_token_def
    sample_ui_request_def sample_ui_config_def)

lemma sample_create_policy:
  "ui_handle (sample_ui_env d) sample_ui_config (sample_ui_request ''POST'' ''/setup/policy'') (sample_ui_state Missing v) =
     (SeeOther ''/setup?msg=default-deny+policy+written'', sample_ui_state (File []) v)"
  unfolding sample_dispatch
  by (simp add: ui_dispatch_def sample_ui_request_def sample_route_def routes_def create_policy_def write_policy_def
    sample_ui_state_def to_toml_def policy_empty_def)

theorem ui_requires_token_witness:
  "admitted (uc_token sample_ui_config) (uc_port sample_ui_config) (sample_ui_request ''POST'' ''/setup/policy'')"
  by (rule ui_requires_token [of "sample_ui_env []", OF _ sample_create_policy [where v = None]])
    (simp_all add: sample_route_ok sample_ui_state_def)

lemma vault_set_entries:
  assumes "vault_ok e pass v" "decrypt_entries e v = Ok m"
  shows "decrypt_entries e (snd (vault_set e io nonce p s v)) = Ok (bt_insert p s m)"
proof -
  obtain m' where "decrypt_entries e v = Ok m'" "bt_ok m'" using assms(1) by (rule vault_ok_entries)
  then have m: "bt_ok m" using assms(2) by simp
  obtain ct where "rewrite e io nonce (bt_insert p s m) v = vault_persist e io (v\<lparr>lv_body_nonce := nonce, lv_body_ciphertext := ct\<rparr>)"
    "decrypt_body e (lv_dek v) nonce ct = Ok (bt_insert p s m)"
    using rewrite_ok [OF _ bt_ok_insert [OF m]] assms(1) unfolding vault_ok_def by blast
  then show ?thesis using assms(2) by (simp add: vault_set_def vault_persist_def decrypt_entries_def)
qed

theorem pages_hide_secrets_witness:
  "\<exists>v w. vault_content sample_vault_env v ''a'' = Some ''red'' \<and> vault_content sample_vault_env w ''a'' = Some ''tan'' \<and>
     fst (ui_handle (sample_ui_env []) sample_ui_config (sample_ui_request ''GET'' ''/secrets'') (sample_ui_state Missing (Some w))) =
     fst (ui_handle (sample_ui_env []) sample_ui_config (sample_ui_request ''GET'' ''/secrets'') (sample_ui_state Missing (Some v)))"
proof -
  obtain v where v: "vault_ok sample_vault_env ''pw'' v" "vault_content sample_vault_env v = Map.empty"
    by (rule sample_vault)
  then have e: "decrypt_entries sample_vault_env v = Ok []"
    using vault_ok_entries [OF v(1)] by (metis map_of_eq_empty_iff)
  let ?v = "\<lambda>s. snd (vault_set sample_vault_env True sample_nonce ''a'' s v)"
  have d: "decrypt_entries sample_vault_env (?v s) = Ok [(''a'', s)]" for s
    using vault_set_entries [OF v(1) e] by simp
  have "same_but_secrets (sample_ui_env []) (sample_ui_state Missing (Some (?v ''red''))) (sample_ui_state Missing (Some (?v ''tan'')))"
    by (simp add: same_but_secrets_def same_lengths_def sample_ui_state_def vault_list_def vault_get_def d bt_keys_def)
  from pages_hide_secrets [OF _ _ this, of "sample_ui_request ''GET'' ''/secrets''" sample_ui_config] d
  show ?thesis by (intro exI [of _ "?v ''red''"] exI [of _ "?v ''tan''"])
    (simp add: sample_route_ok sample_ui_request_def vault_content_def)
qed

definition script_rule :: rule_def where
  "script_rule = \<lparr>rd_effect = ''allow'', rd_name = Some ''<script>alert(1)</script>'', rd_agent_id = None, rd_cred_ref = None,
     rd_target_uri = None, rd_mechanism = None, rd_pair = [], rd_limits = None, rd_notify = None\<rparr>"

definition script_loaded :: rule where
  "script_loaded = \<lparr>r_name = Some ''<script>alert(1)</script>'', r_notify_on_use = True, r_effect = Allow, r_agent_id = Any,
     r_cred_ref = Any, r_target_uri = Any, r_mechanism = Any, r_pairs = [], r_limits = no_limits\<rparr>"

theorem rule_name_reaches_page_raw_witness:
  "\<exists>before after. policy_test (sample_ui_env [script_rule])
     \<lparr>tf_agent_id = ''a'', tf_cred_ref = ''c'', tf_target_uri = ''t'', tf_mechanism = ''m''\<rparr> (sample_ui_state (File []) None) =
     Html (before @ ''<script>alert(1)</script>'' @ after)"
proof -
  have "from_toml sample_crypto (\<lambda>_. Ok [script_rule]) doc = Ok \<lparr>rules = [script_loaded], source_hash_hex = hex_encode (sha256 sample_crypto doc)\<rparr>"
    for doc
    by (simp add: from_toml_def read_rule_def read_axis_def effect_parse_def script_rule_def script_loaded_def read_limits_def)
  moreover have "d_source (evaluate \<lparr>rules = [script_loaded], source_hash_hex = h\<rparr> q) = FromRule 0 (Some ''<script>alert(1)</script>'') None"
    for h q
    by (simp add: evaluate_def axes_match_def rule_decision_def script_loaded_def)
  ultimately show ?thesis by (intro rule_name_reaches_page_raw) simp_all
qed

end
