(* ===== verification/Ui_Flows.thy ===== *)
theory Ui_Flows
  imports Ui_Console
begin

text \<open>
  What the forms of the operator web interface do to the daemon: every document that reaches the
  policy file loads, a rule added through the editor yields to the rules already saved, the
  preview describes the rule that will be saved, and the connect flow switches a grant on only
  after everything the grant needs is in place.
\<close>

section \<open>Writing the policy file\<close>

definition keeps_or_loads :: "ui_env \<Rightarrow> ui_state \<Rightarrow> ui_state \<Rightarrow> bool" where
  "keeps_or_loads env st st' \<longleftrightarrow> us_policy st' = us_policy st \<or>
     (\<exists>doc p. us_policy st' = File doc \<and> from_toml (ue_crypto env) (ue_toml env) doc = Ok p)"

lemma keeps_or_loads_refl [simp, intro]: "keeps_or_loads env st st"
  by (simp add: keeps_or_loads_def)

lemma keeps_or_loads_other [simp]:
  "keeps_or_loads env st (st\<lparr>us_vault := v\<rparr>)" "keeps_or_loads env st (st\<lparr>us_enrollment := es\<rparr>)"
  "keeps_or_loads env st (st\<lparr>us_audit_key := k\<rparr>)"
  by (simp_all add: keeps_or_loads_def)

lemma write_policy_cases:
  assumes "write_policy env cfg doc st = (r, st')"
  obtains (stored) "r = Ok ()" "st' = st\<lparr>us_policy := File doc\<rparr>" | (failed) e where "r = Err e" "st' = st"
proof -
  obtain entry where e: "ui_atomic_write (uc_policy_path cfg) (ue_policy_io env) doc (us_policy st) = (r, entry)"
      "st' = st\<lparr>us_policy := entry\<rparr>"
    using assms by (auto simp: write_policy_def split: prod.splits)
  from ui_atomic_write_cases [OF e(1)] show thesis
    using e(2) stored failed by auto
qed

lemma validated_doc_ok:
  assumes "validated_doc env rs = Ok doc"
  shows "doc = to_toml (ue_quote env) (from_rules rs)" "\<exists>p. from_toml (ue_crypto env) (ue_toml env) doc = Ok p"
  using assms unfolding validated_doc_def Let_def
  by (cases "from_toml (ue_crypto env) (ue_toml env) (to_toml (ue_quote env) (from_rules rs))"; auto)+

lemma write_policy_loads:
  assumes "write_policy env cfg doc st = (r, st')" "from_toml (ue_crypto env) (ue_toml env) doc = Ok p"
  shows "keeps_or_loads env st st'"
  using assms(1) by (rule write_policy_cases) (use assms(2) in \<open>auto simp: keeps_or_loads_def\<close>)

lemma rules_add_cases:
  assumes "rules_add env cfg form st = (resp, st')"
  shows "st' = st \<or> (\<exists>pairs p doc. form_pairs 0 (str_lines (rf_pairs form)) = Ok pairs \<and> current_policy env cfg st = Ok p \<and>
    validated_doc env (rules p @ [form_rule form pairs]) = Ok doc \<and> st' = st\<lparr>us_policy := File doc\<rparr>)"
  using assms unfolding rules_add_def
  by (auto split: if_splits sum.splits prod.splits elim!: write_policy_cases)

lemma rules_delete_cases:
  assumes "rules_delete env cfg index st = (resp, st')"
  shows "st' = st \<or> (\<exists>p doc. current_policy env cfg st = Ok p \<and> index < length (rules p) \<and>
    validated_doc env (take index (rules p) @ drop (Suc index) (rules p)) = Ok doc \<and> st' = st\<lparr>us_policy := File doc\<rparr>)"
  using assms unfolding rules_delete_def
  by (auto split: if_splits sum.splits prod.splits elim!: write_policy_cases)

lemma raw_save_cases:
  assumes "raw_save env cfg doc st = (resp, st')"
  shows "st' = st \<or> (\<exists>p. from_toml (ue_crypto env) (ue_toml env) doc = Ok p \<and> st' = st\<lparr>us_policy := File doc\<rparr>)"
  using assms unfolding raw_save_def
  by (auto split: sum.splits prod.splits elim!: write_policy_cases)

lemma create_policy_cases:
  assumes "create_policy env cfg st = (resp, st')"
  shows "st' = st \<or> us_policy st = Missing \<and> st' = st\<lparr>us_policy := File []\<rparr>"
  using assms unfolding create_policy_def
  by (auto simp: to_toml_def policy_empty_def split: if_splits sum.splits prod.splits elim!: write_policy_cases)

section \<open>The connect flow, stage by stage\<close>

lemma connect_check_ok:
  assumes "connect_check env cfg form st = Ok doc"
  shows "us_vault st \<noteq> None" "\<exists>p. from_toml (ue_crypto env) (ue_toml env) doc = Ok p"
  using assms validated_doc_ok(2) unfolding connect_check_def Let_def
  by (auto split: if_splits sum.splits option.splits)

lemma connect_store_secret_keeps:
  "connect_store_secret env cfg path s st = (r, st') \<Longrightarrow> us_policy st' = us_policy st \<and> us_enrollment st' = us_enrollment st"
  by (auto simp: connect_store_secret_def split: option.splits prod.splits sum.splits)

lemma connect_store_secret_content:
  assumes "connect_store_secret env cfg path s st = (r, st')" "us_vault st = Some v"
    and "vault_ok (ue_vault env) pass v" "length (ue_nonce env) = nonce_len"
  shows "\<exists>v'. us_vault st' = Some v' \<and> vault_content (ue_vault env) v' = (vault_content (ue_vault env) v)(path \<mapsto> s)"
proof -
  obtain q w where w: "vault_set (ue_vault env) (ue_vault_io env) (ue_nonce env) path s v = (q, w)" by fastforce
  then have "vault_content (ue_vault env) w = (vault_content (ue_vault env) v)(path \<mapsto> s)"
    using vault_set_content [OF assms(3,4), of "ue_vault_io env" path s] by simp
  moreover have "us_vault st' = Some w"
    using assms(1,2) w by (auto simp: connect_store_secret_def split: sum.splits)
  ultimately show ?thesis by blast
qed

lemma enroll_ok:
  assumes "enroll c cd io a pk sid sname now False es = (Ok (), es')"
  shows "lookup es' a \<noteq> None \<and> sponsor_id_of es' a = Some (trim sid) \<and> trim sid \<noteq> []"
proof -
  have sid: "trim sid \<noteq> []" "trim sname \<noteq> []" using assms by (auto simp: enroll_def split: if_splits)
  obtain key where key: "decode_public_key c pk = Ok key"
    using assms sid by (cases "decode_public_key c pk") (auto simp: enroll_def)
  have "live_agent es a = None" using assms sid key by (auto simp: enroll_def Let_def split: if_splits)
  then have "agents es' = AList.update a \<lparr>sa_key = key, sa_record = \<lparr>er_agent_id = a,
      er_public_key = encode_public_key c key, er_enrolled_at = now, er_sponsor_id = trim sid,
      er_sponsor_name = trim sname, er_revoked_at = None\<rparr>\<rparr> (agents es)"
    using enroll_agents [of c cd io a pk sid sname now False es] assms sid key by simp
  then show ?thesis
    using sid by (simp add: lookup_def sponsor_id_of_def live_agent_def update_conv')
qed

lemma enroll_live:
  "live_agent es a \<noteq> None \<Longrightarrow> \<exists>e. enroll c cd io a pk sid sname now False es = (Err e, es)"
  by (auto simp: enroll_def Let_def split: sum.splits)

lemma connect_enroll_keeps:
  "connect_enroll env form st = (r, st') \<Longrightarrow> us_policy st' = us_policy st \<and> us_vault st' = us_vault st"
  by (auto simp: connect_enroll_def split: prod.splits sum.splits)

lemma connect_enroll_ok:
  assumes "connect_enroll env form st = (Ok (), st')"
  shows "lookup (us_enrollment st') (trim (cf_agent_id form)) \<noteq> None \<and>
    (\<exists>s. sponsor_id_of (us_enrollment st') (trim (cf_agent_id form)) = Some s \<and> s \<noteq> [])"
proof -
  obtain u where "enroll (ue_crypto env) (ue_codec env) (ue_enroll_io env) (trim (cf_agent_id form)) (trim (cf_public_key form))
      (trim (cf_sponsor_id form)) (trim (cf_sponsor_name form)) (ue_now env) False (us_enrollment st) = (Ok u, us_enrollment st')"
    using assms by (auto simp: connect_enroll_def split: prod.splits sum.splits)
  then show ?thesis using enroll_ok by (cases u) blast
qed

lemma connect_audit_key_keeps:
  assumes "connect_audit_key env cfg st = (r, st')"
  shows "us_policy st' = us_policy st \<and> us_vault st' = us_vault st \<and> us_enrollment st' = us_enrollment st"
    "r = Ok () \<Longrightarrow> is_file (us_audit_key st')"
  using assms
  by (auto simp: connect_audit_key_def write_audit_key_def is_file_def
      split: if_splits prod.splits sum.splits dest!: ui_atomic_write_cases)

lemmas connect_keeps = connect_store_secret_keeps connect_enroll_keeps connect_audit_key_keeps(1)

text \<open>The stages in a row: the state after each of them, up to the first that fails.\<close>

lemma connect_submit_stages:
  assumes "connect_submit env cfg form st = (resp, st')"
  obtains (check) msg where "resp = connect_err msg" "st' = st"
  | (store) msg where "resp = connect_err msg"
      "connect_store_secret env cfg (connect_path form) (cf_secret form) st = (Err msg, st')"
  | (enrol) msg st1 where "connect_store_secret env cfg (connect_path form) (cf_secret form) st = (Ok (), st1)"
      "connect_enroll env form st1 = (Err msg, st')" "resp = connect_err msg"
  | (key) msg st1 st2 where "connect_store_secret env cfg (connect_path form) (cf_secret form) st = (Ok (), st1)"
      "connect_enroll env form st1 = (Ok (), st2)" "connect_audit_key env cfg st2 = (Err msg, st')" "resp = connect_err msg"
  | (rule) r doc st1 st2 st3 where "connect_check env cfg form st = Ok doc"
      "connect_store_secret env cfg (connect_path form) (cf_secret form) st = (Ok (), st1)"
      "connect_enroll env form st1 = (Ok (), st2)" "connect_audit_key env cfg st2 = (Ok (), st3)"
      "write_policy env cfg doc st3 = (r, st')"
      "r = Ok () \<Longrightarrow> resp = SeeOther (''/connect/done?cred_ref='' @ urlenc (trim (cf_cred_ref form)) @
         ''&agent_id='' @ urlenc (trim (cf_agent_id form)))"
  using assms unfolding connect_submit_def
  by (auto split: sum.splits prod.splits)

section \<open>Grants\<close>

text \<open>
  (C25) The connect flow switches a grant on last. If a submitted form changed the policy file, then
  the file holds a document that loads, the vault holds the pasted secret under the path the
  rule names, the agent is enrolled and answers for a named sponsor, the audit key exists, and the
  operator was sent to the final page. No refusal at any stage leaves a rule behind.
\<close>

theorem connect_grants_last:
  assumes "connect_submit env cfg form st = (resp, st')" "us_policy st' \<noteq> us_policy st"
    and "us_vault st = Some v" "vault_ok (ue_vault env) pass v" "length (ue_nonce env) = nonce_len"
  shows "\<exists>doc p v' s. us_policy st' = File doc \<and> from_toml (ue_crypto env) (ue_toml env) doc = Ok p \<and>
    us_vault st' = Some v' \<and> vault_content (ue_vault env) v' (connect_path form) = Some (cf_secret form) \<and>
    lookup (us_enrollment st') (trim (cf_agent_id form)) \<noteq> None \<and>
    sponsor_id_of (us_enrollment st') (trim (cf_agent_id form)) = Some s \<and> s \<noteq> [] \<and>
    is_file (us_audit_key st') \<and>
    resp = SeeOther (''/connect/done?cred_ref='' @ urlenc (trim (cf_cred_ref form)) @
      ''&agent_id='' @ urlenc (trim (cf_agent_id form)))"
  using assms(1)
proof (cases rule: connect_submit_stages)
  case (rule r doc st1 st2 st3)
  have same: "us_policy st3 = us_policy st" "us_vault st3 = us_vault st1" "us_enrollment st3 = us_enrollment st2"
    using rule(2) [THEN connect_keeps(1)] rule(3) [THEN connect_keeps(2)] rule(4) [THEN connect_keeps(3)] by simp_all
  from rule(5) have "r = Ok () \<and> st' = st3\<lparr>us_policy := File doc\<rparr>"
    by (rule write_policy_cases) (use assms(2) same in auto)
  moreover obtain v' where "us_vault st1 = Some v'" "vault_content (ue_vault env) v' (connect_path form) = Some (cf_secret form)"
    using connect_store_secret_content [OF rule(2) assms(3-5)] by auto
  moreover have "is_file (us_audit_key st3)" using connect_audit_key_keeps(2) [OF rule(4)] by simp
  ultimately show ?thesis
    using connect_check_ok(2) [OF rule(1)] connect_enroll_ok [OF rule(3)] same rule(6) by auto
qed (use assms(2) in \<open>auto dest!: connect_keeps\<close>)

text \<open>
  (C40) An agent can be connected only once, and the second attempt replaces a secret. The flow stores
  the pasted secret before it tries to enroll the agent; for an agent that is already enrolled and
  live the enrollment is refused, and the flow ends with an error, no new rule, and the old value
  under that path gone.
\<close>

theorem refused_connect_replaces_secret:
  assumes "connect_check env cfg form st = Ok doc"
    and "us_vault st = Some v" "vault_ok (ue_vault env) pass v" "length (ue_nonce env) = nonce_len"
    and "lookup (us_enrollment st) (trim (cf_agent_id form)) \<noteq> None"
  shows "\<exists>msg v' st'. connect_submit env cfg form st = (connect_err msg, st') \<and>
    us_policy st' = us_policy st \<and> us_enrollment st' = us_enrollment st \<and> us_vault st' = Some v' \<and>
    vault_content (ue_vault env) v' = (vault_content (ue_vault env) v)(connect_path form \<mapsto> cf_secret form)"
proof -
  obtain r st1 where s: "connect_store_secret env cfg (connect_path form) (cf_secret form) st = (r, st1)" by fastforce
  obtain w where w: "us_vault st1 = Some w"
      "vault_content (ue_vault env) w = (vault_content (ue_vault env) v)(connect_path form \<mapsto> cf_secret form)"
    using connect_store_secret_content [OF s assms(2-4)] by blast
  note k = connect_store_secret_keeps [OF s]
  have "live_agent (us_enrollment st1) (trim (cf_agent_id form)) \<noteq> None"
    using assms(5) k by (simp add: lookup_def)
  then obtain e where "enroll (ue_crypto env) (ue_codec env) (ue_enroll_io env) (trim (cf_agent_id form)) (trim (cf_public_key form))
      (trim (cf_sponsor_id form)) (trim (cf_sponsor_name form)) (ue_now env) False (us_enrollment st1) = (Err e, us_enrollment st1)"
    using enroll_live by blast
  then have "\<exists>m. connect_enroll env form st1 = (Err m, st1)" by (simp add: connect_enroll_def)
  then have "\<exists>msg. connect_submit env cfg form st = (connect_err msg, st1)"
    using assms(1) s by (cases r) (auto simp: connect_submit_def)
  then show ?thesis using w k by auto
qed

section \<open>The rule editor\<close>

lemma parse_or_exact_eq: "matcher_parse raw = Ok m \<Longrightarrow> parse_or_exact raw = m"
  by (simp add: parse_or_exact_def)

lemma candidate_pairs_form: "candidate_pairs ls = (case form_pairs li ls of Inl _ \<Rightarrow> None | Inr ps \<Rightarrow> Some ps)"
proof (induction ls arbitrary: li)
  case (Cons l ls)
  show ?case
  proof (cases "split_once (trim l) ''|''")
    case None
    then show ?thesis using Cons [of "Suc li"] by (simp add: Let_def)
  next
    case (Some ct)
    obtain c t where ct: "ct = (c, t)" by fastforce
    obtain mc mt where m: "matcher_parse (trim c) = Ok mc" "matcher_parse (trim t) = Ok mt"
      using matcher_parse_total by metis
    then show ?thesis
      using Cons [of "Suc li"] Some ct by (auto simp: parse_or_exact_eq [OF m(1)] parse_or_exact_eq [OF m(2)] Let_def split: sum.splits)
  qed
qed simp

text \<open>
  The preview of the rule editor describes the rule that will be saved. On the trimmed fields
  it has exactly the effect, the axes and the bindings of the saved rule, and there is no preview
  exactly when the form is refused for its effect or for one of its pair lines. (The name, the
  notification switch and the limits are not part of the preview.)
\<close>

theorem preview_is_saved_rule:
  "candidate_rule (rf_mechanism form) (trim (rf_target_uri form)) (trim (rf_agent_id form)) (trim (rf_cred_ref form))
     (rf_effect form) (rf_pairs form) =
   (case (effect_parse (rf_effect form), form_pairs 0 (str_lines (rf_pairs form))) of
      (Some _, Inr pairs) \<Rightarrow> Some ((form_rule form pairs)\<lparr>r_name := None, r_notify_on_use := True, r_limits := no_limits\<rparr>)
    | _ \<Rightarrow> None)"
  by (simp add: candidate_rule_def candidate_pairs_form [where li = 0] form_rule_def split: option.split sum.split)

text \<open>
  A limit that cannot be read is no limit. A rule whose size limit is given as \<open>1MB\<close> is saved
  as if the field had been left empty, and the operator gets the same answer.
\<close>

theorem unreadable_limit_is_no_limit:
  "rules_add env cfg (form\<lparr>rf_max_response_bytes := ''1MB''\<rparr>) st =
   rules_add env cfg (form\<lparr>rf_max_response_bytes := []\<rparr>) st"
proof -
  have "parse_u64 (trim ''1MB'') = None" "parse_u64 (trim []) = None"
    by (simp_all add: parse_u64_def parse_uint_def trim_def trim_start_def trim_end_def unicode_ws_def digit_val_def)
  then have f: "form_rule (form\<lparr>rf_max_response_bytes := ''1MB''\<rparr>) ps = form_rule (form\<lparr>rf_max_response_bytes := []\<rparr>) ps" for ps
    by (simp add: form_rule_def)
  show ?thesis unfolding rules_add_def f by simp
qed


section \<open>The policy file over a history of requests\<close>

definition ui_run :: "ui_config \<Rightarrow> ui_state \<Rightarrow> (ui_env \<times> ui_request) list \<Rightarrow> ui_state" where
  "ui_run cfg st reqs = foldl (\<lambda>s (env, rq). snd (ui_handle env cfg rq s)) st reqs"

definition loadable :: "crypto \<Rightarrow> (string \<Rightarrow> (string, rule_def list) result) \<Rightarrow> path_entry \<Rightarrow> bool" where
  "loadable c toml entry \<longleftrightarrow> entry = Missing \<or> (\<exists>doc p. entry = File doc \<and> from_toml c toml doc = Ok p)"

lemma connect_submit_policy: "keeps_or_loads env st (snd (connect_submit env cfg form st))"
proof -
  obtain resp st' where "connect_submit env cfg form st = (resp, st')" by fastforce
  then have "keeps_or_loads env st st'"
  proof (cases rule: connect_submit_stages)
    case (rule r doc st1 st2 st3)
    have "us_policy st3 = us_policy st"
      using rule(2) [THEN connect_keeps(1)] rule(3) [THEN connect_keeps(2)] rule(4) [THEN connect_keeps(3)] by simp
    moreover obtain p where "from_toml (ue_crypto env) (ue_toml env) doc = Ok p" using connect_check_ok(2) [OF rule(1)] by blast
    then have "keeps_or_loads env st3 st'" by (rule write_policy_loads [OF rule(5)])
    ultimately show ?thesis by (simp add: keeps_or_loads_def)
  qed (auto simp: keeps_or_loads_def dest!: connect_keeps)
  then show ?thesis using \<open>connect_submit env cfg form st = (resp, st')\<close> by simp
qed

lemma editor_policy:
  "keeps_or_loads env st (snd (rules_add env cfg form st))"
  "keeps_or_loads env st (snd (rules_delete env cfg index st))"
  "keeps_or_loads env st (snd (raw_save env cfg doc st))"
  "ue_toml env [] = Ok [] \<Longrightarrow> keeps_or_loads env st (snd (create_policy env cfg st))"
  using rules_add_cases [of env cfg form st "fst (rules_add env cfg form st)" "snd (rules_add env cfg form st)"]
    rules_delete_cases [of env cfg index st "fst (rules_delete env cfg index st)" "snd (rules_delete env cfg index st)"]
    raw_save_cases [of env cfg doc st "fst (raw_save env cfg doc st)" "snd (raw_save env cfg doc st)"]
    create_policy_cases [of env cfg st "fst (create_policy env cfg st)" "snd (create_policy env cfg st)"]
    validated_doc_ok(2) [of env]
  by (auto simp: keeps_or_loads_def from_toml_def)

lemma other_policy:
  "keeps_or_loads env st (snd (secrets_store env cfg path val st))"
  "keeps_or_loads env st (snd (secrets_delete env cfg path st))"
  "keeps_or_loads env st (snd (agents_enroll env eform st))"
  "keeps_or_loads env st (snd (agents_revoke env agent st))"
  "keeps_or_loads env st (snd (create_vault env cfg pass conf st))"
  "keeps_or_loads env st (snd (create_audit_key env cfg st))"
  by (auto simp: secrets_store_def secrets_delete_def agents_enroll_def agents_revoke_def create_vault_def
      create_audit_key_def write_audit_key_def Let_def split: option.split prod.split sum.split bool.split)

lemma with_form_policy:
  "(\<And>f. keeps_or_loads env st (snd (handler f st))) \<Longrightarrow> keeps_or_loads env st (snd (with_form form handler st))"
  by (simp add: with_form_def split: option.split)

lemma run_handler_policy:
  assumes "ue_toml env [] = Ok []"
  shows "keeps_or_loads env st (snd (run_handler env cfg rq h st))"
  using editor_policy(4) [OF assms]
  by (cases h) (auto intro!: with_form_policy simp: connect_submit_policy editor_policy other_policy split: option.split prod.split)

lemma ui_handle_policy:
  assumes "ue_toml env [] = Ok []"
  shows "keeps_or_loads env st (snd (ui_handle env cfg rq st))"
  using run_handler_policy [OF assms]
  by (auto simp: ui_handle_def ui_front_def loopback_guard_def token_gate_def ui_dispatch_def split: option.split sum.split)

text \<open>
  (C29) The interface never leaves a policy file that does not load. Whatever sequence of requests
  arrives, with any outcome of the file operations, the file is absent or holds a document that
  the gateway's own loader accepts, if it did so before.
\<close>

theorem policy_file_stays_loadable:
  assumes "loadable c toml (us_policy st)" "toml [] = Ok []"
    and "list_all (\<lambda>(env, rq). ue_crypto env = c \<and> ue_toml env = toml) reqs"
  shows "loadable c toml (us_policy (ui_run cfg st reqs))"
  using assms
proof (induction reqs arbitrary: st)
  case (Cons er reqs)
  obtain env rq where er: "er = (env, rq)" by fastforce
  with Cons.prems have env: "ue_crypto env = c" "ue_toml env = toml" by simp_all
  then have "keeps_or_loads env st (snd (ui_handle env cfg rq st))" using ui_handle_policy Cons.prems(2) by simp
  then have "loadable c toml (us_policy (snd (ui_handle env cfg rq st)))"
    using Cons.prems(1) env by (auto simp: keeps_or_loads_def loadable_def)
  then show ?case using Cons.IH Cons.prems(2,3) er by (simp add: ui_run_def)
qed (simp add: ui_run_def)

section \<open>Samples\<close>

definition sample_connect :: connect_form where
  "sample_connect = \<lparr>cf_mechanism = ''ssh'', cf_agent_id = ''a'', cf_cred_ref = ''local://x'', cf_target_uri = ''t'',
     cf_effect = ''allow'', cf_public_key = b64u_encode sample_crypto sample_key, cf_sponsor_id = ''sam@x'',
     cf_sponsor_name = ''Sam'', cf_secret = ''s''\<rparr>"

lemma sample_trims:
  "trim ''ssh'' = ''ssh''" "trim ''a'' = ''a''" "trim ''local://x'' = ''local://x''" "trim ''t'' = ''t''"
  "trim [] = []" "trim ''allow'' = ''allow''" "trim ''sam@x'' = ''sam@x''" "trim ''Sam'' = ''Sam''"
  by (simp_all add: trim_def trim_start_def trim_end_def unicode_ws_def)

lemma sample_key_trim: "trim (b64u_encode sample_crypto sample_key) = b64u_encode sample_crypto sample_key"
  using sample_crypto_ok(5) by (simp add: b64u_trimmed_def)

lemma sample_current_policy:
  "current_policy (sample_ui_env []) cfg (sample_ui_state (File []) v) =
     Ok \<lparr>rules = [], source_hash_hex = hex_encode (sha256 sample_crypto [])\<rparr>"
  by (simp add: current_policy_def read_text_def sample_ui_state_def from_toml_def)

lemma sample_connect_path: "connect_path sample_connect = ''x''"
  by (simp add: connect_path_def sample_connect_def sample_trims strip_prefix_def trim_slashes_def)

lemma sample_connect_check:
  assumes "us_policy st = File []" "us_vault st \<noteq> None"
  shows "\<exists>r. connect_check (sample_ui_env []) cfg sample_connect st = Ok (to_toml (\<lambda>s. s) (from_rules [r]))"
proof -
  have p: "current_policy (sample_ui_env []) cfg st = Ok \<lparr>rules = [], source_hash_hex = hex_encode (sha256 sample_crypto [])\<rparr>"
    using assms(1) by (simp add: current_policy_def read_text_def from_toml_def)
  have c: "\<exists>r. candidate_rule ''ssh'' ''t'' ''a'' ''local://x'' ''allow'' [] = Some r"
    by (simp add: candidate_rule_def effect_parse_def str_lines_def)
  have m: "mechanism_of ''ssh'' \<noteq> None" by (simp add: mechanism_of_def mechanisms_def)
  have v: "validated_doc (sample_ui_env []) rs = Ok (to_toml (\<lambda>s. s) (from_rules rs))" for rs
    by (simp add: validated_doc_def from_toml_def Let_def)
  show ?thesis
    using c m assms(2) sample_decode sample_connect_path
    by (auto simp: connect_check_def Let_def p v sample_connect_def sample_trims sample_key_trim)
qed

lemma sample_connect_stores:
  assumes "vault_ok sample_vault_env ''pw'' v" "us_vault st = Some v"
  obtains w where "connect_store_secret (sample_ui_env []) cfg (connect_path sample_connect) (cf_secret sample_connect) st =
    (Ok (), st\<lparr>us_vault := Some w\<rparr>)"
proof -
  obtain u w where "vault_set sample_vault_env True sample_nonce (connect_path sample_connect) (cf_secret sample_connect) v = (Ok u, w)"
    using vault_set_ok(1) [OF assms(1), of sample_nonce] by (metis nonce_len_def length_replicate prod.collapse sample_nonce_def)
  then show thesis using that assms(2) by (simp add: connect_store_secret_def)
qed

lemma sample_connect_enrolls:
  assumes "us_enrollment st = enrollment_in_memory"
  obtains es where "connect_enroll (sample_ui_env []) sample_connect st = (Ok (), st\<lparr>us_enrollment := es\<rparr>)"
proof -
  obtain es where "enroll sample_crypto sample_store_codec True ''a'' (b64u_encode sample_crypto sample_key) ''sam@x'' ''Sam''
      (ue_now (sample_ui_env [])) False enrollment_in_memory = (Ok (), es)"
    by (simp add: enroll_def sample_decode sample_trims Let_def live_agent_def enrollment_in_memory_def persist_def)
  then show thesis
    using that [of es] assms by (simp add: connect_enroll_def sample_connect_def sample_trims sample_key_trim)
qed

lemma sample_connect_submit:
  assumes "vault_ok sample_vault_env ''pw'' v"
  shows "\<exists>resp st'. connect_submit (sample_ui_env []) sample_ui_config sample_connect (sample_ui_state (File []) (Some v)) = (resp, st') \<and>
    us_policy st' \<noteq> File []"
proof -
  let ?st = "sample_ui_state (File []) (Some v)"
  have st: "us_policy ?st = File []" "us_vault ?st = Some v" "us_enrollment ?st = enrollment_in_memory"
    by (simp_all add: sample_ui_state_def)
  obtain r where r: "connect_check (sample_ui_env []) sample_ui_config sample_connect ?st = Ok (to_toml (\<lambda>s. s) (from_rules [r]))"
    using sample_connect_check [of ?st] st by auto
  obtain w where w: "connect_store_secret (sample_ui_env []) sample_ui_config (connect_path sample_connect) (cf_secret sample_connect) ?st =
      (Ok (), ?st\<lparr>us_vault := Some w\<rparr>)"
    by (rule sample_connect_stores [OF assms st(2)])
  obtain es where es: "connect_enroll (sample_ui_env []) sample_connect (?st\<lparr>us_vault := Some w\<rparr>) =
      (Ok (), ?st\<lparr>us_vault := Some w, us_enrollment := es\<rparr>)"
    by (rule sample_connect_enrolls [of "?st\<lparr>us_vault := Some w\<rparr>"]) (simp add: st)
  have k: "\<exists>st3. connect_audit_key (sample_ui_env []) sample_ui_config s = (Ok (), st3)" for s
    by (simp add: connect_audit_key_def write_audit_key_def)
  have "to_toml (\<lambda>s. s) (from_rules [r]) \<noteq> []" by (simp add: to_toml_def from_rules_def rule_toml_def)
  then show ?thesis
    using k [of "?st\<lparr>us_vault := Some w, us_enrollment := es\<rparr>"]
    by (auto simp: connect_submit_def r w es write_policy_def)
qed

theorem connect_grants_last_witness:
  "\<exists>v resp st' v'. vault_ok sample_vault_env ''pw'' v \<and>
     connect_submit (sample_ui_env []) sample_ui_config sample_connect (sample_ui_state (File []) (Some v)) = (resp, st') \<and>
     us_vault st' = Some v' \<and> vault_content sample_vault_env v' ''x'' = Some ''s'' \<and>
     lookup (us_enrollment st') ''a'' \<noteq> None \<and> is_file (us_audit_key st')"
proof -
  obtain v where v: "vault_ok sample_vault_env ''pw'' v" by (rule sample_vault)
  obtain resp st' where s: "connect_submit (sample_ui_env []) sample_ui_config sample_connect (sample_ui_state (File []) (Some v)) = (resp, st')"
      "us_policy st' \<noteq> File []"
    using sample_connect_submit [OF v] by blast
  have "\<exists>v'. us_vault st' = Some v' \<and> vault_content sample_vault_env v' ''x'' = Some ''s'' \<and>
      lookup (us_enrollment st') ''a'' \<noteq> None \<and> is_file (us_audit_key st')"
    using connect_grants_last [OF s(1), of v "''pw''"] s(2) v
    by (auto simp: sample_ui_state_def sample_connect_path sample_nonce_def nonce_len_def)
      (auto simp: sample_connect_def sample_trims)
  then show ?thesis using v s(1) by blast
qed

text \<open>The same form again, for the agent that is now enrolled.\<close>

definition enrolled_store :: enrollment_store where
  "enrolled_store = operator_run sample_crypto sample_store_codec enrollment_in_memory sample_acts"

theorem refused_connect_replaces_secret_witness:
  "\<exists>v msg v' st'. connect_submit (sample_ui_env []) sample_ui_config sample_connect
       ((sample_ui_state (File []) (Some v))\<lparr>us_enrollment := enrolled_store\<rparr>) = (connect_err msg, st') \<and>
     us_policy st' = File [] \<and> us_vault st' = Some v' \<and> vault_content sample_vault_env v' ''x'' = Some ''s''"
proof -
  obtain v where v: "vault_ok sample_vault_env ''pw'' v" by (rule sample_vault)
  let ?st = "(sample_ui_state (File []) (Some v))\<lparr>us_enrollment := enrolled_store\<rparr>"
  have st: "us_policy ?st = File []" "us_vault ?st = Some v" "us_enrollment ?st = enrolled_store"
    by (simp_all add: sample_ui_state_def)
  obtain doc where "connect_check (sample_ui_env []) sample_ui_config sample_connect ?st = Ok doc"
    using sample_connect_check [of ?st] st by auto
  moreover have "lookup enrolled_store (trim (cf_agent_id sample_connect)) \<noteq> None"
    using sample_lookup by (simp add: enrolled_store_def sample_connect_def sample_trims)
  ultimately obtain msg v' st' where "connect_submit (sample_ui_env []) sample_ui_config sample_connect ?st = (connect_err msg, st')"
      "us_policy st' = File []" "us_vault st' = Some v'" "vault_content sample_vault_env v' (connect_path sample_connect) = Some (cf_secret sample_connect)"
    using refused_connect_replaces_secret [of "sample_ui_env []" sample_ui_config sample_connect ?st doc v "''pw''"] v st
    by (auto simp: sample_nonce_def nonce_len_def)
  then show ?thesis unfolding sample_connect_path by (auto simp: sample_connect_def)
qed

definition sample_rule_form :: rule_form where
  "sample_rule_form = \<lparr>rf_name = [], rf_mechanism = ''ssh'', rf_agent_id = ''a'', rf_cred_ref = [], rf_target_uri = [], rf_pairs = [],
     rf_effect = ''allow'', rf_notify_on_use = None, rf_max_response_bytes = [], rf_session_ttl_s = []\<rparr>"

text \<open>A reader that returns the new rule for the new document, and no rule for the empty one.\<close>

definition sample_add_env :: ui_env where
  "sample_add_env = (sample_ui_env [])\<lparr>ue_toml := (\<lambda>doc. if doc = [] then Ok [] else Ok [written (form_rule sample_rule_form [])])\<rparr>"


theorem policy_file_stays_loadable_witness:
  "loadable sample_crypto (\<lambda>_. Ok []) (us_policy (ui_run sample_ui_config (sample_ui_state Missing None)
     [(sample_ui_env [], sample_ui_request ''POST'' ''/setup/policy'')]))"
  by (rule policy_file_stays_loadable) (simp_all add: loadable_def sample_ui_state_def)

end
