(* ===== verification/Spec2Isabelle.thy ===== *)
theory Spec2Isabelle
  imports Matcher Policy Attestation Transcript Http_Injector Gateway_Edges Policy_Guard Ssh_Sessions
    Operator_Channels Inventory Ui_Flows
begin

text \<open>
  A verification development for Chaperone, a credential broker for software agents: an agent
  sends a signed intent to a gateway, the gateway checks it against a policy and where required asks
  a human, spends the credential itself, and returns the result without the credential. The
  sources are the Rust crates under \<^verbatim>\<open>src/crates\<close>.

  \<^bold>\<open>How the program is modelled.\<close> A Rust \<^verbatim>\<open>str\<close> is its list of UTF-8 bytes, a \<^verbatim>\<open>Result\<close> is a sum
  (\<open>Err\<close>/\<open>Ok\<close>), a struct is a record, an enum a datatype, a hash map an association list with
  distinct keys, a \<^verbatim>\<open>u64\<close> a 64-bit word where its width matters. A method with \<^verbatim>\<open>&mut self\<close>, or with
  a lock around its state, is a function that returns the new state; a critical section that the code
  splits in two is two functions. Outcomes of file and network operations, clocks, random bytes and
  the human are arguments, so a theorem that quantifies over them holds for every outcome. Code that
  is not in the repository (cryptography, JSON, TOML, HTTP, SSH and PostgreSQL libraries, the HTTP
  router) is an argument too; what is relied on is a named predicate (for instance
  \<open>jcs_reads_back\<close>, \<open>b64u_reads_back\<close>, \<open>vault_laws\<close>, \<open>pin_codec_ok\<close>, \<open>routes_exactly\<close>), and each has a
  concrete instance that satisfies it.

  \<^bold>\<open>The theories, and the files they follow.\<close>
  \<^item> \<open>Prelude\<close>: the string, number and result operations of the standard library; \<open>Ordered_Map\<close>: the
    ordered map of the vault and the contract of a key-value store; \<open>Json\<close>: JSON values and the record
    of cryptographic functions.
  \<^item> \<open>Matcher\<close>, \<open>Policy\<close> (\<^verbatim>\<open>policy/src/matcher.rs\<close>, \<^verbatim>\<open>lib.rs\<close>): globs, rules, first-match evaluation,
    reading and writing the rule file.
  \<^item> \<open>Protocol\<close>, \<open>Wire\<close> (\<^verbatim>\<open>protocol/src\<close>): error codes, canonical form, envelopes and operation bodies.
  \<^item> \<open>Replay_Cache\<close>, \<open>Enrollment\<close>, \<open>Attestation\<close> (\<^verbatim>\<open>identity/src\<close>): nonces, agents and their keys, and
    the order of the checks on a message.
  \<^item> \<open>Audit_Chain\<close>, \<open>Audit_Journal\<close>, \<open>Transcript\<close> (\<^verbatim>\<open>audit/src\<close>): the hash chain, the writer with failing
    writes and restarts, the verifier, session transcripts.
  \<^item> \<open>Vault\<close>, \<open>Credentials\<close> (\<^verbatim>\<open>vault/src\<close>): the sealed file, and the resolution of references.
  \<^item> \<open>Http_Injector\<close> (\<^verbatim>\<open>injectors/src\<close>), \<open>Database\<close> (\<^verbatim>\<open>gateway-core/src/db.rs\<close>): requests with the credential
    in them and what comes back.
  \<^item> \<open>Codec\<close> (\<^verbatim>\<open>transport/src\<close>), \<open>Privilege\<close> (\<^verbatim>\<open>privileged-helper/src\<close>, \<^verbatim>\<open>gateway-core/src/privilege.rs\<close>),
    \<open>Ssh_Ca\<close> (\<^verbatim>\<open>ssh_ca*.rs\<close>), \<open>Sessions\<close> (\<^verbatim>\<open>session.rs\<close>): framing, the privileged helper, the certificate
    authority, the table of open sessions.
  \<^item> \<open>Gateway\<close>, \<open>Brokering\<close>, \<open>Gateway_Runs\<close>, \<open>Gateway_Edges\<close> (\<^verbatim>\<open>gateway-core/src/lib.rs\<close>): the whole message
    handler; what one message does, what histories of messages do, and the edges of both.
  \<^item> \<open>Policy_Guard\<close> (\<^verbatim>\<open>policy_guard.rs\<close>): the watch on the policy file beside the running gateway.
  \<^item> \<open>Host_Keys\<close>, \<open>Ssh_Sessions\<close> (\<^verbatim>\<open>known_hosts.rs\<close>, \<^verbatim>\<open>ssh.rs\<close>): host key pins, the SSH backend and its
    channel, and the gateway with that backend.
  \<^item> \<open>Operator_Channels\<close> (\<^verbatim>\<open>transport/src/operator_pipe.rs\<close>, \<^verbatim>\<open>events.rs\<close>, \<^verbatim>\<open>console.rs\<close>): the endpoints of the
    operator, the event feed with its queues and threads, and the console behind the human gate.
  \<^item> \<open>Inventory\<close> (\<^verbatim>\<open>cli/src/import_sources.rs\<close>, \<^verbatim>\<open>import_core.rs\<close>): reading fleet inventories and importing
    them into vault and policy.
  \<^item> \<open>Ui_Access\<close>, \<open>Ui_Console\<close>, \<open>Ui_Flows\<close> (\<^verbatim>\<open>ui/src\<close>): the entrance of the web interface with its access
    token; the catalogue, the preview, every page with its text, every form handler and the router;
    and what the forms do to the policy file, the vault and the enrollment store.

  \<^bold>\<open>What the theorems show.\<close>
  \<^item> Decisions: evaluation is the declarative first-match relation with deny as the floor; the glob
    matcher is the textbook semantics; a saved policy decides as before.
  \<^item> Messages: a message is accepted exactly when every check passes; nonces are reserved once, also
    across restarts; a credential is spent only for a verified, permitted and where required approved
    intent, at most once, with exactly one record; responses have the shapes of the protocol.
  \<^item> Evidence: the journal of a gateway verifies, its tail pins its whole history, transcripts verify.
  \<^item> Secrets: the vault survives restarts, relayed responses contain no credential, the key of the
    certificate authority is created once and never leaves, no page of the web interface tells two
    values of a secret of the same length apart, and an import never replaces an entry.
  \<^item> Sessions: input reaches a channel only from the agent whose opening is on record; halting is
    final; the guard halts exactly on drift; the helper runs only pinned programs and its results pass
    unharmed; the SSH backend authenticates exactly under the host key policy, with one key per host,
    and its reads end with all the output.
  \<^item> Operators: nothing behind the entrance of the web interface is reached without the token; its
    requests leave a policy file that loads; a new rule yields to the saved ones; the connect flow grants last; the
    feed delivers in order; every answer meets its own prompt; waiting for a byte ends.
  \<^item> Errors: theorems that show where the code does something else than it says, such as sessions that
    reach another host than the target, certificates that open nothing, or a refused form that
    replaces a secret.

  \<^bold>\<open>Interfaces.\<close> Contracts that components share are locales, interpreted on the model's own operations:
  \<open>first_match\<close> (an ordered list of clauses) on policy evaluation; \<open>key_value\<close> (what a lookup returns after a
  write) on the ordered map and on the vault over it; \<open>replay_guard\<close> (a key is reserved once while it
  is held) on the nonce cache; \<open>sealed_log\<close> (appends keep a verifying chain) on the audit journal and on
  the session transcript. Runs of a component are folds or recursive functions over explicit lists of
  inputs, in any order and interleaving.

  \<^bold>\<open>Bounds and fuel.\<close> All functions are total. Loops over input recurse on the input; the waiting loops of
  the operator endpoints recurse on the time left and on the attempts left and have termination
  proofs; \<open>trim_left_by\<close> has the length of its text as fuel, which suffices because every white space
  character takes at least one byte; \<open>ssh_reads\<close> takes the number of reads as an argument, and its theorem
  states how many are enough.

  \<^bold>\<open>Not modelled.\<close> The command line (argument parsing, terminal prompts, start-up wiring), desktop
  notifications, the binding and accepting of sockets and pipes, the key store of the platform as a
  sealer of the vault, poisoned locks, the wiping of memory, and the interval between two ticks of a
  watch: input and output, or behaviour without a counterpart in a model of values.
\<close>

end
